theory Spec2Isabelle
  imports Complex_Main "HOL-Library.Word"
begin

section \<open>Data of the deputy (procman\_deputy.c)\<close>

text \<open>
  The model follows \<^verbatim>\<open>bot2-procman/src/deputy/procman_deputy.c\<close>.

  Conventions of the embedding.
  \<^item> C's signed integers (\<^verbatim>\<open>int\<close>, \<^verbatim>\<open>int32_t\<close>, \<^verbatim>\<open>int64_t\<close>) are HOL's
    \<open>int\<close>. The operations on them are assignment, comparison, \<^verbatim>\<open>++\<close> on counters that
    start at 0, \<^verbatim>\<open>+ 900000\<close> on a reading of the clock, and the difference of a reading of
    the clock and the \<^verbatim>\<open>utime\<close> of an order. The \<^verbatim>\<open>utime\<close> is whatever 64-bit value the
    message carries, so this difference is taken in 64 bits two's complement (\<open>sub64\<close>),
    as the compiled program takes it; the others are taken without overflow.
  \<^item> The jiffy counters of \<^verbatim>\<open>procinfo.h\<close> (a header that is not part of the sources
    at hand) have a type \<open>'j\<close> that is left as a parameter of the records; the sampler
    takes it to be an unsigned machine word \<open>'w word\<close> of any width, whose differences
    wrap around as unsigned C arithmetic does.
  \<^item> The two \<^verbatim>\<open>float\<close> fields \<open>cpu_load\<close> and \<open>cpu_usage\<close> hold the exact quotient
    as a rational number: the rounding of the C division is not modelled.
  \<^item> A \<^verbatim>\<open>procman_cmd_t *\<close> is a \<open>handle\<close>; the commands live in a store
    \<open>cmd_at\<close>, and the process manager's list holds handles, as the GList holds pointers.
  \<^item> Everything the deputy asks of its environment (the clock, fork, kill, waitpid,
    the /proc readers, read(2) on a pipe) is answered by an oracle: a function from the
    number of the call to the answer, with a counter of the calls made so far. What the
    deputy does to its environment is appended to \<open>effects\<close>.
  \<^item> Diagnostics written to stderr and stdout (\<^verbatim>\<open>dbgt\<close>, \<^verbatim>\<open>printf\<close>, \<^verbatim>\<open>perror\<close>)
    are not part of the model, and neither is the \<^verbatim>\<open>verbose\<close> flag that only guards
    them.
\<close>

type_synonym handle = nat

datatype unix_signal = SIGHUP | SIGINT | SIGQUIT | SIGKILL | SIGTERM | SIGCHLD

text \<open>Modelled from the spec: \<^verbatim>\<open>proc_cpu_mem_t\<close> of the missing \<^verbatim>\<open>procinfo.h\<close>, with the
  fields the deputy reads (section 4.5: per-pid CPU, RSS and VSZ).\<close>

record 'j proc_cpu_mem =
  p_user :: 'j
  p_system :: 'j
  p_vsize :: int
  p_rss :: int

text \<open>Modelled from the spec: \<^verbatim>\<open>sys_cpu_mem_t\<close> of the missing \<^verbatim>\<open>procinfo.h\<close>, with the
  fields the deputy reads (section 4.5 and the telemetry record of section 3).\<close>

record 'j sys_cpu_mem =
  s_user :: 'j
  s_user_low :: 'j
  s_system :: 'j
  s_idle :: 'j
  memtotal :: int
  memfree :: int
  swaptotal :: int
  swapfree :: int

text \<open>\<^verbatim>\<open>pmd_cmd_moreinfo_t\<close>. \<open>stdout_ioc\<close> is \<open>None\<close> for the NULL channel and
  \<open>Some fd\<close> for the channel made of \<open>fd\<close>.\<close>

record 'j pmd_cmd_moreinfo =
  stdout_ioc :: "int option"
  stdout_sid :: nat
  actual_runid :: int
  sheriff_id :: int
  cpu_time0 :: "'j proc_cpu_mem"
  cpu_time1 :: "'j proc_cpu_mem"
  cpu_usage :: rat
  group_str :: string
  nickname :: string
  num_kills_sent :: int
  last_kill_time :: int
  remove_requested :: int

text \<open>Modelled from the spec: \<^verbatim>\<open>procman_cmd_t\<close> of the missing \<^verbatim>\<open>procman.h\<close>, with the
  fields the deputy uses: the command string \<^verbatim>\<open>cmd->str\<close>, \<open>pid\<close> (0 when not running),
  \<open>stdout_fd\<close>, \<open>exit_status\<close> and the \<open>user\<close> pointer to the deputy's own record;
  \<open>argv\<close> is the tokenized command string of section 3.\<close>

record 'j procman_cmd =
  cmd_str :: string
  argv :: "string list"
  pid :: int
  stdout_fd :: int
  exit_status :: int
  user :: "'j pmd_cmd_moreinfo"

text \<open>The wire records (\<^verbatim>\<open>bot_procman_sheriff_cmd_t\<close>, \<^verbatim>\<open>bot_procman_orders_t\<close>,
  \<^verbatim>\<open>bot_procman_printf_t\<close>, \<^verbatim>\<open>bot_procman_deputy_cmd_t\<close>, \<^verbatim>\<open>bot_procman_info_t\<close>);
  \<^verbatim>\<open>ncmds\<close> is the length of the list.\<close>

record sheriff_cmd =
  o_name :: string
  o_nickname :: string
  o_group :: string
  o_sheriff_id :: int
  o_desired_runid :: int
  o_force_quit :: bool

record orders_t =
  o_utime :: int
  o_host :: string
  o_sheriff_name :: string
  o_cmds :: "sheriff_cmd list"

record printf_t =
  pf_deputy_name :: string
  pf_sheriff_id :: int
  pf_text :: string
  pf_utime :: int

record deputy_cmd =
  dc_name :: string
  dc_nickname :: string
  dc_actual_runid :: int
  dc_pid :: int
  dc_exit_code :: int
  dc_sheriff_id :: int
  dc_group :: string
  dc_cpu_usage :: rat
  dc_mem_vsize_bytes :: int
  dc_mem_rss_bytes :: int

record info_t =
  in_utime :: int
  in_host :: string
  in_cpu_load :: rat
  in_phys_mem_total_bytes :: int
  in_phys_mem_free_bytes :: int
  in_swap_total_bytes :: int
  in_swap_free_bytes :: int
  in_cmds :: "deputy_cmd list"

text \<open>What the deputy does to the outside: a message published on PMD\_PRINTF or on
  PMD\_INFO, a child forked for a handle (with its pid), a fork that failed, and a
  signal sent to a pid.\<close>

text \<open>The answer of read(2) on a child's pipe: an error with its errno, or the bytes
  read (none at end of file).\<close>

datatype read_result = Read_error int | Read_bytes string

datatype gio_condition = G_IO_IN | G_IO_ERR | G_IO_HUP | G_IO_NVAL | G_IO_PRI | G_IO_OUT

datatype effect =
    Publish_printf printf_t
  | Publish_info info_t
  | Spawned handle int
  | Spawn_failed handle
  | Kill int unix_signal

text \<open>\<^verbatim>\<open>procman_deputy_t\<close>, together with the \<^verbatim>\<open>procman_t\<close> it points to (the list
  \<open>commands\<close> and the store \<open>cmd_at\<close>), the watches of the glib main loop (source id
  and the command it was registered with), and the environment: the oracles, their call
  counters, the library functions \<^verbatim>\<open>strerror\<close> and \<^verbatim>\<open>strsignal\<close>, the command-string
  tokenizer, and the effects so far.\<close>

record 'j procman_deputy =
  commands :: "handle list"
  cmd_at :: "handle \<Rightarrow> 'j procman_cmd"
  hostname :: string
  mainloop_quit :: bool
  norders_slm :: int
  norders_forme_slm :: int
  nstale_orders_slm :: int
  observed_sheriffs_slm :: "string list"
  last_sheriff_name :: "string option"
  cpu_time_prev :: "'j sys_cpu_mem"
  cpu_time_cur :: "'j sys_cpu_mem"
  cpu_load :: rat
  io_watches :: "(nat \<times> handle) list"
  next_source_id :: nat
  clock :: "nat \<Rightarrow> int"
  clock_reads :: nat
  fork_results :: "nat \<Rightarrow> int \<times> int"
  forks :: nat
  kill_results :: "nat \<Rightarrow> int"
  kills :: nat
  wait_results :: "nat \<Rightarrow> (int \<times> int) option"
  waits :: nat
  sys_results :: "nat \<Rightarrow> int \<times> 'j sys_cpu_mem"
  sys_reads :: nat
  proc_results :: "nat \<Rightarrow> int \<times> 'j proc_cpu_mem"
  proc_reads :: nat
  poll_results :: "nat \<Rightarrow> bool"
  polls :: nat
  read_results :: "nat \<Rightarrow> read_result"
  reads :: nat
  strerror :: "int \<Rightarrow> string"
  strsignal :: "int \<Rightarrow> string"
  tokenize :: "string \<Rightarrow> string list"
  effects :: "effect list"

section \<open>Primitives\<close>

text \<open>\<^verbatim>\<open>timestamp_now\<close>: one reading of the wall clock, in microseconds.\<close>

definition timestamp_now :: "'j procman_deputy \<Rightarrow> int \<times> 'j procman_deputy" where
  "timestamp_now s = (clock s (clock_reads s), s\<lparr>clock_reads := Suc (clock_reads s)\<rparr>)"

definition emit :: "effect \<Rightarrow> 'j procman_deputy \<Rightarrow> 'j procman_deputy" where
  "emit e s = s\<lparr>effects := effects s @ [e]\<rparr>"

text \<open>Assignments through a \<^verbatim>\<open>procman_cmd_t *\<close> and through its \<^verbatim>\<open>user\<close> pointer.\<close>

definition upd_cmd ::
  "handle \<Rightarrow> ('j procman_cmd \<Rightarrow> 'j procman_cmd) \<Rightarrow> 'j procman_deputy \<Rightarrow> 'j procman_deputy" where
  "upd_cmd p f s = s\<lparr>cmd_at := (cmd_at s)(p := f (cmd_at s p))\<rparr>"

definition upd_mi ::
  "handle \<Rightarrow> ('j pmd_cmd_moreinfo \<Rightarrow> 'j pmd_cmd_moreinfo) \<Rightarrow> 'j procman_deputy \<Rightarrow> 'j procman_deputy" where
  "upd_mi p f s = upd_cmd p (\<lambda>c. c\<lparr>user := f (user c)\<rparr>) s"

definition mi_of :: "'j procman_deputy \<Rightarrow> handle \<Rightarrow> 'j pmd_cmd_moreinfo" where
  "mi_of s p = user (cmd_at s p)"

text \<open>\<^verbatim>\<open>transmit_str\<close> publishes the string as it is.\<close>

definition transmit_str :: "'j procman_deputy \<Rightarrow> int \<Rightarrow> string \<Rightarrow> 'j procman_deputy" where
  "transmit_str pmd sid str =
     (let (now, s1) = timestamp_now pmd
      in emit (Publish_printf \<lparr>pf_deputy_name = hostname s1, pf_sheriff_id = sid,
                               pf_text = str, pf_utime = now\<rparr>) s1)"

text \<open>\<^verbatim>\<open>printf_and_transmit\<close>: the argument \<open>txt\<close> is the formatted text; \<^verbatim>\<open>vsnprintf\<close>
  returns its length and leaves at most 255 characters of it in the buffer of 256.\<close>

definition printf_and_transmit :: "'j procman_deputy \<Rightarrow> int \<Rightarrow> string \<Rightarrow> 'j procman_deputy" where
  "printf_and_transmit pmd sid txt =
     (let len = length txt; buf = take 255 txt
      in if len \<noteq> 0
         then (let (now, s1) = timestamp_now pmd
               in emit (Publish_printf \<lparr>pf_deputy_name = hostname s1, pf_sheriff_id = sid,
                                        pf_text = buf, pf_utime = now\<rparr>) s1)
         else pmd)"

text \<open>Modelled from the spec: \<^verbatim>\<open>procman_start_cmd\<close> of the missing \<^verbatim>\<open>procman.c\<close>
  (section 4.1, start: pipe; fork; the parent records pid and stdout\_fd; fails with
  SpawnFailed on fork/exec error; on failure pid stays 0). The environment answers the
  fork with a pid and a descriptor; a pid that is not positive is the failure.\<close>

definition procman_start_cmd :: "'j procman_deputy \<Rightarrow> handle \<Rightarrow> int \<times> 'j procman_deputy" where
  "procman_start_cmd s p =
     (let (child, fd) = fork_results s (forks s);
          s1 = s\<lparr>forks := Suc (forks s)\<rparr>
      in if 0 < child
         then (0, emit (Spawned p child) (upd_cmd p (\<lambda>c. c\<lparr>pid := child, stdout_fd := fd\<rparr>) s1))
         else (- 1, emit (Spawn_failed p) s1))"

text \<open>Modelled from the spec: \<^verbatim>\<open>procman_kill_cmd\<close> of the missing \<^verbatim>\<open>procman.c\<close>
  (section 4.1, kill: send signal to pid; fails with NotRunning if pid == 0). The
  status of kill(2) is the environment's answer.\<close>

definition procman_kill_cmd ::
  "'j procman_deputy \<Rightarrow> handle \<Rightarrow> unix_signal \<Rightarrow> int \<times> 'j procman_deputy" where
  "procman_kill_cmd s p sig =
     (if pid (cmd_at s p) = 0 then (- 1, s)
      else (kill_results s (kills s),
            emit (Kill (pid (cmd_at s p)) sig) (s\<lparr>kills := Suc (kills s)\<rparr>)))"

section \<open>Starting and stopping a command\<close>

text \<open>\<^verbatim>\<open>start_cmd\<close> (lines 224-256). \<^verbatim>\<open>g_io_add_watch\<close> hands out the next source
  id of the main loop and registers the watch.\<close>

definition start_cmd :: "'j procman_deputy \<Rightarrow> handle \<Rightarrow> int \<Rightarrow> int \<times> 'j procman_deputy" where
  "start_cmd pmd p desired_runid =
     (let (status, s1) = procman_start_cmd pmd p
      in if 0 \<noteq> status
         then (let s2 = printf_and_transmit s1 0
                          (''couldn't start ['' @ cmd_str (cmd_at s1 p) @ '']\<newline>'');
                   s3 = printf_and_transmit s2 (sheriff_id (mi_of s2 p))
                          (''ERROR!  couldn't start ['' @ cmd_str (cmd_at s2 p) @ '']\<newline>'')
               in (- 1, s3))
         else (let fd = stdout_fd (cmd_at s1 p);
                   sid = next_source_id s1;
                   s2 = s1\<lparr>io_watches := io_watches s1 @ [(sid, p)], next_source_id := Suc sid\<rparr>;
                   s3 = upd_mi p (\<lambda>gh. gh\<lparr>stdout_ioc := Some fd, stdout_sid := sid\<rparr>) s2;
                   s4 = upd_mi p (\<lambda>gh. gh\<lparr>actual_runid := desired_runid\<rparr>) s3;
                   s5 = upd_mi p (\<lambda>gh. gh\<lparr>num_kills_sent := 0\<rparr>) s4;
                   s6 = upd_mi p (\<lambda>gh. gh\<lparr>last_kill_time := 0\<rparr>) s5
               in (0, s6)))"

text \<open>\<^verbatim>\<open>stop_cmd\<close> (lines 258-284).\<close>

definition stop_cmd :: "'j procman_deputy \<Rightarrow> handle \<Rightarrow> int \<times> 'j procman_deputy" where
  "stop_cmd pmd p =
     (if pid (cmd_at pmd p) = 0 then (0, pmd)
      else
        (let (now, s1) = timestamp_now pmd;
             gh = mi_of s1 p
         in if last_kill_time gh \<noteq> 0 \<and> now < last_kill_time gh + 900000
            then (0, s1)
            else
              (let (status, s2) =
                     (if 5 < num_kills_sent gh then procman_kill_cmd s1 p SIGKILL
                      else procman_kill_cmd s1 p SIGTERM);
                   s3 = upd_mi p (\<lambda>gh. gh\<lparr>num_kills_sent := num_kills_sent gh + 1\<rparr>) s2;
                   s4 = upd_mi p (\<lambda>gh. gh\<lparr>last_kill_time := now\<rparr>) s3;
                   s5 = (if 0 \<noteq> status
                         then printf_and_transmit s4 (sheriff_id (mi_of s4 p))
                                (''kill: '' @ strerror s4 (- status) @ ''\<newline>'')
                         else s4)
               in (status, s5))))"

section \<open>The process manager's table\<close>

text \<open>A handle that is not in the list, as malloc returns an address that is not in
  use.\<close>

definition fresh_handle :: "handle list \<Rightarrow> handle" where
  "fresh_handle ps = Suc (foldr max ps 0)"

text \<open>The zeroed record that \<^verbatim>\<open>calloc\<close> returns (line 668); the strings are NULL until
  they are assigned.\<close>

definition calloc_moreinfo :: "'j::zero pmd_cmd_moreinfo" where
  "calloc_moreinfo =
     \<lparr>stdout_ioc = None, stdout_sid = 0, actual_runid = 0, sheriff_id = 0,
      cpu_time0 = \<lparr>p_user = 0, p_system = 0, p_vsize = 0, p_rss = 0\<rparr>,
      cpu_time1 = \<lparr>p_user = 0, p_system = 0, p_vsize = 0, p_rss = 0\<rparr>,
      cpu_usage = 0, group_str = [], nickname = [],
      num_kills_sent = 0, last_kill_time = 0, remove_requested = 0\<rparr>"

text \<open>Modelled from the spec: \<^verbatim>\<open>procman_add_cmd\<close> of the missing \<^verbatim>\<open>procman.c\<close>
  (section 4.1, add: allocate new handle, assign argv by tokenizing name; does not
  spawn). The new command goes to the end of the table, is not running and has no pipe
  (descriptor -1). Its \<open>user\<close> pointer, NULL in C until line 672 assigns it, holds the
  zeroed record from the start.\<close>

definition procman_add_cmd :: "'j::zero procman_deputy \<Rightarrow> string \<Rightarrow> handle \<times> 'j procman_deputy" where
  "procman_add_cmd s name =
     (let p = fresh_handle (commands s)
      in (p, s\<lparr>commands := commands s @ [p],
                cmd_at := (cmd_at s)(p := \<lparr>cmd_str = name, argv = tokenize s name, pid = 0,
                                          stdout_fd = - 1, exit_status = 0,
                                          user = calloc_moreinfo\<rparr>)\<rparr>))"

text \<open>Modelled from the spec: \<^verbatim>\<open>procman_remove_cmd\<close> of the missing \<^verbatim>\<open>procman.c\<close>
  (section 4.1, remove: requires pid == 0; detaches and frees). The handle leaves the
  table; what the store holds at a freed handle is never read again.\<close>

definition procman_remove_cmd :: "'j procman_deputy \<Rightarrow> handle \<Rightarrow> 'j procman_deputy" where
  "procman_remove_cmd s p = s\<lparr>commands := removeAll p (commands s)\<rparr>"

text \<open>Modelled from the spec: \<^verbatim>\<open>procman_cmd_change_str\<close> of the missing \<^verbatim>\<open>procman.c\<close>
  (section 4.1, change\_name: mutates stored name and re-tokenizes argv; does not
  affect the running pid).\<close>

definition procman_cmd_change_str :: "handle \<Rightarrow> string \<Rightarrow> 'j procman_deputy \<Rightarrow> 'j procman_deputy" where
  "procman_cmd_change_str p name s =
     upd_cmd p (\<lambda>c. c\<lparr>cmd_str := name, argv := tokenize s name\<rparr>) s"

datatype procman_cmd_status = PROCMAN_CMD_STOPPED | PROCMAN_CMD_RUNNING

text \<open>Modelled from the spec: \<^verbatim>\<open>procman_get_cmd_status\<close> of the missing \<^verbatim>\<open>procman.c\<close>
  (section 4.4, step 4d: RUNNING iff pid != 0, else STOPPED).\<close>

definition procman_get_cmd_status :: "'j procman_deputy \<Rightarrow> handle \<Rightarrow> procman_cmd_status" where
  "procman_get_cmd_status s p =
     (if pid (cmd_at s p) \<noteq> 0 then PROCMAN_CMD_RUNNING else PROCMAN_CMD_STOPPED)"

text \<open>Modelled from the spec: \<^verbatim>\<open>procman_check_for_dead_children\<close> of the missing
  \<^verbatim>\<open>procman.c\<close> (section 4.1, reap\_one: nonblocking waitpid over owned children; fills
  exit\_status, zeroes pid; returns the reaped handle or none). The environment answers
  the waitpid with the pid and the wait status of a dead child, or with none.\<close>

definition procman_check_for_dead_children ::
  "'j procman_deputy \<Rightarrow> handle option \<times> 'j procman_deputy" where
  "procman_check_for_dead_children s =
     (let s1 = s\<lparr>waits := Suc (waits s)\<rparr>
      in case wait_results s (waits s) of
           None \<Rightarrow> (None, s1)
         | Some (dead, status) \<Rightarrow>
             (case find (\<lambda>p. pid (cmd_at s1 p) \<noteq> 0 \<and> pid (cmd_at s1 p) = dead) (commands s1) of
                None \<Rightarrow> (None, s1)
              | Some p \<Rightarrow> (Some p, upd_cmd p (\<lambda>c. c\<lparr>pid := 0, exit_status := status\<rparr>) s1)))"

text \<open>Modelled from the spec: \<^verbatim>\<open>procman_close_dead_pipes\<close> of the missing \<^verbatim>\<open>procman.c\<close>
  (section 4.1, close\_dead\_pipes: drain stdout\_fd of remaining data, then close it).\<close>

definition procman_close_dead_pipes :: "'j procman_deputy \<Rightarrow> handle \<Rightarrow> 'j procman_deputy" where
  "procman_close_dead_pipes s p = upd_cmd p (\<lambda>c. c\<lparr>stdout_fd := - 1\<rparr>) s"

text \<open>\<^verbatim>\<open>find_local_cmd\<close> (lines 564-577) and \<^verbatim>\<open>procmd_orders_find_cmd\<close> (lines
  554-562): the first match in list order.\<close>

definition find_local_cmd :: "'j procman_deputy \<Rightarrow> int \<Rightarrow> handle option" where
  "find_local_cmd s sid = find (\<lambda>cand. sheriff_id (mi_of s cand) = sid) (commands s)"

definition procmd_orders_find_cmd :: "orders_t \<Rightarrow> int \<Rightarrow> sheriff_cmd option" where
  "procmd_orders_find_cmd a sid = find (\<lambda>c. sid = o_sheriff_id c) (o_cmds a)"

definition set_command_group :: "handle \<Rightarrow> string \<Rightarrow> 'j procman_deputy \<Rightarrow> 'j procman_deputy" where
  "set_command_group p g s = upd_mi p (\<lambda>mi. mi\<lparr>group_str := g\<rparr>) s"

definition set_command_nickname :: "handle \<Rightarrow> string \<Rightarrow> 'j procman_deputy \<Rightarrow> 'j procman_deputy" where
  "set_command_nickname p n s = upd_mi p (\<lambda>mi. mi\<lparr>nickname := n\<rparr>) s"

section \<open>Telemetry\<close>

text \<open>\<^verbatim>\<open>transmit_proc_info\<close> (lines 390-437).\<close>

definition deputy_cmd_of :: "'j procman_cmd \<Rightarrow> deputy_cmd" where
  "deputy_cmd_of c =
     \<lparr>dc_name = cmd_str c, dc_nickname = nickname (user c),
      dc_actual_runid = actual_runid (user c), dc_pid = pid c, dc_exit_code = exit_status c,
      dc_sheriff_id = sheriff_id (user c), dc_group = group_str (user c),
      dc_cpu_usage = cpu_usage (user c),
      dc_mem_vsize_bytes = p_vsize (cpu_time1 (user c)),
      dc_mem_rss_bytes = p_rss (cpu_time1 (user c))\<rparr>"

definition transmit_proc_info :: "'j procman_deputy \<Rightarrow> 'j procman_deputy" where
  "transmit_proc_info s =
     (let allcmds = commands s;
          (now, s1) = timestamp_now s
      in emit (Publish_info
            \<lparr>in_utime = now, in_host = hostname s1, in_cpu_load = cpu_load s1,
             in_phys_mem_total_bytes = memtotal (cpu_time_cur s1),
             in_phys_mem_free_bytes = memfree (cpu_time_cur s1),
             in_swap_total_bytes = swaptotal (cpu_time_cur s1),
             in_swap_free_bytes = swapfree (cpu_time_cur s1),
             in_cmds = map (\<lambda>p. deputy_cmd_of (cmd_at s1 p)) allcmds\<rparr>) s1)"

section \<open>Receiving orders\<close>

text \<open>The \<^verbatim>\<open>%d\<close> of printf, C's division (which truncates towards zero) and the cast
  \<^verbatim>\<open>(int)\<close> of a 64-bit value, which keeps the low 32 bits.\<close>

fun dec_nat :: "nat \<Rightarrow> string" where
  "dec_nat n =
     (if n < 10 then [''0123456789'' ! n]
      else dec_nat (n div 10) @ [''0123456789'' ! (n mod 10)])"

declare dec_nat.simps [simp del]

definition show_int :: "int \<Rightarrow> string" where
  "show_int i = (if i < 0 then CHR ''-'' # dec_nat (nat (- i)) else dec_nat (nat i))"

definition c_div :: "int \<Rightarrow> int \<Rightarrow> int" where
  "c_div a b = sgn a * sgn b * (\<bar>a\<bar> div \<bar>b\<bar>)"

definition int_cast :: "int \<Rightarrow> int" where
  "int_cast i = sint (word_of_int i :: 32 word)"

text \<open>The readings of the clock and the \<^verbatim>\<open>utime\<close> of an order are \<^verbatim>\<open>int64_t\<close>: the age
  \<^verbatim>\<open>now - orders->utime\<close> of an order is their difference in 64 bits, which wraps around.\<close>

definition sub64 :: "int \<Rightarrow> int \<Rightarrow> int" where
  "sub64 a b = sint (word_of_int a - word_of_int b :: 64 word)"

definition stale_text :: "int \<Rightarrow> int \<Rightarrow> string" where
  "stale_text now utime =
     ''ignoring stale orders (utime '' @ show_int (int_cast (c_div (sub64 now utime) 1000000)) @
     '' seconds ago). You may want to check the system clocks!\<newline>''"

text \<open>Lines 656-674 of the loop over the commands of an order: the command is looked up
  by its sheriff id and created when the table has none. The flag is
  \<^verbatim>\<open>action_taken\<close>.\<close>

definition lookup_or_create ::
  "sheriff_cmd \<Rightarrow> bool \<times> 'j::zero procman_deputy \<Rightarrow> handle \<times> bool \<times> 'j procman_deputy" where
  "lookup_or_create cmd as =
     (case as of (action_taken, s) \<Rightarrow>
        (case find_local_cmd s (o_sheriff_id cmd) of
           Some p \<Rightarrow> (p, action_taken, s)
         | None \<Rightarrow>
             (let (p, s1) = procman_add_cmd s (o_name cmd);
                  mi = calloc_moreinfo;
                  mi = mi\<lparr>sheriff_id := o_sheriff_id cmd\<rparr>;
                  mi = mi\<lparr>group_str := o_group cmd\<rparr>;
                  mi = mi\<lparr>nickname := o_nickname cmd\<rparr>;
                  s2 = upd_cmd p (\<lambda>c. c\<lparr>user := mi\<rparr>) s1
              in (p, True, s2))))"

text \<open>Lines 679-703: the name, the nickname and the group follow the order.\<close>

definition update_labels ::
  "handle \<Rightarrow> sheriff_cmd \<Rightarrow> bool \<times> 'j procman_deputy \<Rightarrow> bool \<times> 'j procman_deputy" where
  "update_labels p cmd as =
     (case as of (a0, s0) \<Rightarrow>
        (let (a1, s1) = (if cmd_str (cmd_at s0 p) \<noteq> o_name cmd
                         then (True, procman_cmd_change_str p (o_name cmd) s0) else (a0, s0));
             (a2, s2) = (if nickname (mi_of s1 p) \<noteq> o_nickname cmd
                         then (True, set_command_nickname p (o_nickname cmd) s1) else (a1, s1));
             (a3, s3) = (if group_str (mi_of s2 p) \<noteq> o_group cmd
                         then (True, set_command_group p (o_group cmd) s2) else (a2, s2))
         in (a3, s3)))"

text \<open>Lines 705-717: start, stop, or only record the run id.\<close>

definition start_or_stop ::
  "handle \<Rightarrow> sheriff_cmd \<Rightarrow> procman_cmd_status \<Rightarrow> bool \<times> 'j procman_deputy \<Rightarrow> bool \<times> 'j procman_deputy" where
  "start_or_stop p cmd cmd_status as =
     (case as of (action_taken, s) \<Rightarrow>
        (if PROCMAN_CMD_STOPPED = cmd_status \<and>
            actual_runid (mi_of s p) \<noteq> o_desired_runid cmd \<and> \<not> o_force_quit cmd
         then (let s1 = snd (start_cmd s p (o_desired_runid cmd))
               in (True, upd_mi p (\<lambda>mi. mi\<lparr>actual_runid := o_desired_runid cmd\<rparr>) s1))
         else if PROCMAN_CMD_RUNNING = cmd_status \<and>
                 (o_force_quit cmd \<or> o_desired_runid cmd \<noteq> actual_runid (mi_of s p))
         then (True, snd (stop_cmd s p))
         else (action_taken, upd_mi p (\<lambda>mi. mi\<lparr>actual_runid := o_desired_runid cmd\<rparr>) s)))"

text \<open>The body of the loop of lines 648-718, and the loop.\<close>

definition order_cmd :: "sheriff_cmd \<Rightarrow> bool \<times> 'j::zero procman_deputy \<Rightarrow> bool \<times> 'j procman_deputy" where
  "order_cmd cmd as =
     (let (p, a1, s1) = lookup_or_create cmd as;
          cmd_status = procman_get_cmd_status s1 p
      in start_or_stop p cmd cmd_status (update_labels p cmd (a1, s1)))"

fun order_cmds :: "sheriff_cmd list \<Rightarrow> bool \<times> 'j::zero procman_deputy \<Rightarrow> bool \<times> 'j procman_deputy" where
  "order_cmds [] as = as"
| "order_cmds (cmd # cmds) as = order_cmds cmds (order_cmd cmd as)"

text \<open>Lines 722-735: the commands of the table that the order does not name.\<close>

definition orphans :: "orders_t \<Rightarrow> 'j procman_deputy \<Rightarrow> handle list" where
  "orphans orders s =
     filter (\<lambda>p. procmd_orders_find_cmd orders (sheriff_id (mi_of s p)) = None) (commands s)"

text \<open>Lines 738-757: the cull of one orphan, and of the list.\<close>

definition cull_cmd :: "handle \<Rightarrow> 'j procman_deputy \<Rightarrow> 'j procman_deputy" where
  "cull_cmd p s =
     (if pid (cmd_at s p) \<noteq> 0
      then (let s1 = upd_mi p (\<lambda>mi. mi\<lparr>remove_requested := 1\<rparr>) s
            in snd (stop_cmd s1 p))
      else procman_remove_cmd s p)"

fun cull :: "handle list \<Rightarrow> bool \<times> 'j procman_deputy \<Rightarrow> bool \<times> 'j procman_deputy" where
  "cull [] as = as"
| "cull (p # ps) as = cull ps (True, cull_cmd p (snd as))"

text \<open>Lines 624-641: the sheriffs seen since the last MARK, and the last one.\<close>

definition note_sheriff :: "string \<Rightarrow> 'j procman_deputy \<Rightarrow> 'j procman_deputy" where
  "note_sheriff name s =
     (let s1 = (if find (\<lambda>seen. seen = name) (observed_sheriffs_slm s) = None
                then s\<lparr>observed_sheriffs_slm := name # observed_sheriffs_slm s\<rparr> else s);
          s2 = (case last_sheriff_name s1 of
                  Some l \<Rightarrow> if name \<noteq> l then s1\<lparr>last_sheriff_name := None\<rparr> else s1
                | None \<Rightarrow> s1);
          s3 = (if last_sheriff_name s2 = None then s2\<lparr>last_sheriff_name := Some name\<rparr> else s2)
      in s3)"

text \<open>\<^verbatim>\<open>procman_deputy_order_received\<close> (lines 596-763). The macro
  \<^verbatim>\<open>PROCMAN_MAX_MESSAGE_AGE_USEC\<close> of the missing \<^verbatim>\<open>procman.h\<close> is the parameter
  \<open>max_age\<close>.\<close>

definition stale_orders :: "int \<Rightarrow> orders_t \<Rightarrow> 'j procman_deputy \<Rightarrow> 'j procman_deputy" where
  "stale_orders now orders s =
     (let s1 = fold (\<lambda>cmd s. printf_and_transmit s (o_sheriff_id cmd)
                                (stale_text now (o_utime orders))) (o_cmds orders) s
      in s1\<lparr>nstale_orders_slm := nstale_orders_slm s1 + 1\<rparr>)"

definition carry_out :: "orders_t \<Rightarrow> 'j::zero procman_deputy \<Rightarrow> 'j procman_deputy" where
  "carry_out orders s =
     (let s1 = note_sheriff (o_sheriff_name orders) s;
          (a1, s2) = order_cmds (o_cmds orders) (False, s1);
          toremove = orphans orders s2;
          (a2, s3) = cull toremove (a1, s2)
      in if a2 then transmit_proc_info s3 else s3)"

definition procman_deputy_order_received ::
  "int \<Rightarrow> orders_t \<Rightarrow> 'j::zero procman_deputy \<Rightarrow> 'j procman_deputy" where
  "procman_deputy_order_received max_age orders s =
     (let s1 = s\<lparr>norders_slm := norders_slm s + 1\<rparr>
      in if o_host orders \<noteq> hostname s1 then s1
         else
           (let s2 = s1\<lparr>norders_forme_slm := norders_forme_slm s1 + 1\<rparr>;
                (now, s3) = timestamp_now s2
            in if sub64 now (o_utime orders) > max_age then stale_orders now orders s3
               else carry_out orders s3))"

section \<open>The resource sampler\<close>

text \<open>\<^verbatim>\<open>update_cpu_times\<close> (lines 439-502), first the body of its loop over the commands
  (lines 468-498). The readers of \<^verbatim>\<open>procinfo.h\<close> fill the sample they are given and
  return a status; the oracle answers with both. The differences of the counters are
  taken at the counters' width and then widened to \<^verbatim>\<open>uint64_t\<close>.\<close>

definition update_cmd_cpu_times ::
  "64 word \<Rightarrow> handle \<Rightarrow> ('w::len) word procman_deputy \<Rightarrow> 'w word procman_deputy" where
  "update_cmd_cpu_times ellapsed_jiffies p s =
     (let s' =
        (if pid (cmd_at s p) \<noteq> 0
         then (let (status, sample) = proc_results s (proc_reads s);
                   s1 = upd_mi p (\<lambda>mi. mi\<lparr>cpu_time1 := sample\<rparr>)
                          (s\<lparr>proc_reads := Suc (proc_reads s)\<rparr>)
               in if 0 \<noteq> status
                  then upd_mi p (\<lambda>mi. mi\<lparr>cpu_usage := 0,
                                    cpu_time1 := (cpu_time1 mi)\<lparr>p_vsize := 0, p_rss := 0\<rparr>\<rparr>) s1
                  else (let pa = cpu_time1 (mi_of s1 p);
                            pb = cpu_time0 (mi_of s1 p);
                            used_jiffies = (ucast (p_user pa - p_user pb +
                                                   p_system pa - p_system pb) :: 64 word)
                        in if ellapsed_jiffies = 0 \<or> p_user pb = 0 \<or> p_system pb = 0
                           then upd_mi p (\<lambda>mi. mi\<lparr>cpu_usage := 0\<rparr>) s1
                           else upd_mi p (\<lambda>mi. mi\<lparr>cpu_usage :=
                                  of_nat (unat used_jiffies) / of_nat (unat ellapsed_jiffies)\<rparr>) s1))
         else upd_mi p (\<lambda>mi. mi\<lparr>cpu_usage := 0,
                           cpu_time1 := (cpu_time1 mi)\<lparr>p_vsize := 0, p_rss := 0\<rparr>\<rparr>) s)
      in upd_mi p (\<lambda>mi. mi\<lparr>cpu_time0 := cpu_time1 mi\<rparr>) s')"

definition ellapsed_of :: "('w::len) word sys_cpu_mem \<Rightarrow> 'w word sys_cpu_mem \<Rightarrow> 64 word" where
  "ellapsed_of a b =
     ucast (s_user a - s_user b + s_user_low a - s_user_low b +
            s_system a - s_system b + s_idle a - s_idle b)"

definition loaded_of :: "('w::len) word sys_cpu_mem \<Rightarrow> 'w word sys_cpu_mem \<Rightarrow> 64 word" where
  "loaded_of a b =
     ucast (s_user a - s_user b + s_user_low a - s_user_low b + s_system a - s_system b)"

definition update_cpu_times :: "('w::len) word procman_deputy \<Rightarrow> 'w word procman_deputy" where
  "update_cpu_times s =
     (let allcmds = commands s;
          (status, sample) = sys_results s (sys_reads s);
          s1 = s\<lparr>cpu_time_cur := sample, sys_reads := Suc (sys_reads s)\<rparr>;
          a = cpu_time_cur s1;
          b = cpu_time_prev s1;
          ellapsed_jiffies = ellapsed_of a b;
          loaded_jiffies = loaded_of a b;
          s2 = (if ellapsed_jiffies = 0 then s1\<lparr>cpu_load := 0\<rparr>
                else s1\<lparr>cpu_load := of_nat (unat loaded_jiffies) / of_nat (unat ellapsed_jiffies)\<rparr>);
          s3 = fold (update_cmd_cpu_times ellapsed_jiffies) allcmds s2
      in s3\<lparr>cpu_time_prev := cpu_time_cur s3\<rparr>)"

definition one_second_timeout :: "('w::len) word procman_deputy \<Rightarrow> 'w word procman_deputy" where
  "one_second_timeout s = transmit_proc_info (update_cpu_times s)"

text \<open>\<^verbatim>\<open>introspection_timeout\<close> (lines 514-552): it reads the deputy's own sample for
  the MARK line, which goes to stderr, and resets the counters.\<close>

definition introspection_timeout :: "'j procman_deputy \<Rightarrow> 'j procman_deputy" where
  "introspection_timeout s =
     (let s1 = s\<lparr>proc_reads := Suc (proc_reads s)\<rparr>;
          s2 = s1\<lparr>norders_slm := 0\<rparr>;
          s3 = s2\<lparr>norders_forme_slm := 0\<rparr>;
          s4 = s3\<lparr>nstale_orders_slm := 0\<rparr>
      in s4\<lparr>observed_sheriffs_slm := []\<rparr>)"

section \<open>Output and death of the children\<close>

text \<open>The bytes of a buffer up to its first NUL, as the publisher reads a C string.\<close>

definition c_string :: "string \<Rightarrow> string" where
  "c_string buf = takeWhile (\<lambda>c. c \<noteq> char_of (0 :: nat)) buf"

text \<open>\<^verbatim>\<open>pipe_data_ready\<close> (lines 160-222): the read of lines 169-184, a message for
  each further condition that is set, and the result, which is FALSE on a hang-up or an
  invalid descriptor.\<close>

definition read_pipe :: "'j procman_deputy \<Rightarrow> handle \<Rightarrow> 'j procman_deputy" where
  "read_pipe s cmd =
     (let r = read_results s (reads s);
          s' = s\<lparr>reads := Suc (reads s)\<rparr>
      in case r of
           Read_error errno \<Rightarrow>
             transmit_str s' (sheriff_id (mi_of s' cmd))
               (take 1023 (''procman ['' @ cmd_str (cmd_at s' cmd) @ ''] read: '' @
                           strerror s' errno @ '' ('' @ show_int errno @ '')\<newline>''))
         | Read_bytes bytes \<Rightarrow>
             (if take 1023 bytes = [] then s'
              else transmit_str s' (sheriff_id (mi_of s' cmd)) (c_string (take 1023 bytes))))"

definition transmit_if :: "bool \<Rightarrow> 'j procman_deputy \<Rightarrow> int \<Rightarrow> string \<Rightarrow> 'j procman_deputy" where
  "transmit_if c s sid str = (if c then transmit_str s sid str else s)"

definition pipe_data_ready ::
  "'j procman_deputy \<Rightarrow> gio_condition set \<Rightarrow> handle \<Rightarrow> bool \<times> 'j procman_deputy" where
  "pipe_data_ready s condition cmd =
     (let sid = sheriff_id (mi_of s cmd);
          s1 = (if G_IO_IN \<in> condition then read_pipe s cmd else s);
          s2 = transmit_if (G_IO_ERR \<in> condition) s1 sid
                 ''procman deputy: detected G_IO_ERR.\<newline>'';
          s3 = transmit_if (G_IO_HUP \<in> condition) s2 sid
                 ''procman deputy: detected G_IO_HUP.  end of output\<newline>'';
          s4 = transmit_if (G_IO_NVAL \<in> condition) s3 sid
                 ''procman deputy: detected G_IO_NVAL.  end of output\<newline>'';
          s5 = transmit_if (G_IO_PRI \<in> condition) s4 sid
                 ''procman deputy: unexpected G_IO_PRI... wtf?\<newline>'';
          s6 = transmit_if (G_IO_OUT \<in> condition) s5 sid
                 ''procman deputy: unexpected G_IO_OUT... wtf?\<newline>''
      in (\<not> (G_IO_HUP \<in> condition \<or> G_IO_NVAL \<in> condition), s6))"

text \<open>The macros of \<^verbatim>\<open>sys/wait.h\<close> on a wait status.\<close>

definition WTERMSIG :: "int \<Rightarrow> int" where
  "WTERMSIG status = status mod 128"

definition WIFSIGNALED :: "int \<Rightarrow> bool" where
  "WIFSIGNALED status = (WTERMSIG status \<noteq> 0 \<and> WTERMSIG status \<noteq> 127)"

definition WCOREDUMP :: "int \<Rightarrow> bool" where
  "WCOREDUMP status = ((status div 128) mod 2 = 1)"

text \<open>The body of the loop of \<^verbatim>\<open>check_for_dead_children\<close> (lines 319-366) for the
  command that was reaped: its last output (lines 324-328), the signal that ended it
  (lines 331-340), the glib hooks (lines 343-354) and its removal (lines 357-366).\<close>

definition last_output :: "handle \<Rightarrow> 'j procman_deputy \<Rightarrow> 'j procman_deputy" where
  "last_output cmd pmd =
     (let readable = poll_results pmd (polls pmd);
          s0 = pmd\<lparr>polls := Suc (polls pmd)\<rparr>
      in if readable then snd (pipe_data_ready s0 {G_IO_IN} cmd) else s0)"

definition report_signal :: "handle \<Rightarrow> 'j procman_deputy \<Rightarrow> 'j procman_deputy" where
  "report_signal cmd pmd =
     (let status = exit_status (cmd_at pmd cmd)
      in if WIFSIGNALED status
         then (let signum = WTERMSIG status;
                   s' = printf_and_transmit pmd (sheriff_id (mi_of pmd cmd))
                          (strsignal pmd signum @ ''\<newline>'')
               in if WCOREDUMP status
                  then printf_and_transmit s' (sheriff_id (mi_of s' cmd)) ''Core dumped.\<newline>''
                  else s')
         else pmd)"

definition cleanup_hooks :: "handle \<Rightarrow> 'j procman_deputy \<Rightarrow> 'j procman_deputy" where
  "cleanup_hooks cmd pmd =
     (if stdout_ioc (mi_of pmd cmd) \<noteq> None
      then (let sa = pmd\<lparr>io_watches :=
                          filter (\<lambda>w. fst w \<noteq> stdout_sid (mi_of pmd cmd)) (io_watches pmd)\<rparr>;
                sb = upd_mi cmd (\<lambda>gh. gh\<lparr>stdout_ioc := None\<rparr>) sa;
                sc = upd_mi cmd (\<lambda>gh. gh\<lparr>stdout_sid := 0\<rparr>) sb
            in procman_close_dead_pipes sc cmd)
      else pmd)"

definition bury :: "handle \<Rightarrow> 'j procman_deputy \<Rightarrow> 'j procman_deputy" where
  "bury cmd pmd =
     (let s1 = last_output cmd pmd;
          s2 = report_signal cmd s1;
          s3 = cleanup_hooks cmd s2
      in if remove_requested (mi_of s3 cmd) \<noteq> 0 then procman_remove_cmd s3 cmd else s3)"

definition running :: "'j procman_deputy \<Rightarrow> handle list" where
  "running s = filter (\<lambda>p. pid (cmd_at s p) \<noteq> 0) (commands s)"

lemmas prim_defs = timestamp_now_def emit_def upd_cmd_def upd_mi_def mi_of_def
  printf_and_transmit_def procman_kill_cmd_def procman_start_cmd_def transmit_str_def

lemma transmit_str_table [simp]:
  "cmd_at (transmit_str s sid str) = cmd_at s"
  "commands (transmit_str s sid str) = commands s"
  by (simp_all add: prim_defs)

lemma transmit_if_table [simp]:
  "cmd_at (transmit_if c s sid str) = cmd_at s"
  "commands (transmit_if c s sid str) = commands s"
  by (simp_all add: transmit_if_def)

lemma printf_and_transmit_table [simp]:
  "cmd_at (printf_and_transmit s sid str) = cmd_at s"
  "commands (printf_and_transmit s sid str) = commands s"
  by (simp_all add: prim_defs)

lemma read_pipe_table [simp]:
  "cmd_at (read_pipe s p) = cmd_at s"
  "commands (read_pipe s p) = commands s"
  by (simp_all add: read_pipe_def Let_def split: read_result.splits)

lemma pipe_data_ready_table [simp]:
  "cmd_at (snd (pipe_data_ready s c p)) = cmd_at s"
  "commands (snd (pipe_data_ready s c p)) = commands s"
  by (simp_all add: pipe_data_ready_def Let_def)

lemma last_output_table [simp]:
  "cmd_at (last_output p s) = cmd_at s"
  "commands (last_output p s) = commands s"
  by (simp_all add: last_output_def Let_def)

lemma report_signal_table [simp]:
  "cmd_at (report_signal p s) = cmd_at s"
  "commands (report_signal p s) = commands s"
  by (simp_all add: report_signal_def Let_def)

lemma cleanup_hooks_table [simp]:
  "pid (cmd_at (cleanup_hooks p s) q) = pid (cmd_at s q)"
  "commands (cleanup_hooks p s) = commands s"
  by (simp_all add: cleanup_hooks_def Let_def procman_close_dead_pipes_def upd_cmd_def upd_mi_def)

lemma bury_pid: "pid (cmd_at (bury p s) q) = pid (cmd_at s q)"
  by (simp add: bury_def Let_def procman_remove_cmd_def)

lemma bury_commands:
  "commands (bury p s) = commands s \<or> commands (bury p s) = removeAll p (commands s)"
  by (simp add: bury_def Let_def procman_remove_cmd_def)

lemma length_filter_removeAll: "length (filter P (removeAll x xs)) \<le> length (filter P xs)"
  by (induction xs) auto

lemma running_bury: "length (running (bury p s)) \<le> length (running s)"
  using bury_commands [of p s]
  by (auto simp: running_def bury_pid length_filter_removeAll)

lemma running_transmit_proc_info: "running (transmit_proc_info s) = running s"
  by (simp add: running_def transmit_proc_info_def prim_defs Let_def)

lemma length_filter_less:
  assumes "x \<in> set xs" "P x" "\<not> Q x" "\<And>y. Q y \<Longrightarrow> P y"
  shows "length (filter Q xs) < length (filter P xs)"
  using assms(1)
proof (induction xs)
  case Nil
  then show ?case by simp
next
  case (Cons a xs)
  have le: "length (filter Q xs) \<le> length (filter P xs)"
    by (induction xs) (auto simp: assms(4))
  show ?case
  proof (cases "a = x")
    case True
    then show ?thesis using le assms(2,3) by simp
  next
    case False
    with Cons have "length (filter Q xs) < length (filter P xs)" by simp
    then show ?thesis using assms(4) by auto
  qed
qed

lemma running_reaped:
  assumes "procman_check_for_dead_children s = (Some q, s')"
  shows "length (running s') < length (running s)"
proof -
  obtain dead status where w: "wait_results s (waits s) = Some (dead, status)"
    using assms by (auto simp: procman_check_for_dead_children_def Let_def split: option.splits)
  let ?s1 = "s\<lparr>waits := Suc (waits s)\<rparr>"
  have f: "find (\<lambda>p. pid (cmd_at ?s1 p) \<noteq> 0 \<and> pid (cmd_at ?s1 p) = dead) (commands ?s1) = Some q"
    and s': "s' = upd_cmd q (\<lambda>c. c\<lparr>pid := 0, exit_status := status\<rparr>) ?s1"
    using assms w
    by (auto simp: procman_check_for_dead_children_def Let_def split: option.splits)
  from f have q: "q \<in> set (commands s)" "pid (cmd_at s q) \<noteq> 0"
    by (auto simp: find_Some_iff)
  have cs: "commands s' = commands s" by (simp add: s' upd_cmd_def)
  show ?thesis
    unfolding running_def cs
  proof (rule length_filter_less [where x = q])
    show "q \<in> set (commands s)" by (rule q(1))
    show "pid (cmd_at s q) \<noteq> 0" by (rule q(2))
    show "\<not> pid (cmd_at s' q) \<noteq> 0" by (simp add: s' upd_cmd_def)
    show "pid (cmd_at s' y) \<noteq> 0 \<Longrightarrow> pid (cmd_at s y) \<noteq> 0" for y
      by (simp add: s' upd_cmd_def split: if_splits)
  qed
qed

lemma running_not_reaped:
  assumes "procman_check_for_dead_children s = (None, s')"
  shows "running s' = running s"
  using assms
  by (auto simp: procman_check_for_dead_children_def Let_def running_def split: option.splits)

text \<open>\<^verbatim>\<open>check_for_dead_children\<close> (lines 312-371). Each turn of the loop buries one
  reaped command, so the loop ends: every reaped command was running and no longer is.\<close>

function dead_children_loop :: "handle option \<Rightarrow> 'j procman_deputy \<Rightarrow> 'j procman_deputy" where
  "dead_children_loop None pmd = pmd"
| "dead_children_loop (Some cmd) pmd =
     (let s1 = bury cmd pmd;
          (cmd', s2) = procman_check_for_dead_children s1;
          s3 = transmit_proc_info s2
      in dead_children_loop cmd' s3)"
  by pat_completeness auto
termination
proof (relation "measure (\<lambda>(cmd, s). length (running s) + (case cmd of None \<Rightarrow> 0 | Some _ \<Rightarrow> 1))")
  show "wf (measure (\<lambda>(cmd, s :: 'j procman_deputy).
          length (running s) + (case cmd of None \<Rightarrow> 0 | Some _ \<Rightarrow> 1)))"
    by simp
next
  fix cmd and pmd :: "'j procman_deputy" and s1 x cmd' s2 s3
  assume s1: "s1 = bury cmd pmd" and x: "x = procman_check_for_dead_children s1"
    and c: "(cmd', s2) = x" and s3: "s3 = transmit_proc_info s2"
  have le: "length (running s1) \<le> length (running pmd)"
    unfolding s1 by (rule running_bury)
  show "((cmd', s3), Some cmd, pmd) \<in>
          measure (\<lambda>(cmd, s). length (running s) + (case cmd of None \<Rightarrow> 0 | Some _ \<Rightarrow> 1))"
  proof (cases cmd')
    case None
    with x c have "procman_check_for_dead_children s1 = (None, s2)" by simp
    then have "running s2 = running s1" by (rule running_not_reaped)
    with le None show ?thesis by (simp add: s3 running_transmit_proc_info)
  next
    case (Some q)
    with x c have "procman_check_for_dead_children s1 = (Some q, s2)" by simp
    then have "length (running s2) < length (running s1)" by (rule running_reaped)
    with le Some show ?thesis by (simp add: s3 running_transmit_proc_info)
  qed
qed

definition check_for_dead_children :: "'j procman_deputy \<Rightarrow> 'j procman_deputy" where
  "check_for_dead_children pmd =
     (let (cmd, s1) = procman_check_for_dead_children pmd in dead_children_loop cmd s1)"

text \<open>\<^verbatim>\<open>remove_all_cmds\<close> (lines 286-310), over a copy of the table. The private record
  is freed and the command removed whether or not it still runs.\<close>

definition remove_cmd :: "handle \<Rightarrow> int \<times> 'j procman_deputy \<Rightarrow> int \<times> 'j procman_deputy" where
  "remove_cmd cmd ss =
     (case ss of (status, pmd) \<Rightarrow>
        (let (status1, s1) =
               (if pid (cmd_at pmd cmd) \<noteq> 0
                then (let (r, s') = stop_cmd pmd cmd in (if 0 \<noteq> r then - 1 else status, s'))
                else (status, pmd))
         in (status1, procman_remove_cmd s1 cmd)))"

definition remove_all_cmds :: "'j procman_deputy \<Rightarrow> int \<times> 'j procman_deputy" where
  "remove_all_cmds pmd = (let toremove = commands pmd in fold remove_cmd toremove (0, pmd))"

text \<open>\<^verbatim>\<open>glib_handle_signal\<close> (lines 373-388).\<close>

definition glib_handle_signal :: "unix_signal \<Rightarrow> 'j procman_deputy \<Rightarrow> 'j procman_deputy" where
  "glib_handle_signal signal pmd =
     (if signal = SIGCHLD then check_for_dead_children pmd
      else (snd (remove_all_cmds pmd))\<lparr>mainloop_quit := True\<rparr>)"

section \<open>The main loop\<close>

text \<open>What the glib main loop dispatches (lines 883-907): an orders message, a signal
  from the signal pipe, the two timers, and a watched pipe with its condition. A watch
  whose callback returns FALSE is removed.\<close>

datatype event =
    Orders_received orders_t
  | Signal_received unix_signal
  | One_second
  | Introspection
  | Pipe_ready nat "gio_condition set"

definition dispatch_pipe :: "nat \<Rightarrow> gio_condition set \<Rightarrow> 'j procman_deputy \<Rightarrow> 'j procman_deputy" where
  "dispatch_pipe source condition s =
     (case find (\<lambda>w. fst w = source) (io_watches s) of
        None \<Rightarrow> s
      | Some w \<Rightarrow>
          (let (keep, s1) = pipe_data_ready s condition (snd w)
           in if keep then s1
              else s1\<lparr>io_watches := filter (\<lambda>w. fst w \<noteq> source) (io_watches s1)\<rparr>))"

definition dispatch :: "int \<Rightarrow> event \<Rightarrow> ('w::len) word procman_deputy \<Rightarrow> 'w word procman_deputy" where
  "dispatch max_age e s =
     (if mainloop_quit s then s
      else case e of
             Orders_received orders \<Rightarrow> procman_deputy_order_received max_age orders s
           | Signal_received signal \<Rightarrow> glib_handle_signal signal s
           | One_second \<Rightarrow> one_second_timeout s
           | Introspection \<Rightarrow> introspection_timeout s
           | Pipe_ready source condition \<Rightarrow> dispatch_pipe source condition s)"

fun main_loop :: "int \<Rightarrow> event list \<Rightarrow> ('w::len) word procman_deputy \<Rightarrow> 'w word procman_deputy" where
  "main_loop max_age [] s = s"
| "main_loop max_age (e # es) s = main_loop max_age es (dispatch max_age e s)"

text \<open>The state in which \<^verbatim>\<open>main\<close> enters the loop (lines 847-904): the deputy's record
  zeroed, an empty table, no watch. The host name and the environment are those of the
  argument.\<close>

definition main_init :: "'j::zero procman_deputy \<Rightarrow> 'j procman_deputy" where
  "main_init env =
     env\<lparr>commands := [], mainloop_quit := False,
         norders_slm := 0, norders_forme_slm := 0, nstale_orders_slm := 0,
         observed_sheriffs_slm := [], last_sheriff_name := None,
         cpu_time_prev := \<lparr>s_user = 0, s_user_low = 0, s_system = 0, s_idle = 0,
                           memtotal = 0, memfree = 0, swaptotal = 0, swapfree = 0\<rparr>,
         cpu_time_cur := \<lparr>s_user = 0, s_user_low = 0, s_system = 0, s_idle = 0,
                          memtotal = 0, memfree = 0, swaptotal = 0, swapfree = 0\<rparr>,
         cpu_load := 0, io_watches := [], next_source_id := 1\<rparr>"

section \<open>What an observer sees\<close>

text \<open>The signals sent, in order, among the effects.\<close>

fun signals_sent :: "effect list \<Rightarrow> (int \<times> unix_signal) list" where
  "signals_sent [] = []"
| "signals_sent (Kill q sig # es) = (q, sig) # signals_sent es"
| "signals_sent (_ # es) = signals_sent es"

text \<open>The handles for which a fork was tried, in order, among the effects.\<close>

fun forks_tried :: "effect list \<Rightarrow> handle list" where
  "forks_tried [] = []"
| "forks_tried (Spawned p child # es) = p # forks_tried es"
| "forks_tried (Spawn_failed p # es) = p # forks_tried es"
| "forks_tried (_ # es) = forks_tried es"

text \<open>The three counters since the last MARK, and their order.\<close>

definition counters :: "'j procman_deputy \<Rightarrow> int \<times> int \<times> int" where
  "counters s = (norders_slm s, norders_forme_slm s, nstale_orders_slm s)"

definition counters_ordered :: "int \<times> int \<times> int \<Rightarrow> bool" where
  "counters_ordered c = (case c of (seen, forme, stale) \<Rightarrow> 0 \<le> stale \<and> stale \<le> forme \<and> forme \<le> seen)"

section \<open>A deputy to run the model on\<close>

text \<open>A deputy on the host \<open>robot\<close> with an empty table, a clock that advances by one
  second at each reading, forks that succeed with the pids 100, 101, ... and signals
  that are delivered; and the same deputy with one command of sheriff id 1, started with
  run id 1 and running as pid 100.\<close>

definition example_deputy :: "32 word procman_deputy" where
  "example_deputy =
     \<lparr>commands = [],
      cmd_at = (\<lambda>_. \<lparr>cmd_str = [], argv = [], pid = 0, stdout_fd = - 1, exit_status = 0,
                      user = calloc_moreinfo\<rparr>),
      hostname = ''robot'', mainloop_quit = False,
      norders_slm = 0, norders_forme_slm = 0, nstale_orders_slm = 0,
      observed_sheriffs_slm = [], last_sheriff_name = None,
      cpu_time_prev = \<lparr>s_user = 0, s_user_low = 0, s_system = 0, s_idle = 0,
                        memtotal = 0, memfree = 0, swaptotal = 0, swapfree = 0\<rparr>,
      cpu_time_cur = \<lparr>s_user = 0, s_user_low = 0, s_system = 0, s_idle = 0,
                       memtotal = 0, memfree = 0, swaptotal = 0, swapfree = 0\<rparr>,
      cpu_load = 0, io_watches = [], next_source_id = 1,
      clock = (\<lambda>k. 1000000 * (int k + 1)), clock_reads = 0,
      fork_results = (\<lambda>k. (100 + int k, 3 + int k)), forks = 0,
      kill_results = (\<lambda>_. 0), kills = 0,
      wait_results = (\<lambda>_. None), waits = 0,
      sys_results = (\<lambda>k. (0, \<lparr>s_user = 10 * of_nat k, s_user_low = 0, s_system = 5 * of_nat k,
                                 s_idle = 85 * of_nat k, memtotal = 1000, memfree = 500,
                                 swaptotal = 100, swapfree = 100\<rparr>)), sys_reads = 0,
      proc_results = (\<lambda>k. (0, \<lparr>p_user = 2 * of_nat k + 1, p_system = of_nat k + 1,
                                  p_vsize = 4096, p_rss = 1024\<rparr>)), proc_reads = 0,
      poll_results = (\<lambda>_. False), polls = 0,
      read_results = (\<lambda>_. Read_bytes []), reads = 0,
      strerror = (\<lambda>_. ''error''), strsignal = (\<lambda>_. ''signal''),
      tokenize = (\<lambda>s. [s]),
      effects = []\<rparr>"

definition example_running :: "32 word procman_deputy" where
  "example_running =
     example_deputy
       \<lparr>commands := [0],
        cmd_at := (cmd_at example_deputy)
          (0 := \<lparr>cmd_str = ''sleep 60'', argv = [''sleep 60''], pid = 100, stdout_fd = 3,
                 exit_status = 0,
                 user = calloc_moreinfo\<lparr>stdout_ioc := Some 3, stdout_sid := 1, actual_runid := 1,
                          sheriff_id := 1, group_str := ''g'', nickname := ''s''\<rparr>\<rparr>),
        io_watches := [(1, 0)], next_source_id := 2, forks := 1\<rparr>"

text \<open>The running deputy half a second after a first signal to its command.\<close>

definition example_signalled :: "32 word procman_deputy" where
  "example_signalled =
     upd_mi 0 (\<lambda>mi. mi\<lparr>num_kills_sent := 1, last_kill_time := 500000\<rparr>) example_running"

text \<open>A deputy with one command that is not running and was signalled seven times, the
  last time just before the first reading of the clock.\<close>

definition example_worn :: "32 word procman_deputy" where
  "example_worn =
     upd_mi 0 (\<lambda>mi. mi\<lparr>num_kills_sent := 7, last_kill_time := 999999\<rparr>)
       (upd_cmd 0 (\<lambda>c. c\<lparr>cmd_str := ''sleep 60''\<rparr>) (example_deputy\<lparr>commands := [0]\<rparr>))"

text \<open>A deputy whose forks fail, with one command of sheriff id 7 that is not running.\<close>

definition example_no_fork :: "32 word procman_deputy" where
  "example_no_fork =
     upd_mi 0 (\<lambda>mi. mi\<lparr>sheriff_id := 7\<rparr>)
       (upd_cmd 0 (\<lambda>c. c\<lparr>cmd_str := ''sleep 60''\<rparr>)
          (example_deputy\<lparr>commands := [0], fork_results := (\<lambda>_. (- 1, - 1))\<rparr>))"

text \<open>The command record of sheriff id 1 for \<open>sleep 60\<close>, with a desired run id and a
  force-quit flag, and an order for the host \<open>robot\<close> with this one command, sent 100 ms
  before the first reading of the clock.\<close>

definition example_cmd :: "int \<Rightarrow> bool \<Rightarrow> sheriff_cmd" where
  "example_cmd r fq =
     \<lparr>o_name = ''sleep 60'', o_nickname = ''s'', o_group = ''g'',
      o_sheriff_id = 1, o_desired_runid = r, o_force_quit = fq\<rparr>"

definition example_orders :: orders_t where
  "example_orders =
     \<lparr>o_utime = 900000, o_host = ''robot'', o_sheriff_name = ''sheriff'',
      o_cmds = [example_cmd 1 False]\<rparr>"

text \<open>The running deputy before its second tick: the system counters will read 10, 0, 5
  and 85 jiffies after zeros, the command had 1 and 1 jiffies and will read 5 and 3.\<close>

definition example_sampled :: "32 word procman_deputy" where
  "example_sampled =
     upd_mi 0 (\<lambda>mi. mi\<lparr>cpu_time0 := \<lparr>p_user = 1, p_system = 1, p_vsize = 4096, p_rss = 1024\<rparr>,
                         cpu_time1 := \<lparr>p_user = 1, p_system = 1, p_vsize = 4096, p_rss = 1024\<rparr>\<rparr>)
       (example_running\<lparr>sys_reads := 1, proc_reads := 2\<rparr>)"

text \<open>The running deputy with two more commands that no order of the examples names: one
  of sheriff id 2, running as pid 101, and one of sheriff id 3 that is not running.\<close>

definition example_three :: "32 word procman_deputy" where
  "example_three =
     example_running
       \<lparr>commands := [0, 1, 2],
        cmd_at := (cmd_at example_running)
          (1 := \<lparr>cmd_str = ''top'', argv = [''top''], pid = 101, stdout_fd = 4, exit_status = 0,
                 user = calloc_moreinfo\<lparr>stdout_ioc := Some 4, stdout_sid := 2, actual_runid := 1,
                          sheriff_id := 2\<rparr>\<rparr>,
           2 := \<lparr>cmd_str = ''ls'', argv = [''ls''], pid = 0, stdout_fd = - 1, exit_status = 0,
                 user = calloc_moreinfo\<lparr>actual_runid := 1, sheriff_id := 3\<rparr>\<rparr>),
        io_watches := [(1, 0), (2, 1)], next_source_id := 3, forks := 2\<rparr>"

text \<open>The order of the examples with the force-quit flag set and a desired run id.\<close>

definition example_quit_orders :: "int \<Rightarrow> orders_t" where
  "example_quit_orders r = example_orders\<lparr>o_cmds := [example_cmd r True]\<rparr>"

text \<open>The order of the examples with another name for its command.\<close>

definition example_rename_orders :: orders_t where
  "example_rename_orders =
     example_orders\<lparr>o_cmds := [(example_cmd 1 False)\<lparr>o_name := ''sleep 120''\<rparr>]\<rparr>"

section \<open>Stopping a command: the escalation\<close>

lemma signals_sent_append: "signals_sent (xs @ ys) = signals_sent xs @ signals_sent ys"
  by (induction xs rule: signals_sent.induct) auto

lemma stop_not_running: "pid (cmd_at pmd p) = 0 \<Longrightarrow> stop_cmd pmd p = (0, pmd)"
  by (simp add: stop_cmd_def)

lemma stop_limited:
  assumes "pid (cmd_at pmd p) \<noteq> 0" "last_kill_time (mi_of pmd p) \<noteq> 0"
    "clock pmd (clock_reads pmd) < last_kill_time (mi_of pmd p) + 900000"
  shows "stop_cmd pmd p = (0, pmd\<lparr>clock_reads := Suc (clock_reads pmd)\<rparr>)"
  using assms by (simp add: stop_cmd_def prim_defs)

lemma stop_signals:
  assumes "pid (cmd_at pmd p) \<noteq> 0"
    "\<not> (last_kill_time (mi_of pmd p) \<noteq> 0 \<and>
        clock pmd (clock_reads pmd) < last_kill_time (mi_of pmd p) + 900000)"
  shows "signals_sent (effects (snd (stop_cmd pmd p))) =
           signals_sent (effects pmd) @
             [(pid (cmd_at pmd p), if num_kills_sent (mi_of pmd p) \<le> 5 then SIGTERM else SIGKILL)]"
    and "num_kills_sent (mi_of (snd (stop_cmd pmd p)) p) = num_kills_sent (mi_of pmd p) + 1"
    and "last_kill_time (mi_of (snd (stop_cmd pmd p)) p) = clock pmd (clock_reads pmd)"
    and "pid (cmd_at (snd (stop_cmd pmd p)) p) = pid (cmd_at pmd p)"
    and "clock (snd (stop_cmd pmd p)) = clock pmd"
    and "clock_reads (snd (stop_cmd pmd p)) > clock_reads pmd"
  using assms by (auto simp add: stop_cmd_def prim_defs Let_def signals_sent_append)

lemma clock_spaced:
  assumes "\<forall>k. c k + 900000 < c (Suc k)" "i < j"
  shows "c i + 900000 < (c j :: int)"
  using assms(2)
proof (induction j)
  case 0
  then show ?case by simp
next
  case (Suc j)
  show ?case
  proof (cases "i = j")
    case True
    then show ?thesis using assms(1) by simp
  next
    case False
    with Suc have "c i + 900000 < c j" by simp
    moreover have "c j + 900000 < c (Suc j)" using assms(1) by simp
    ultimately show ?thesis by linarith
  qed
qed

lemma stop_repeat:
  assumes spaced: "\<forall>k. c k + 900000 < c (Suc k)"
  shows "clock s = c \<Longrightarrow> pid (cmd_at s p) \<noteq> 0 \<Longrightarrow> num_kills_sent (mi_of s p) = int m \<Longrightarrow>
     last_kill_time (mi_of s p) = 0 \<or> (\<exists>r < clock_reads s. last_kill_time (mi_of s p) = c r) \<Longrightarrow>
     signals_sent (effects (((\<lambda>s. snd (stop_cmd s p)) ^^ n) s)) =
       signals_sent (effects s) @
         map (\<lambda>k. (pid (cmd_at s p), if k < 6 then SIGTERM else SIGKILL)) [m..<m + n]"
proof (induction n arbitrary: s m)
  case 0
  then show ?case by simp
next
  case (Suc n)
  let ?s' = "snd (stop_cmd s p)"
  have nolimit: "\<not> (last_kill_time (mi_of s p) \<noteq> 0 \<and>
        clock s (clock_reads s) < last_kill_time (mi_of s p) + 900000)"
  proof (cases "last_kill_time (mi_of s p) = 0")
    case True
    then show ?thesis by simp
  next
    case False
    with Suc.prems(4) obtain r where r: "r < clock_reads s" "last_kill_time (mi_of s p) = c r"
      by blast
    from clock_spaced [OF spaced r(1)] r(2) Suc.prems(1) show ?thesis by simp
  qed
  note st = stop_signals [OF Suc.prems(2) nolimit]
  have a: "clock ?s' = c" using st(5) Suc.prems(1) by simp
  have b: "pid (cmd_at ?s' p) \<noteq> 0" using st(4) Suc.prems(2) by simp
  have d: "num_kills_sent (mi_of ?s' p) = int (Suc m)" using st(2) Suc.prems(3) by simp
  have e: "last_kill_time (mi_of ?s' p) = 0 \<or>
           (\<exists>r<clock_reads ?s'. last_kill_time (mi_of ?s' p) = c r)"
    using st(3) st(6) Suc.prems(1) by auto
  have "((\<lambda>s. snd (stop_cmd s p)) ^^ Suc n) s = ((\<lambda>s. snd (stop_cmd s p)) ^^ n) ?s'"
    by (simp only: funpow_Suc_right comp_apply)
  moreover have up: "[m..<Suc (m + n)] = m # [Suc m..<Suc (m + n)]"
    by (simp add: upt_conv_Cons del: upt_Suc)
  ultimately have "signals_sent (effects (((\<lambda>s. snd (stop_cmd s p)) ^^ Suc n) s)) =
      signals_sent (effects ?s') @
        map (\<lambda>k. (pid (cmd_at ?s' p), if k < 6 then SIGTERM else SIGKILL)) [Suc m..<Suc m + n]"
    using Suc.IH [OF a b d e] by (simp del: upt_Suc)
  also have "\<dots> = signals_sent (effects s) @
        map (\<lambda>k. (pid (cmd_at s p), if k < 6 then SIGTERM else SIGKILL)) [m..<m + Suc n]"
    using st(1) st(4) Suc.prems(3) by (simp add: up del: upt_Suc)
  finally show ?case .
qed

text \<open>
  Claim C2. A single call of \<open>stop_cmd\<close>: on a handle with pid 0 it does nothing at all.
  On a running handle, if \<open>last_kill_time\<close> is not 0 and the clock reads less than
  \<open>last_kill_time + 900000\<close>, no signal is sent and \<open>num_kills_sent\<close> and
  \<open>last_kill_time\<close> keep their values; otherwise exactly one signal is sent to the pid,
  SIGTERM when \<open>num_kills_sent \<le> 5\<close> and SIGKILL when it is greater, \<open>num_kills_sent\<close>
  grows by one and \<open>last_kill_time\<close> becomes the clock's reading. Consequently, on a
  running handle whose two fields are 0 (as they are after a spawn) and with a clock of
  which any two consecutive readings are more than 900 ms apart, \<open>n\<close> calls in a row
  send \<open>n\<close> signals, the first six of them SIGTERM and every later one, from the 7th
  on, SIGKILL.
\<close>

theorem stop_cmd_escalation:
  "(pid (cmd_at pmd p) = 0 \<longrightarrow> stop_cmd pmd p = (0, pmd)) \<and>
   (pid (cmd_at pmd p) \<noteq> 0 \<and> last_kill_time (mi_of pmd p) \<noteq> 0 \<and>
    clock pmd (clock_reads pmd) < last_kill_time (mi_of pmd p) + 900000 \<longrightarrow>
      signals_sent (effects (snd (stop_cmd pmd p))) = signals_sent (effects pmd) \<and>
      num_kills_sent (mi_of (snd (stop_cmd pmd p)) p) = num_kills_sent (mi_of pmd p) \<and>
      last_kill_time (mi_of (snd (stop_cmd pmd p)) p) = last_kill_time (mi_of pmd p)) \<and>
   (pid (cmd_at pmd p) \<noteq> 0 \<and>
    \<not> (last_kill_time (mi_of pmd p) \<noteq> 0 \<and>
       clock pmd (clock_reads pmd) < last_kill_time (mi_of pmd p) + 900000) \<longrightarrow>
      signals_sent (effects (snd (stop_cmd pmd p))) =
        signals_sent (effects pmd) @
          [(pid (cmd_at pmd p),
            if num_kills_sent (mi_of pmd p) \<le> 5 then SIGTERM else SIGKILL)] \<and>
      num_kills_sent (mi_of (snd (stop_cmd pmd p)) p) = num_kills_sent (mi_of pmd p) + 1 \<and>
      last_kill_time (mi_of (snd (stop_cmd pmd p)) p) = clock pmd (clock_reads pmd)) \<and>
   (pid (cmd_at pmd p) \<noteq> 0 \<and> num_kills_sent (mi_of pmd p) = 0 \<and>
    last_kill_time (mi_of pmd p) = 0 \<and> (\<forall>k. clock pmd k + 900000 < clock pmd (Suc k)) \<longrightarrow>
      signals_sent (effects (((\<lambda>s. snd (stop_cmd s p)) ^^ n) pmd)) =
        signals_sent (effects pmd) @
          map (\<lambda>k. (pid (cmd_at pmd p), if k < 6 then SIGTERM else SIGKILL)) [0..<n])"
proof (intro conjI impI)
  show "stop_cmd pmd p = (0, pmd)" if "pid (cmd_at pmd p) = 0"
    using that by (rule stop_not_running)
next
  assume h: "pid (cmd_at pmd p) \<noteq> 0 \<and> last_kill_time (mi_of pmd p) \<noteq> 0 \<and>
    clock pmd (clock_reads pmd) < last_kill_time (mi_of pmd p) + 900000"
  then have eq: "stop_cmd pmd p = (0, pmd\<lparr>clock_reads := Suc (clock_reads pmd)\<rparr>)"
    by (simp add: stop_limited)
  show "signals_sent (effects (snd (stop_cmd pmd p))) = signals_sent (effects pmd)"
    and "num_kills_sent (mi_of (snd (stop_cmd pmd p)) p) = num_kills_sent (mi_of pmd p)"
    and "last_kill_time (mi_of (snd (stop_cmd pmd p)) p) = last_kill_time (mi_of pmd p)"
    by (simp_all add: eq mi_of_def)
next
  assume h: "pid (cmd_at pmd p) \<noteq> 0 \<and>
    \<not> (last_kill_time (mi_of pmd p) \<noteq> 0 \<and>
       clock pmd (clock_reads pmd) < last_kill_time (mi_of pmd p) + 900000)"
  then have a: "pid (cmd_at pmd p) \<noteq> 0" and b: "\<not> (last_kill_time (mi_of pmd p) \<noteq> 0 \<and>
       clock pmd (clock_reads pmd) < last_kill_time (mi_of pmd p) + 900000)"
    by blast+
  note st = stop_signals [OF a b]
  show "signals_sent (effects (snd (stop_cmd pmd p))) =
        signals_sent (effects pmd) @
          [(pid (cmd_at pmd p),
            if num_kills_sent (mi_of pmd p) \<le> 5 then SIGTERM else SIGKILL)]"
    by (rule st(1))
  show "num_kills_sent (mi_of (snd (stop_cmd pmd p)) p) = num_kills_sent (mi_of pmd p) + 1"
    by (rule st(2))
  show "last_kill_time (mi_of (snd (stop_cmd pmd p)) p) = clock pmd (clock_reads pmd)"
    by (rule st(3))
next
  assume h: "pid (cmd_at pmd p) \<noteq> 0 \<and> num_kills_sent (mi_of pmd p) = 0 \<and>
    last_kill_time (mi_of pmd p) = 0 \<and> (\<forall>k. clock pmd k + 900000 < clock pmd (Suc k))"
  then have sp: "\<forall>k. clock pmd k + 900000 < clock pmd (Suc k)" by blast
  show "signals_sent (effects (((\<lambda>s. snd (stop_cmd s p)) ^^ n) pmd)) =
        signals_sent (effects pmd) @
          map (\<lambda>k. (pid (cmd_at pmd p), if k < 6 then SIGTERM else SIGKILL)) [0..<n]"
    using stop_repeat [OF sp, of pmd p 0 n] h by simp
qed

lemma example_running_simps:
  "pid (cmd_at example_running 0) = 100"
  "num_kills_sent (mi_of example_running 0) = 0"
  "last_kill_time (mi_of example_running 0) = 0"
  "clock example_running = (\<lambda>k. 1000000 * (int k + 1))"
  "effects example_running = []"
  by (simp_all add: example_running_def example_deputy_def upd_cmd_def mi_of_def calloc_moreinfo_def)

lemma example_signalled_simps:
  "pid (cmd_at example_signalled 0) = 100"
  "num_kills_sent (mi_of example_signalled 0) = 1"
  "last_kill_time (mi_of example_signalled 0) = 500000"
  "clock example_signalled = (\<lambda>k. 1000000 * (int k + 1))"
  "clock_reads example_signalled = 0"
  "effects example_signalled = []"
  by (simp_all add: example_signalled_def example_running_def example_deputy_def upd_mi_def
      upd_cmd_def mi_of_def calloc_moreinfo_def)

lemma example_stopped_simps:
  "pid (cmd_at example_deputy 0) = 0"
  "clock_reads example_running = 0"
  by (simp_all add: example_running_def example_deputy_def)

theorem stop_cmd_escalation_witness:
  "stop_cmd example_deputy 0 = (0, example_deputy) \<and>
   signals_sent (effects (snd (stop_cmd example_signalled 0))) = [] \<and>
   num_kills_sent (mi_of (snd (stop_cmd example_signalled 0)) 0) = 1 \<and>
   last_kill_time (mi_of (snd (stop_cmd example_signalled 0)) 0) = 500000 \<and>
   signals_sent (effects (snd (stop_cmd example_running 0))) = [(100, SIGTERM)] \<and>
   num_kills_sent (mi_of (snd (stop_cmd example_running 0)) 0) = 1 \<and>
   last_kill_time (mi_of (snd (stop_cmd example_running 0)) 0) = 1000000 \<and>
   (\<forall>k. clock example_running k + 900000 < clock example_running (Suc k)) \<and>
   signals_sent (effects (((\<lambda>s. snd (stop_cmd s 0)) ^^ 7) example_running)) =
     [(100, SIGTERM), (100, SIGTERM), (100, SIGTERM), (100, SIGTERM), (100, SIGTERM),
      (100, SIGTERM), (100, SIGKILL)]"
  using stop_cmd_escalation [of example_running 0 7]
    stop_cmd_escalation [of example_deputy 0 0]
    stop_cmd_escalation [of example_signalled 0 0]
  by (simp add: example_running_simps example_signalled_simps example_stopped_simps
      upt_rec numeral_nat)


section \<open>Starting a command\<close>

lemma start_cmd_ok_iff:
  "(fst (start_cmd pmd p r) = 0) = (0 < fst (fork_results pmd (forks pmd)))"
  by (simp add: start_cmd_def procman_start_cmd_def Let_def split_def)

lemma start_cmd_ok:
  assumes "fst (start_cmd pmd p r) = 0"
  shows "num_kills_sent (mi_of (snd (start_cmd pmd p r)) p) = 0"
    and "last_kill_time (mi_of (snd (start_cmd pmd p r)) p) = 0"
    and "actual_runid (mi_of (snd (start_cmd pmd p r)) p) = r"
    and "pid (cmd_at (snd (start_cmd pmd p r)) p) = fst (fork_results pmd (forks pmd))"
    and "effects (snd (start_cmd pmd p r)) =
           effects pmd @ [Spawned p (fst (fork_results pmd (forks pmd)))]"
  using assms
  by (simp_all add: start_cmd_def procman_start_cmd_def Let_def split_def
      upd_mi_def upd_cmd_def mi_of_def emit_def split: if_splits)

text \<open>
  Claim C10. \<open>start_cmd\<close> succeeds exactly when the fork does, and every successful start
  leaves the handle with \<open>num_kills_sent = 0\<close>, \<open>last_kill_time = 0\<close> and
  \<open>actual_runid\<close> equal to the desired run id; the handle is then running, and a
  \<open>stop_cmd\<close> that follows is not held back by the rate limit, whatever the clock reads:
  it sends SIGTERM, the first signal of a new escalation.
\<close>

theorem start_cmd_resets_escalation:
  "(fst (start_cmd pmd p r) = 0) = (0 < fst (fork_results pmd (forks pmd))) \<and>
   (fst (start_cmd pmd p r) = 0 \<longrightarrow>
      num_kills_sent (mi_of (snd (start_cmd pmd p r)) p) = 0 \<and>
      last_kill_time (mi_of (snd (start_cmd pmd p r)) p) = 0 \<and>
      actual_runid (mi_of (snd (start_cmd pmd p r)) p) = r \<and>
      pid (cmd_at (snd (start_cmd pmd p r)) p) \<noteq> 0 \<and>
      signals_sent (effects (snd (stop_cmd (snd (start_cmd pmd p r)) p))) =
        signals_sent (effects pmd) @ [(pid (cmd_at (snd (start_cmd pmd p r)) p), SIGTERM)])"
proof (intro conjI impI)
  show "(fst (start_cmd pmd p r) = 0) = (0 < fst (fork_results pmd (forks pmd)))"
    by (rule start_cmd_ok_iff)
next
  assume ok: "fst (start_cmd pmd p r) = 0"
  let ?s = "snd (start_cmd pmd p r)"
  note st = start_cmd_ok [OF ok]
  show k: "num_kills_sent (mi_of ?s p) = 0" by (rule st(1))
  show l: "last_kill_time (mi_of ?s p) = 0" by (rule st(2))
  show "actual_runid (mi_of ?s p) = r" by (rule st(3))
  show running: "pid (cmd_at ?s p) \<noteq> 0"
    using st(4) ok by (simp add: start_cmd_ok_iff)
  have "signals_sent (effects (snd (stop_cmd ?s p))) =
          signals_sent (effects ?s) @
            [(pid (cmd_at ?s p), if num_kills_sent (mi_of ?s p) \<le> 5 then SIGTERM else SIGKILL)]"
    using running l by (intro stop_signals(1)) simp_all
  then show "signals_sent (effects (snd (stop_cmd ?s p))) =
          signals_sent (effects pmd) @ [(pid (cmd_at ?s p), SIGTERM)]"
    by (simp add: k st(5) signals_sent_append)
qed

theorem start_cmd_resets_escalation_witness:
  "num_kills_sent (mi_of example_worn 0) = 7 \<and>
   last_kill_time (mi_of example_worn 0) = 999999 \<and>
   fst (start_cmd example_worn 0 1) = 0 \<and>
   num_kills_sent (mi_of (snd (start_cmd example_worn 0 1)) 0) = 0 \<and>
   last_kill_time (mi_of (snd (start_cmd example_worn 0 1)) 0) = 0 \<and>
   actual_runid (mi_of (snd (start_cmd example_worn 0 1)) 0) = 1 \<and>
   signals_sent (effects (snd (stop_cmd (snd (start_cmd example_worn 0 1)) 0))) =
     [(100, SIGTERM)]"
proof -
  have w: "num_kills_sent (mi_of example_worn 0) = 7"
    "last_kill_time (mi_of example_worn 0) = 999999"
    "fork_results example_worn (forks example_worn) = (100, 3)"
    "effects example_worn = []"
    by (simp_all add: example_worn_def example_deputy_def upd_mi_def upd_cmd_def mi_of_def
        calloc_moreinfo_def)
  have ok: "fst (start_cmd example_worn 0 1) = 0"
    by (simp add: start_cmd_ok_iff w)
  have pid: "pid (cmd_at (snd (start_cmd example_worn 0 1)) 0) = 100"
    using start_cmd_ok(4) [OF ok] by (simp add: w)
  show ?thesis
    using start_cmd_resets_escalation [of example_worn 0 1] ok pid
    by (simp add: w)
qed

lemma start_cmd_failed:
  assumes "fst (start_cmd pmd p r) \<noteq> 0"
  shows "effects (snd (start_cmd pmd p r)) =
           effects pmd @
             [Spawn_failed p,
              Publish_printf \<lparr>pf_deputy_name = hostname pmd, pf_sheriff_id = 0,
                 pf_text = ''couldn't start ['' @ take 239 (cmd_str (cmd_at pmd p) @ '']\<newline>''),
                 pf_utime = clock pmd (clock_reads pmd)\<rparr>,
              Publish_printf \<lparr>pf_deputy_name = hostname pmd,
                 pf_sheriff_id = sheriff_id (mi_of pmd p),
                 pf_text = ''ERROR!  couldn't start ['' @
                           take 231 (cmd_str (cmd_at pmd p) @ '']\<newline>''),
                 pf_utime = clock pmd (Suc (clock_reads pmd))\<rparr>]"
    and "commands (snd (start_cmd pmd p r)) = commands pmd"
    and "cmd_at (snd (start_cmd pmd p r)) = cmd_at pmd"
    and "io_watches (snd (start_cmd pmd p r)) = io_watches pmd"
  using assms
  by (simp_all add: start_cmd_def procman_start_cmd_def Let_def split_def
      printf_and_transmit_def timestamp_now_def
      upd_mi_def upd_cmd_def mi_of_def emit_def split: if_splits)

text \<open>
  Claim C7. When \<open>start_cmd\<close> fails, the deputy publishes two log lines after the failed
  fork: \<open>couldn't start [...]\<close> under the sheriff id 0 and \<open>ERROR!  couldn't start [...]\<close>
  under the sheriff id of the command (each cut to the 255 characters of the buffer).
  The table is as it was, so the handle is still in it; its pid is what it was (0 for
  the stopped command that the reconciler starts), its \<open>stdout_ioc\<close> is unchanged and
  the main loop has no new watch.
\<close>

theorem start_cmd_failure:
  "fst (start_cmd pmd p r) \<noteq> 0 \<longrightarrow>
     effects (snd (start_cmd pmd p r)) =
       effects pmd @
         [Spawn_failed p,
          Publish_printf \<lparr>pf_deputy_name = hostname pmd, pf_sheriff_id = 0,
             pf_text = ''couldn't start ['' @ take 239 (cmd_str (cmd_at pmd p) @ '']\<newline>''),
             pf_utime = clock pmd (clock_reads pmd)\<rparr>,
          Publish_printf \<lparr>pf_deputy_name = hostname pmd,
             pf_sheriff_id = sheriff_id (mi_of pmd p),
             pf_text = ''ERROR!  couldn't start ['' @
                       take 231 (cmd_str (cmd_at pmd p) @ '']\<newline>''),
             pf_utime = clock pmd (Suc (clock_reads pmd))\<rparr>] \<and>
     commands (snd (start_cmd pmd p r)) = commands pmd \<and>
     pid (cmd_at (snd (start_cmd pmd p r)) p) = pid (cmd_at pmd p) \<and>
     stdout_ioc (mi_of (snd (start_cmd pmd p r)) p) = stdout_ioc (mi_of pmd p) \<and>
     io_watches (snd (start_cmd pmd p r)) = io_watches pmd"
  using start_cmd_failed [of pmd p r] by (simp add: mi_of_def)

theorem start_cmd_failure_witness:
  "fst (start_cmd example_no_fork 0 1) \<noteq> 0 \<and>
   effects (snd (start_cmd example_no_fork 0 1)) =
     [Spawn_failed 0,
      Publish_printf \<lparr>pf_deputy_name = ''robot'', pf_sheriff_id = 0,
         pf_text = ''couldn't start [sleep 60]\<newline>'', pf_utime = 1000000\<rparr>,
      Publish_printf \<lparr>pf_deputy_name = ''robot'', pf_sheriff_id = 7,
         pf_text = ''ERROR!  couldn't start [sleep 60]\<newline>'', pf_utime = 2000000\<rparr>] \<and>
   commands (snd (start_cmd example_no_fork 0 1)) = [0] \<and>
   pid (cmd_at (snd (start_cmd example_no_fork 0 1)) 0) = 0 \<and>
   stdout_ioc (mi_of (snd (start_cmd example_no_fork 0 1)) 0) = None \<and>
   io_watches (snd (start_cmd example_no_fork 0 1)) = []"
proof -
  have failed: "fst (start_cmd example_no_fork 0 1) \<noteq> 0"
    by (simp add: start_cmd_ok_iff example_no_fork_def example_deputy_def upd_mi_def upd_cmd_def)
  show ?thesis
    using start_cmd_failure [of example_no_fork 0 1] failed
    by (simp add: example_no_fork_def example_deputy_def upd_mi_def upd_cmd_def mi_of_def
        calloc_moreinfo_def)
qed


section \<open>What each operation leaves alone: the counters\<close>

lemma timestamp_now_eq:
  "fst (timestamp_now s) = clock s (clock_reads s)"
  "snd (timestamp_now s) = s\<lparr>clock_reads := Suc (clock_reads s)\<rparr>"
  by (simp_all add: timestamp_now_def)

lemma printf_and_transmit_eq:
  "printf_and_transmit s sid txt =
     (if txt = [] then s
      else s\<lparr>clock_reads := Suc (clock_reads s),
             effects := effects s @
               [Publish_printf \<lparr>pf_deputy_name = hostname s, pf_sheriff_id = sid,
                                pf_text = take 255 txt, pf_utime = clock s (clock_reads s)\<rparr>]\<rparr>)"
  by (simp add: prim_defs)

lemma transmit_str_eq:
  "transmit_str s sid str =
     s\<lparr>clock_reads := Suc (clock_reads s),
       effects := effects s @
         [Publish_printf \<lparr>pf_deputy_name = hostname s, pf_sheriff_id = sid,
                          pf_text = str, pf_utime = clock s (clock_reads s)\<rparr>]\<rparr>"
  by (simp add: prim_defs)

lemma transmit_proc_info_eq:
  "transmit_proc_info s =
     s\<lparr>clock_reads := Suc (clock_reads s),
       effects := effects s @
         [Publish_info
            \<lparr>in_utime = clock s (clock_reads s), in_host = hostname s, in_cpu_load = cpu_load s,
             in_phys_mem_total_bytes = memtotal (cpu_time_cur s),
             in_phys_mem_free_bytes = memfree (cpu_time_cur s),
             in_swap_total_bytes = swaptotal (cpu_time_cur s),
             in_swap_free_bytes = swapfree (cpu_time_cur s),
             in_cmds = map (\<lambda>p. deputy_cmd_of (cmd_at s p)) (commands s)\<rparr>]\<rparr>"
  by (simp add: transmit_proc_info_def prim_defs)

lemma counters_upd [simp]:
  "counters (upd_cmd p f s) = counters s"
  "counters (upd_mi p g s) = counters s"
  "counters (emit e s) = counters s"
  "counters (snd (timestamp_now s)) = counters s"
  "counters (transmit_str s sid str) = counters s"
  "counters (transmit_if c s sid str) = counters s"
  "counters (printf_and_transmit s sid str) = counters s"
  "counters (transmit_proc_info s) = counters s"
  "counters (snd (procman_kill_cmd s p sig)) = counters s"
  "counters (snd (procman_start_cmd s p)) = counters s"
  "counters (procman_remove_cmd s p) = counters s"
  "counters (procman_close_dead_pipes s p) = counters s"
  "counters (procman_cmd_change_str p n s) = counters s"
  "counters (set_command_group p n s) = counters s"
  "counters (set_command_nickname p n s) = counters s"
  "counters (note_sheriff n s) = counters s"
  by (simp_all add: counters_def prim_defs transmit_if_def transmit_proc_info_def Let_def split_def
      procman_remove_cmd_def procman_close_dead_pipes_def procman_cmd_change_str_def
      set_command_group_def set_command_nickname_def note_sheriff_def split: option.splits)

lemma counters_env [simp]:
  "counters (s\<lparr>clock_reads := a\<rparr>) = counters s"
  "counters (s\<lparr>effects := b\<rparr>) = counters s"
  "counters (s\<lparr>io_watches := c\<rparr>) = counters s"
  "counters (s\<lparr>next_source_id := d\<rparr>) = counters s"
  "counters (s\<lparr>polls := e\<rparr>) = counters s"
  "counters (s\<lparr>reads := f\<rparr>) = counters s"
  "counters (s\<lparr>waits := g\<rparr>) = counters s"
  "counters (s\<lparr>proc_reads := h\<rparr>) = counters s"
  "counters (s\<lparr>sys_reads := i\<rparr>) = counters s"
  "counters (s\<lparr>cpu_time_cur := j\<rparr>) = counters s"
  "counters (s\<lparr>cpu_time_prev := k\<rparr>) = counters s"
  "counters (s\<lparr>cpu_load := l\<rparr>) = counters s"
  "counters (s\<lparr>mainloop_quit := m\<rparr>) = counters s"
  "counters (s\<lparr>commands := n\<rparr>) = counters s"
  by (simp_all add: counters_def)

lemma counters_stop_cmd [simp]: "counters (snd (stop_cmd s p)) = counters s"
  by (simp add: stop_cmd_def Let_def split_def)

lemma counters_start_cmd [simp]: "counters (snd (start_cmd s p r)) = counters s"
  by (simp add: start_cmd_def Let_def split_def)

lemma counters_add_cmd [simp]: "counters (snd (procman_add_cmd s n)) = counters s"
  by (simp add: procman_add_cmd_def Let_def counters_def)

lemma snd_lookup_or_create [simp]: "counters (snd (snd (lookup_or_create cmd as))) = counters (snd as)"
  by (simp add: lookup_or_create_def Let_def split_def split: option.splits)

lemma counters_update_labels [simp]: "counters (snd (update_labels p cmd as)) = counters (snd as)"
  by (simp add: update_labels_def Let_def split_def)

lemma counters_start_or_stop [simp]:
  "counters (snd (start_or_stop p cmd st as)) = counters (snd as)"
  by (simp add: start_or_stop_def Let_def split_def)

lemma counters_order_cmd [simp]: "counters (snd (order_cmd cmd as)) = counters (snd as)"
  by (simp add: order_cmd_def Let_def split_def)

lemma counters_order_cmds [simp]: "counters (snd (order_cmds cmds as)) = counters (snd as)"
  by (induction cmds arbitrary: as) simp_all

lemma counters_cull_cmd [simp]: "counters (cull_cmd p s) = counters s"
  by (simp add: cull_cmd_def Let_def)

lemma counters_cull [simp]: "counters (snd (cull ps as)) = counters (snd as)"
  by (induction ps arbitrary: as) simp_all

lemma counters_carry_out [simp]: "counters (carry_out orders s) = counters s"
  by (simp add: carry_out_def Let_def split_def)

lemma counters_read_pipe [simp]: "counters (read_pipe s p) = counters s"
  by (simp add: read_pipe_def Let_def split: read_result.splits)

lemma counters_pipe_data_ready [simp]: "counters (snd (pipe_data_ready s c p)) = counters s"
  by (simp add: pipe_data_ready_def Let_def)

lemma counters_bury [simp]: "counters (bury p s) = counters s"
  by (simp add: bury_def last_output_def report_signal_def cleanup_hooks_def Let_def)

lemma counters_reap [simp]:
  "counters (snd (procman_check_for_dead_children s)) = counters s"
  by (simp add: procman_check_for_dead_children_def Let_def split: option.splits)

lemma counters_dead_children_loop [simp]: "counters (dead_children_loop c s) = counters s"
proof (induction c s rule: dead_children_loop.induct)
  case (1 pmd)
  then show ?case by simp
next
  case (2 cmd pmd)
  obtain c' s2 where r: "procman_check_for_dead_children (bury cmd pmd) = (c', s2)"
    by (cases "procman_check_for_dead_children (bury cmd pmd)")
  have "counters s2 = counters pmd"
    using counters_reap [of "bury cmd pmd"] by (simp add: r)
  then show ?case
    using 2 [OF refl r [symmetric] refl refl] by (simp add: r)
qed

lemma counters_check_for_dead_children [simp]:
  "counters (check_for_dead_children s) = counters s"
  by (simp add: check_for_dead_children_def split_def Let_def)

lemma counters_remove_cmd [simp]: "counters (snd (remove_cmd p ss)) = counters (snd ss)"
  by (simp add: remove_cmd_def Let_def split_def)

lemma counters_fold_remove_cmd: "counters (snd (fold remove_cmd ps ss)) = counters (snd ss)"
  by (induction ps arbitrary: ss) simp_all

lemma counters_glib_handle_signal [simp]: "counters (glib_handle_signal sig s) = counters s"
  by (simp add: glib_handle_signal_def remove_all_cmds_def counters_fold_remove_cmd)

lemma counters_update_cmd_cpu_times [simp]:
  "counters (update_cmd_cpu_times e p s) = counters s"
  by (simp add: update_cmd_cpu_times_def Let_def split_def)

lemma counters_fold_update: "counters (fold (update_cmd_cpu_times e) ps s) = counters s"
  by (induction ps arbitrary: s) simp_all

lemma counters_one_second_timeout [simp]: "counters (one_second_timeout s) = counters s"
  by (simp add: one_second_timeout_def update_cpu_times_def Let_def split_def
      counters_fold_update)

lemma counters_dispatch_pipe [simp]: "counters (dispatch_pipe src c s) = counters s"
  by (simp add: dispatch_pipe_def Let_def split_def split: option.splits)

lemma counters_introspection: "counters (introspection_timeout s) = (0, 0, 0)"
  by (simp add: introspection_timeout_def counters_def)

lemma fold_stale:
  assumes "txt \<noteq> []"
  shows "fold (\<lambda>cmd s. printf_and_transmit s (o_sheriff_id cmd) txt) cmds s =
     s\<lparr>clock_reads := clock_reads s + length cmds,
       effects := effects s @
         map (\<lambda>(i, cmd). Publish_printf \<lparr>pf_deputy_name = hostname s,
                 pf_sheriff_id = o_sheriff_id cmd, pf_text = take 255 txt,
                 pf_utime = clock s (clock_reads s + i)\<rparr>) (enumerate 0 cmds)\<rparr>"
proof (induction cmds arbitrary: s)
  case Nil
  then show ?case by simp
next
  case (Cons c cs)
  let ?f = "\<lambda>cmd s. printf_and_transmit s (o_sheriff_id cmd) txt"
  let ?s1 = "printf_and_transmit s (o_sheriff_id c) txt"
  have "fold ?f (c # cs) s = fold ?f cs ?s1" by simp
  also have "\<dots> = ?s1\<lparr>clock_reads := clock_reads ?s1 + length cs,
       effects := effects ?s1 @
         map (\<lambda>(i, cmd). Publish_printf \<lparr>pf_deputy_name = hostname ?s1,
                 pf_sheriff_id = o_sheriff_id cmd, pf_text = take 255 txt,
                 pf_utime = clock ?s1 (clock_reads ?s1 + i)\<rparr>) (enumerate 0 cs)\<rparr>"
    by (rule Cons)
  also have "\<dots> = s\<lparr>clock_reads := clock_reads s + length (c # cs),
       effects := effects s @
         map (\<lambda>(i, cmd). Publish_printf \<lparr>pf_deputy_name = hostname s,
                 pf_sheriff_id = o_sheriff_id cmd, pf_text = take 255 txt,
                 pf_utime = clock s (clock_reads s + i)\<rparr>) (enumerate 0 (c # cs))\<rparr>"
    using assms
    by (simp add: printf_and_transmit_eq enumerate_Suc_eq [of 0] split_def comp_def)
  finally show ?case .
qed


section \<open>Stale orders\<close>


lemma dec_nat_length: "n < 10 ^ k \<Longrightarrow> 0 < k \<Longrightarrow> length (dec_nat n) \<le> k"
proof (induction k arbitrary: n)
  case 0
  then show ?case by simp
next
  case (Suc k)
  show ?case
  proof (cases "n < 10")
    case True
    then show ?thesis by (simp add: dec_nat.simps [of n])
  next
    case False
    then have k: "0 < k" using Suc.prems(1) by (cases k) auto
    have "n div 10 < 10 ^ k" using Suc.prems(1) by (simp add: less_mult_imp_div_less mult.commute)
    from Suc.IH [OF this k] False show ?thesis by (simp add: dec_nat.simps [of n])
  qed
qed

lemma dec_nat_not_Nil: "dec_nat n \<noteq> []"
  by (simp add: dec_nat.simps [of n])

lemma show_int_length:
  assumes "- (2 ^ 31) \<le> i" "i < 2 ^ 31"
  shows "length (show_int i) \<le> 11"
proof -
  have "nat \<bar>i\<bar> < 10 ^ 10" using assms by simp
  then have "length (dec_nat (nat \<bar>i\<bar>)) \<le> 10" by (rule dec_nat_length) simp
  then show ?thesis by (auto simp: show_int_def abs_if)
qed

lemma int_cast_range: "- (2 ^ 31) \<le> int_cast i" "int_cast i < 2 ^ 31"
  using sint_ge [of "word_of_int i :: 32 word"] sint_lt [of "word_of_int i :: 32 word"]
  by (simp_all add: int_cast_def)

lemma stale_text_length: "length (stale_text now utime) \<le> 255"
  using show_int_length [OF int_cast_range, of "c_div (sub64 now utime) 1000000"]
  by (simp add: stale_text_def)

lemma stale_text_not_Nil: "stale_text now utime \<noteq> []"
  by (simp add: stale_text_def)

lemma stale_orders_eq:
  "stale_orders now orders s =
     s\<lparr>nstale_orders_slm := nstale_orders_slm s + 1,
       clock_reads := clock_reads s + length (o_cmds orders),
       effects := effects s @
         map (\<lambda>(i, cmd). Publish_printf \<lparr>pf_deputy_name = hostname s,
                 pf_sheriff_id = o_sheriff_id cmd, pf_text = stale_text now (o_utime orders),
                 pf_utime = clock s (clock_reads s + i)\<rparr>) (enumerate 0 (o_cmds orders))\<rparr>"
  by (simp add: stale_orders_def Let_def fold_stale [OF stale_text_not_Nil] stale_text_length)



section \<open>The counters of the orders\<close>

lemma counters_order_received:
  "counters (procman_deputy_order_received max_age orders s) =
     (norders_slm s + 1,
      norders_forme_slm s + (if o_host orders = hostname s then 1 else 0),
      nstale_orders_slm s +
        (if o_host orders = hostname s \<and> max_age < sub64 (clock s (clock_reads s)) (o_utime orders)
         then 1 else 0))"
proof -
  have "counters (carry_out orders s') = counters s'" for s' :: "'a procman_deputy"
    by simp
  then show ?thesis
    by (simp add: procman_deputy_order_received_def Let_def timestamp_now_def stale_orders_eq)
      (simp add: counters_def)
qed

lemma order_received_other_host:
  "o_host orders \<noteq> hostname s \<Longrightarrow>
     procman_deputy_order_received max_age orders s = s\<lparr>norders_slm := norders_slm s + 1\<rparr>"
  by (simp add: procman_deputy_order_received_def)

lemma counters_dispatch:
  "counters_ordered (counters s) \<Longrightarrow> counters_ordered (counters (dispatch max_age e s))"
  by (cases e)
    (auto simp: dispatch_def counters_order_received counters_introspection counters_ordered_def
      counters_def [of s])

lemma counters_main_loop:
  "counters_ordered (counters s) \<Longrightarrow> counters_ordered (counters (main_loop max_age es s))"
  by (induction es arbitrary: s) (simp_all add: counters_dispatch)

lemma counters_main_init: "counters (main_init env) = (0, 0, 0)"
  by (simp add: main_init_def counters_def)

text \<open>
  Claim C6. Every received order adds one to \<open>norders_slm\<close>; \<open>norders_forme_slm\<close> grows
  (by one) exactly when the order's host is the deputy's host name, and
  \<open>nstale_orders_slm\<close> grows (by one) exactly when, moreover, the order is stale: its age,
  the 64-bit difference \<open>sub64\<close> of the clock and its \<^verbatim>\<open>utime\<close>, exceeds the bound. An
  order for another host changes nothing but \<open>norders_slm\<close>: no table mutation, no
  message. In every state that the main loop reaches from the initial state, under any
  sequence of events, \<open>0 \<le> nstale_orders_slm \<le> norders_forme_slm \<le> norders_slm\<close>.
\<close>

theorem order_counters:
  "norders_slm (procman_deputy_order_received max_age orders s) = norders_slm s + 1 \<and>
   norders_forme_slm (procman_deputy_order_received max_age orders s) =
     norders_forme_slm s + (if o_host orders = hostname s then 1 else 0) \<and>
   nstale_orders_slm (procman_deputy_order_received max_age orders s) =
     nstale_orders_slm s +
       (if o_host orders = hostname s \<and> max_age < sub64 (clock s (clock_reads s)) (o_utime orders)
        then 1 else 0) \<and>
   (o_host orders \<noteq> hostname s \<longrightarrow>
      procman_deputy_order_received max_age orders s = s\<lparr>norders_slm := norders_slm s + 1\<rparr>) \<and>
   0 \<le> nstale_orders_slm (main_loop max_age es (main_init env)) \<and>
   nstale_orders_slm (main_loop max_age es (main_init env)) \<le>
     norders_forme_slm (main_loop max_age es (main_init env)) \<and>
   norders_forme_slm (main_loop max_age es (main_init env)) \<le>
     norders_slm (main_loop max_age es (main_init env))"
proof -
  have "counters_ordered (counters (main_loop max_age es (main_init env)))"
    by (rule counters_main_loop) (simp add: counters_main_init counters_ordered_def)
  then show ?thesis
    using counters_order_received [of max_age orders s] order_received_other_host [of orders s max_age]
    by (simp add: counters_def counters_ordered_def)
qed


theorem order_counters_witness:
  "o_host (example_orders\<lparr>o_host := ''other''\<rparr>) \<noteq> hostname example_running \<and>
   procman_deputy_order_received 60000000 (example_orders\<lparr>o_host := ''other''\<rparr>) example_running =
     example_running\<lparr>norders_slm := 1\<rparr> \<and>
   norders_forme_slm (procman_deputy_order_received 60000000
       (example_orders\<lparr>o_utime := - 60000000\<rparr>) example_running) = 1 \<and>
   nstale_orders_slm (procman_deputy_order_received 60000000
       (example_orders\<lparr>o_utime := - 60000000\<rparr>) example_running) = 1 \<and>
   sub64 (clock example_running (clock_reads example_running))
       (o_utime (example_orders\<lparr>o_utime := - (2 ^ 63)\<rparr>)) = - 9223372036853775808 \<and>
   norders_forme_slm (procman_deputy_order_received 60000000
       (example_orders\<lparr>o_utime := - (2 ^ 63)\<rparr>) example_running) = 1 \<and>
   nstale_orders_slm (procman_deputy_order_received 60000000
       (example_orders\<lparr>o_utime := - (2 ^ 63)\<rparr>) example_running) = 0 \<and>
   0 \<le> nstale_orders_slm (main_loop 60000000
       [Orders_received (example_orders\<lparr>o_utime := - 60000000\<rparr>), Introspection,
        Orders_received example_orders] (main_init example_deputy)) \<and>
   nstale_orders_slm (main_loop 60000000
       [Orders_received (example_orders\<lparr>o_utime := - 60000000\<rparr>), Introspection,
        Orders_received example_orders] (main_init example_deputy))
   \<le> norders_forme_slm (main_loop 60000000
       [Orders_received (example_orders\<lparr>o_utime := - 60000000\<rparr>), Introspection,
        Orders_received example_orders] (main_init example_deputy)) \<and>
   norders_forme_slm (main_loop 60000000
       [Orders_received (example_orders\<lparr>o_utime := - 60000000\<rparr>), Introspection,
        Orders_received example_orders] (main_init example_deputy))
   \<le> norders_slm (main_loop 60000000
       [Orders_received (example_orders\<lparr>o_utime := - 60000000\<rparr>), Introspection,
        Orders_received example_orders] (main_init example_deputy))"
proof -
  let ?es = "[Orders_received (example_orders\<lparr>o_utime := - 60000000\<rparr>), Introspection,
          Orders_received example_orders]"
  have other: "o_host (example_orders\<lparr>o_host := ''other''\<rparr>) \<noteq> hostname example_running"
    by (simp add: example_orders_def example_running_def example_deputy_def upd_cmd_def)
  have one: "norders_slm example_running + 1 = 1"
    by (simp add: example_running_def example_deputy_def upd_cmd_def)
  have h: "o_host (example_orders\<lparr>o_utime := u\<rparr>) = hostname example_running"
    "norders_forme_slm example_running = 0" "nstale_orders_slm example_running = 0"
    "clock example_running (clock_reads example_running) = 1000000"
    "o_utime (example_orders\<lparr>o_utime := u\<rparr>) = u" for u
    by (simp_all add: example_orders_def example_running_def example_deputy_def)
  have age: "sub64 1000000 (- 60000000) = 61000000"
    "sub64 1000000 (- (2 ^ 63)) = - 9223372036853775808"
    "sub64 1000000 (- 9223372036854775808) = - 9223372036853775808"
    by (simp_all add: sub64_def)
  have a: "o_host (example_orders\<lparr>o_host := ''other''\<rparr>) \<noteq> hostname example_running \<and>
     procman_deputy_order_received 60000000 (example_orders\<lparr>o_host := ''other''\<rparr>) example_running =
       example_running\<lparr>norders_slm := 1\<rparr> \<and>
     0 \<le> nstale_orders_slm (main_loop 60000000 ?es (main_init example_deputy)) \<and>
     nstale_orders_slm (main_loop 60000000 ?es (main_init example_deputy))
       \<le> norders_forme_slm (main_loop 60000000 ?es (main_init example_deputy)) \<and>
     norders_forme_slm (main_loop 60000000 ?es (main_init example_deputy))
       \<le> norders_slm (main_loop 60000000 ?es (main_init example_deputy))"
    using order_counters [of 60000000 "example_orders\<lparr>o_host := ''other''\<rparr>" example_running
        ?es example_deputy] other
    by (simp only: one simp_thms)
  have b: "norders_forme_slm (procman_deputy_order_received 60000000
       (example_orders\<lparr>o_utime := - 60000000\<rparr>) example_running) = 1"
    "nstale_orders_slm (procman_deputy_order_received 60000000
       (example_orders\<lparr>o_utime := - 60000000\<rparr>) example_running) = 1"
    using order_counters [of 60000000 "example_orders\<lparr>o_utime := - 60000000\<rparr>" example_running
        "[]" example_deputy]
    by (simp_all add: h age)
  have c: "norders_forme_slm (procman_deputy_order_received 60000000
       (example_orders\<lparr>o_utime := - (2 ^ 63)\<rparr>) example_running) = 1"
    "nstale_orders_slm (procman_deputy_order_received 60000000
       (example_orders\<lparr>o_utime := - (2 ^ 63)\<rparr>) example_running) = 0"
    using order_counters [of 60000000 "example_orders\<lparr>o_utime := - (2 ^ 63)\<rparr>" example_running
        "[]" example_deputy]
    by (simp_all add: h age)
  have d: "sub64 (clock example_running (clock_reads example_running))
       (o_utime (example_orders\<lparr>o_utime := - (2 ^ 63)\<rparr>)) = - 9223372036853775808"
    by (simp add: h age)
  from a b c d show ?thesis by (simp only: simp_thms)
qed


section \<open>The transition of one command record\<close>

lemma forks_tried_append: "forks_tried (xs @ ys) = forks_tried xs @ forks_tried ys"
  by (induction xs rule: forks_tried.induct) auto

lemma lookup_or_create_cases:
  "(find_local_cmd s (o_sheriff_id cmd) = Some (fst (lookup_or_create cmd (a, s))) \<and>
    snd (snd (lookup_or_create cmd (a, s))) = s \<and> fst (snd (lookup_or_create cmd (a, s))) = a) \<or>
   (find_local_cmd s (o_sheriff_id cmd) = None \<and>
    fst (lookup_or_create cmd (a, s)) = fresh_handle (commands s) \<and>
    fst (snd (lookup_or_create cmd (a, s))) \<and>
    commands (snd (snd (lookup_or_create cmd (a, s)))) = commands s @ [fresh_handle (commands s)] \<and>
    cmd_at (snd (snd (lookup_or_create cmd (a, s)))) (fresh_handle (commands s)) =
      \<lparr>cmd_str = o_name cmd, argv = tokenize s (o_name cmd), pid = 0, stdout_fd = - 1,
       exit_status = 0,
       user = calloc_moreinfo\<lparr>sheriff_id := o_sheriff_id cmd, group_str := o_group cmd,
                nickname := o_nickname cmd\<rparr>\<rparr>)"
  by (cases "find_local_cmd s (o_sheriff_id cmd)")
    (simp_all add: lookup_or_create_def procman_add_cmd_def Let_def upd_cmd_def)

lemma lookup_or_create_effects [simp]:
  "effects (snd (snd (lookup_or_create cmd as))) = effects (snd as)"
  by (simp add: lookup_or_create_def procman_add_cmd_def Let_def upd_cmd_def split_def
      split: option.splits)

lemma update_labels_keeps [simp]:
  "effects (snd (update_labels p cmd as)) = effects (snd as)"
  "pid (cmd_at (snd (update_labels p cmd as)) q) = pid (cmd_at (snd as) q)"
  "actual_runid (mi_of (snd (update_labels p cmd as)) q) = actual_runid (mi_of (snd as) q)"
  by (simp_all add: update_labels_def Let_def split_def procman_cmd_change_str_def
      set_command_nickname_def set_command_group_def upd_cmd_def upd_mi_def mi_of_def)


lemma stop_cmd_keeps:
  "forks_tried (effects (snd (stop_cmd s p))) = forks_tried (effects s)"
  "actual_runid (mi_of (snd (stop_cmd s p)) q) = actual_runid (mi_of s q)"
  "pid (cmd_at (snd (stop_cmd s p)) q) = pid (cmd_at s q)"
  by (simp_all add: stop_cmd_def Let_def split_def prim_defs forks_tried_append)

lemma upd_mi_simps [simp]:
  "effects (upd_mi p f s) = effects s"
  "commands (upd_mi p f s) = commands s"
  "pid (cmd_at (upd_mi p f s) q) = pid (cmd_at s q)"
  "cmd_str (cmd_at (upd_mi p f s) q) = cmd_str (cmd_at s q)"
  "argv (cmd_at (upd_mi p f s) q) = argv (cmd_at s q)"
  "mi_of (upd_mi p f s) q = (if q = p then f (mi_of s p) else mi_of s q)"
  by (simp_all add: upd_mi_def upd_cmd_def mi_of_def)

lemma upd_mi_runid_same:
  "actual_runid (mi_of s p) = r \<Longrightarrow> upd_mi p (\<lambda>mi. mi\<lparr>actual_runid := r\<rparr>) s = s"
  by (auto simp: upd_mi_def upd_cmd_def mi_of_def)



section \<open>The resource sampler's ratios\<close>

lemma unat_ucast64:
  assumes "LENGTH('w::len) \<le> 64"
  shows "unat (ucast (x :: 'w word) :: 64 word) = unat x"
proof -
  have "unat x < 2 ^ LENGTH('w)" by (rule unsigned_less)
  also have "(2 :: nat) ^ LENGTH('w) \<le> 2 ^ LENGTH(64)"
    by (rule power_increasing) (use assms in simp_all)
  finally show ?thesis by (simp add: unsigned_ucast_eq take_bit_nat_eq_self)
qed

lemma unat_add4:
  fixes x y z u :: "'w::len word"
  assumes "unat x + unat y + unat z + unat u < 2 ^ LENGTH('w)"
  shows "unat (x + y + z + u) = unat x + unat y + unat z + unat u"
    and "unat (x + y + z) = unat x + unat y + unat z"
proof -
  have xy: "unat (x + y) = unat x + unat y"
    using assms by (intro unat_add_lem [THEN iffD1]) simp
  show xyz: "unat (x + y + z) = unat x + unat y + unat z"
    using assms xy by (intro unat_add_lem [THEN iffD1, THEN trans]) simp_all
  show "unat (x + y + z + u) = unat x + unat y + unat z + unat u"
    using assms xyz by (intro unat_add_lem [THEN iffD1, THEN trans]) simp_all
qed

lemma loaded_le_ellapsed:
  fixes a b :: "('w::len) word sys_cpu_mem"
  assumes w: "LENGTH('w) \<le> 64"
    and v: "unat (s_user a - s_user b) + unat (s_user_low a - s_user_low b) +
            unat (s_system a - s_system b) + unat (s_idle a - s_idle b) < 2 ^ LENGTH('w)"
  shows "unat (loaded_of a b) \<le> unat (ellapsed_of a b)"
proof -
  let ?u = "s_user a - s_user b" and ?l = "s_user_low a - s_user_low b"
  let ?s = "s_system a - s_system b" and ?i = "s_idle a - s_idle b"
  have "ellapsed_of a b = ucast (?u + ?l + ?s + ?i)"
    by (simp add: ellapsed_of_def algebra_simps)
  then have e: "unat (ellapsed_of a b) = unat ?u + unat ?l + unat ?s + unat ?i"
    by (simp only: unat_ucast64 [OF w] unat_add4(1) [OF v])
  have "loaded_of a b = ucast (?u + ?l + ?s)"
    by (simp add: loaded_of_def algebra_simps)
  then have l: "unat (loaded_of a b) = unat ?u + unat ?l + unat ?s"
    by (simp only: unat_ucast64 [OF w] unat_add4(2) [OF v])
  show ?thesis by (simp add: e l)
qed

lemma cpu_load_body [simp]: "cpu_load (update_cmd_cpu_times e p s) = cpu_load s"
  by (simp add: update_cmd_cpu_times_def Let_def split_def upd_mi_def upd_cmd_def)

lemma cpu_load_fold [simp]: "cpu_load (fold (update_cmd_cpu_times e) ps s) = cpu_load s"
  by (induction ps arbitrary: s) simp_all

lemma cpu_load_update:
  "cpu_load (update_cpu_times s) =
     (if ellapsed_of (snd (sys_results s (sys_reads s))) (cpu_time_prev s) = 0 then 0
      else of_nat (unat (loaded_of (snd (sys_results s (sys_reads s))) (cpu_time_prev s))) /
           of_nat (unat (ellapsed_of (snd (sys_results s (sys_reads s))) (cpu_time_prev s))))"
  by (simp add: update_cpu_times_def Let_def split_def)

lemma body_usage:
  "cpu_usage (mi_of (update_cmd_cpu_times e p t) p) =
     (if pid (cmd_at t p) = 0 \<or> fst (proc_results t (proc_reads t)) \<noteq> 0 then 0
      else if e = 0 \<or> p_user (cpu_time0 (mi_of t p)) = 0 \<or> p_system (cpu_time0 (mi_of t p)) = 0
      then 0
      else of_nat (unat (ucast (p_user (snd (proc_results t (proc_reads t))) -
                                p_user (cpu_time0 (mi_of t p)) +
                                p_system (snd (proc_results t (proc_reads t))) -
                                p_system (cpu_time0 (mi_of t p))) :: 64 word)) /
           of_nat (unat e))"
  by (simp add: update_cmd_cpu_times_def Let_def split_def mi_of_def upd_mi_def upd_cmd_def)

lemma body_other:
  "q \<noteq> p \<Longrightarrow> cmd_at (update_cmd_cpu_times e q s) p = cmd_at s p"
  "proc_results (update_cmd_cpu_times e q s) = proc_results s"
  "proc_reads (update_cmd_cpu_times e q s) =
     proc_reads s + (if pid (cmd_at s q) \<noteq> 0 then 1 else 0)"
  "pid (cmd_at (update_cmd_cpu_times e q s) r) = pid (cmd_at s r)"
  "q \<noteq> p \<Longrightarrow> mi_of (update_cmd_cpu_times e q s) p = mi_of s p"
  "mi_of (s\<lparr>proc_reads := k\<rparr>) p = mi_of s p"
  by (simp_all add: update_cmd_cpu_times_def Let_def split_def upd_mi_def upd_cmd_def mi_of_def)

lemma fold_other:
  "p \<notin> set ps \<Longrightarrow> cmd_at (fold (update_cmd_cpu_times e) ps s) p = cmd_at s p"
  by (induction ps arbitrary: s) (auto simp: body_other)

lemma fold_usage:
  assumes "distinct ps" "p \<in> set ps"
  shows "cpu_usage (mi_of (fold (update_cmd_cpu_times e) ps s) p) =
     cpu_usage (mi_of (update_cmd_cpu_times e p
        (s\<lparr>proc_reads := proc_reads s +
              length (filter (\<lambda>q. pid (cmd_at s q) \<noteq> 0) (takeWhile (\<lambda>q. q \<noteq> p) ps))\<rparr>)) p)"
  using assms
proof (induction ps arbitrary: s)
  case Nil
  then show ?case by simp
next
  case (Cons q qs)
  show ?case
  proof (cases "q = p")
    case True
    with Cons.prems have "p \<notin> set qs" by simp
    then have "mi_of (fold (update_cmd_cpu_times e) qs (update_cmd_cpu_times e p s)) p =
        mi_of (update_cmd_cpu_times e p s) p"
      by (simp add: fold_other mi_of_def)
    then show ?thesis using True by simp
  next
    case False
    with Cons.prems have d: "distinct qs" and m: "p \<in> set qs" by auto
    let ?s' = "update_cmd_cpu_times e q s"
    have f: "filter (\<lambda>r. pid (cmd_at ?s' r) \<noteq> 0) (takeWhile (\<lambda>r. r \<noteq> p) qs) =
             filter (\<lambda>r. pid (cmd_at s r) \<noteq> 0) (takeWhile (\<lambda>r. r \<noteq> p) qs)"
      by (simp add: body_other)
    have "cpu_usage (mi_of (fold (update_cmd_cpu_times e) (q # qs) s) p) =
          cpu_usage (mi_of (update_cmd_cpu_times e p
            (?s'\<lparr>proc_reads := proc_reads ?s' +
               length (filter (\<lambda>r. pid (cmd_at ?s' r) \<noteq> 0) (takeWhile (\<lambda>r. r \<noteq> p) qs))\<rparr>)) p)"
      using Cons.IH [OF d m, of ?s'] by simp
    also have "\<dots> = cpu_usage (mi_of (update_cmd_cpu_times e p
        (s\<lparr>proc_reads := proc_reads s +
              length (filter (\<lambda>r. pid (cmd_at s r) \<noteq> 0) (takeWhile (\<lambda>r. r \<noteq> p) (q # qs)))\<rparr>)) p)"
      using False by (simp add: body_usage f body_other)
    finally show ?thesis .
  qed
qed


lemma update_cpu_times_usage:
  assumes "distinct (commands s)" "p \<in> set (commands s)"
  shows "cpu_usage (mi_of (update_cpu_times s) p) =
     cpu_usage (mi_of (update_cmd_cpu_times
        (ellapsed_of (snd (sys_results s (sys_reads s))) (cpu_time_prev s)) p
        (s\<lparr>proc_reads := proc_reads s +
              length (filter (\<lambda>q. pid (cmd_at s q) \<noteq> 0)
                        (takeWhile (\<lambda>q. q \<noteq> p) (commands s)))\<rparr>)) p)"
proof -
  let ?E = "ellapsed_of (snd (sys_results s (sys_reads s))) (cpu_time_prev s)"
  let ?n = "length (filter (\<lambda>q. pid (cmd_at s q) \<noteq> 0) (takeWhile (\<lambda>q. q \<noteq> p) (commands s)))"
  obtain s2 where s2: "update_cpu_times s =
      (fold (update_cmd_cpu_times ?E) (commands s) s2)
        \<lparr>cpu_time_prev := cpu_time_cur (fold (update_cmd_cpu_times ?E) (commands s) s2)\<rparr>"
    and same: "cmd_at s2 = cmd_at s" "proc_results s2 = proc_results s"
      "proc_reads s2 = proc_reads s"
    by (simp add: update_cpu_times_def Let_def split_def)
  have "cpu_usage (mi_of (update_cpu_times s) p) =
        cpu_usage (mi_of (fold (update_cmd_cpu_times ?E) (commands s) s2) p)"
    by (simp add: s2 mi_of_def)
  also have "\<dots> = cpu_usage (mi_of (update_cmd_cpu_times ?E p
        (s2\<lparr>proc_reads := proc_reads s2 +
              length (filter (\<lambda>q. pid (cmd_at s2 q) \<noteq> 0)
                        (takeWhile (\<lambda>q. q \<noteq> p) (commands s)))\<rparr>)) p)"
    by (rule fold_usage [OF assms])
  also have "\<dots> = cpu_usage (mi_of (update_cmd_cpu_times ?E p
        (s\<lparr>proc_reads := proc_reads s + ?n\<rparr>)) p)"
    by (simp add: body_usage body_other same mi_of_def [of s2] mi_of_def [of s])
  finally show ?thesis .
qed

text \<open>
  Claim C9. After a tick of the sampler, with \<open>a\<close> the system sample just read and \<open>b\<close>
  the previous one, \<open>cpu_load\<close> is 0 when the elapsed jiffies are 0 and loaded / elapsed
  otherwise. It is never negative, and it is at most 1 when the two samples are valid:
  the four increments of the counters, taken at the counters' width, add up without
  overflow (and the counters are not wider than the 64 bits of the sums). For a command
  \<open>p\<close> of a table without repetition, whose sample is the \<open>k\<close>-th answer of the per-pid
  reader, \<open>cpu_usage\<close> is 0 when the elapsed jiffies are 0 or the user count or the
  system count of its previous sample is 0, and used / elapsed otherwise, where used is
  the sum of the increments of its two counters. The code also sets it to 0 for a
  command that is not running and for one whose sample could not be read. The quotients
  are exact: the rounding to \<^verbatim>\<open>float\<close> is not part of the model.
\<close>

theorem sampler_tick:
  fixes s :: "('w::len) word procman_deputy"
  shows
  "(let a = snd (sys_results s (sys_reads s)); b = cpu_time_prev s
    in cpu_load (update_cpu_times s) =
         (if ellapsed_of a b = 0 then 0
          else of_nat (unat (loaded_of a b)) / of_nat (unat (ellapsed_of a b))) \<and>
       0 \<le> cpu_load (update_cpu_times s) \<and>
       (LENGTH('w) \<le> 64 \<and>
        unat (s_user a - s_user b) + unat (s_user_low a - s_user_low b) +
        unat (s_system a - s_system b) + unat (s_idle a - s_idle b) < 2 ^ LENGTH('w) \<longrightarrow>
          cpu_load (update_cpu_times s) \<le> 1) \<and>
       (distinct (commands s) \<and> p \<in> set (commands s) \<longrightarrow>
          (let k = proc_reads s +
                   length (filter (\<lambda>q. pid (cmd_at s q) \<noteq> 0)
                             (takeWhile (\<lambda>q. q \<noteq> p) (commands s)));
               pa = snd (proc_results s k);
               pb = cpu_time0 (mi_of s p)
           in cpu_usage (mi_of (update_cpu_times s) p) =
                (if pid (cmd_at s p) = 0 \<or> fst (proc_results s k) \<noteq> 0 then 0
                 else if ellapsed_of a b = 0 \<or> p_user pb = 0 \<or> p_system pb = 0 then 0
                 else of_nat (unat (ucast (p_user pa - p_user pb +
                                           p_system pa - p_system pb) :: 64 word)) /
                      of_nat (unat (ellapsed_of a b))))))"
proof -
  let ?a = "snd (sys_results s (sys_reads s))" and ?b = "cpu_time_prev s"
  have load: "cpu_load (update_cpu_times s) =
         (if ellapsed_of ?a ?b = 0 then 0
          else of_nat (unat (loaded_of ?a ?b)) / of_nat (unat (ellapsed_of ?a ?b)))"
    by (rule cpu_load_update)
  have "(0 :: rat) \<le> of_nat (unat (loaded_of ?a ?b)) / of_nat (unat (ellapsed_of ?a ?b))"
    by (intro divide_nonneg_nonneg of_nat_0_le_iff)
  then have nonneg: "0 \<le> cpu_load (update_cpu_times s)"
    unfolding load by (simp only: if_split order_refl simp_thms)
  have le1: "cpu_load (update_cpu_times s) \<le> 1"
    if "LENGTH('w) \<le> 64 \<and>
        unat (s_user ?a - s_user ?b) + unat (s_user_low ?a - s_user_low ?b) +
        unat (s_system ?a - s_system ?b) + unat (s_idle ?a - s_idle ?b) < 2 ^ LENGTH('w)"
  proof -
    have "unat (loaded_of ?a ?b) \<le> unat (ellapsed_of ?a ?b)"
      using that by (intro loaded_le_ellapsed) simp_all
    then have le: "(of_nat (unat (loaded_of ?a ?b)) :: rat) \<le> of_nat (unat (ellapsed_of ?a ?b))"
      by (rule of_nat_mono)
    show ?thesis
    proof (cases "ellapsed_of ?a ?b = 0")
      case True
      then show ?thesis unfolding load by simp
    next
      case False
      then have "unat (ellapsed_of ?a ?b) \<noteq> 0" by (simp only: unat_eq_0 not_False_eq_True)
      then have "(0 :: rat) < of_nat (unat (ellapsed_of ?a ?b))"
        by (simp only: of_nat_0_less_iff neq0_conv)
      then have "(of_nat (unat (loaded_of ?a ?b)) :: rat) / of_nat (unat (ellapsed_of ?a ?b)) \<le> 1"
        using le by (simp only: divide_le_eq_1_pos)
      then show ?thesis unfolding load using False by (simp only: if_False)
    qed
  qed
  have usage: "cpu_usage (mi_of (update_cpu_times s) p) =
                (if pid (cmd_at s p) = 0 \<or> fst (proc_results s k) \<noteq> 0 then 0
                 else if ellapsed_of ?a ?b = 0 \<or> p_user (cpu_time0 (mi_of s p)) = 0 \<or>
                         p_system (cpu_time0 (mi_of s p)) = 0 then 0
                 else of_nat (unat (ucast (p_user (snd (proc_results s k)) -
                                           p_user (cpu_time0 (mi_of s p)) +
                                           p_system (snd (proc_results s k)) -
                                           p_system (cpu_time0 (mi_of s p))) :: 64 word)) /
                      of_nat (unat (ellapsed_of ?a ?b)))"
    if "distinct (commands s) \<and> p \<in> set (commands s)"
      and "k = proc_reads s +
                   length (filter (\<lambda>q. pid (cmd_at s q) \<noteq> 0)
                             (takeWhile (\<lambda>q. q \<noteq> p) (commands s)))" for k
    using that update_cpu_times_usage [of s p]
    by (simp add: body_usage body_other)
  show ?thesis
    unfolding Let_def using load nonneg le1 usage by blast
qed


theorem sampler_tick_witness:
  "LENGTH(32) \<le> (64 :: nat) \<and>
   unat (s_user (snd (sys_results example_sampled (sys_reads example_sampled))) -
         s_user (cpu_time_prev example_sampled)) +
   unat (s_user_low (snd (sys_results example_sampled (sys_reads example_sampled))) -
         s_user_low (cpu_time_prev example_sampled)) +
   unat (s_system (snd (sys_results example_sampled (sys_reads example_sampled))) -
         s_system (cpu_time_prev example_sampled)) +
   unat (s_idle (snd (sys_results example_sampled (sys_reads example_sampled))) -
         s_idle (cpu_time_prev example_sampled)) < 2 ^ LENGTH(32) \<and>
   distinct (commands example_sampled) \<and> 0 \<in> set (commands example_sampled) \<and>
   cpu_load (update_cpu_times example_sampled) = 3 / 20 \<and>
   cpu_load (update_cpu_times example_sampled) \<le> 1 \<and>
   cpu_usage (mi_of (update_cpu_times example_sampled) 0) = 3 / 50"
proof -
  have h: "snd (sys_results example_sampled (sys_reads example_sampled)) =
             \<lparr>s_user = 10, s_user_low = 0, s_system = 5, s_idle = 85,
              memtotal = 1000, memfree = 500, swaptotal = 100, swapfree = 100\<rparr>"
    "cpu_time_prev example_sampled =
       \<lparr>s_user = 0, s_user_low = 0, s_system = 0, s_idle = 0,
        memtotal = 0, memfree = 0, swaptotal = 0, swapfree = 0\<rparr>"
    "commands example_sampled = [0]"
    "proc_reads example_sampled = 2"
    "pid (cmd_at example_sampled 0) = 100"
    "proc_results example_sampled 2 = (0, \<lparr>p_user = 5, p_system = 3, p_vsize = 4096, p_rss = 1024\<rparr>)"
    "cpu_time0 (mi_of example_sampled 0) = \<lparr>p_user = 1, p_system = 1, p_vsize = 4096, p_rss = 1024\<rparr>"
    by (simp_all add: example_sampled_def example_running_def example_deputy_def upd_mi_def
        upd_cmd_def mi_of_def)
  have e: "ellapsed_of \<lparr>s_user = 10 :: 32 word, s_user_low = 0, s_system = 5, s_idle = 85,
              memtotal = 1000, memfree = 500, swaptotal = 100, swapfree = 100\<rparr>
             \<lparr>s_user = 0, s_user_low = 0, s_system = 0, s_idle = 0,
              memtotal = 0, memfree = 0, swaptotal = 0, swapfree = 0\<rparr> = 100"
    "loaded_of \<lparr>s_user = 10 :: 32 word, s_user_low = 0, s_system = 5, s_idle = 85,
              memtotal = 1000, memfree = 500, swaptotal = 100, swapfree = 100\<rparr>
             \<lparr>s_user = 0, s_user_low = 0, s_system = 0, s_idle = 0,
              memtotal = 0, memfree = 0, swaptotal = 0, swapfree = 0\<rparr> = 15"
    by (simp_all add: ellapsed_of_def loaded_of_def)
  show ?thesis
    using sampler_tick [of example_sampled 0]
    by (simp add: h e Let_def)
qed


section \<open>What the loop over an order's commands leaves alone\<close>

lemma le_foldr_max: "p \<in> set ps \<Longrightarrow> p \<le> foldr max ps (0 :: nat)"
  by (induction ps) auto

lemma fresh_handle_notin: "fresh_handle ps \<notin> set ps"
  using le_foldr_max [of "fresh_handle ps" ps] by (auto simp: fresh_handle_def)

lemma find_local_cmd_Some:
  "find_local_cmd s sid = Some q \<Longrightarrow> q \<in> set (commands s) \<and> sheriff_id (mi_of s q) = sid"
  by (auto simp: find_local_cmd_def find_Some_iff)

lemma start_cmd_eq:
  "start_cmd s q r =
     (if 0 < fst (fork_results s (forks s))
      then (0, s\<lparr>forks := Suc (forks s),
                 cmd_at := (cmd_at s)
                   (q := (cmd_at s q)
                      \<lparr>pid := fst (fork_results s (forks s)),
                       stdout_fd := snd (fork_results s (forks s)),
                       user := (user (cmd_at s q))
                         \<lparr>stdout_ioc := Some (snd (fork_results s (forks s))),
                          stdout_sid := next_source_id s, actual_runid := r,
                          num_kills_sent := 0, last_kill_time := 0\<rparr>\<rparr>),
                 effects := effects s @ [Spawned q (fst (fork_results s (forks s)))],
                 io_watches := io_watches s @ [(next_source_id s, q)],
                 next_source_id := Suc (next_source_id s)\<rparr>)
      else (- 1, s\<lparr>forks := Suc (forks s),
                   clock_reads := Suc (Suc (clock_reads s)),
                   effects := effects s @
                     [Spawn_failed q,
                      Publish_printf \<lparr>pf_deputy_name = hostname s, pf_sheriff_id = 0,
                        pf_text = take 255 (''couldn't start ['' @ cmd_str (cmd_at s q) @ '']\<newline>''),
                        pf_utime = clock s (clock_reads s)\<rparr>,
                      Publish_printf \<lparr>pf_deputy_name = hostname s,
                        pf_sheriff_id = sheriff_id (mi_of s q),
                        pf_text = take 255 (''ERROR!  couldn't start ['' @ cmd_str (cmd_at s q) @
                                            '']\<newline>''),
                        pf_utime = clock s (Suc (clock_reads s))\<rparr>]\<rparr>))"
proof (cases "0 < fst (fork_results s (forks s))")
  case True
  then show ?thesis
    by (simp add: start_cmd_def procman_start_cmd_def Let_def split_def upd_mi_def upd_cmd_def
        mi_of_def emit_def)
next
  case False
  then show ?thesis
    by (simp add: start_cmd_def procman_start_cmd_def Let_def split_def
        printf_and_transmit_eq mi_of_def emit_def)
qed

lemma stop_cmd_eq:
  "stop_cmd s q =
     (if pid (cmd_at s q) = 0 then (0, s)
      else if last_kill_time (mi_of s q) \<noteq> 0 \<and>
              clock s (clock_reads s) < last_kill_time (mi_of s q) + 900000
      then (0, s\<lparr>clock_reads := Suc (clock_reads s)\<rparr>)
      else (kill_results s (kills s),
            (let s4 = s\<lparr>clock_reads := Suc (clock_reads s), kills := Suc (kills s),
                        cmd_at := (cmd_at s)
                          (q := (cmd_at s q)
                             \<lparr>user := (user (cmd_at s q))
                                \<lparr>num_kills_sent := num_kills_sent (mi_of s q) + 1,
                                 last_kill_time := clock s (clock_reads s)\<rparr>\<rparr>),
                        effects := effects s @
                          [Kill (pid (cmd_at s q))
                             (if 5 < num_kills_sent (mi_of s q) then SIGKILL else SIGTERM)]\<rparr>
             in if kill_results s (kills s) \<noteq> 0
                then printf_and_transmit s4 (sheriff_id (mi_of s q))
                       (''kill: '' @ strerror s (- kill_results s (kills s)) @ ''\<newline>'')
                else s4)))"
proof (cases "pid (cmd_at s q) = 0")
  case True
  then show ?thesis by (simp add: stop_cmd_def)
next
  case running: False
  show ?thesis
  proof (cases "last_kill_time (mi_of s q) \<noteq> 0 \<and>
              clock s (clock_reads s) < last_kill_time (mi_of s q) + 900000")
    case True
    then show ?thesis using running by (simp add: stop_cmd_def timestamp_now_def mi_of_def)
  next
    case False
    show ?thesis
    proof (cases "5 < num_kills_sent (mi_of s q)")
      case True
      then show ?thesis
        using running False
        by (cases "kill_results s (kills s) = 0")
          (auto simp add: stop_cmd_def timestamp_now_def mi_of_def procman_kill_cmd_def
            emit_def upd_mi_def upd_cmd_def Let_def printf_and_transmit_eq)
    next
      case nk: False
      then show ?thesis
        using running False
        by (cases "kill_results s (kills s) = 0")
          (auto simp add: stop_cmd_def timestamp_now_def mi_of_def procman_kill_cmd_def
            emit_def upd_mi_def upd_cmd_def Let_def printf_and_transmit_eq)
    qed
  qed
qed

lemma start_cmd_other:
  "p \<noteq> q \<Longrightarrow> cmd_at (snd (start_cmd s q r)) p = cmd_at s p"
  "commands (snd (start_cmd s q r)) = commands s"
  "clock (snd (start_cmd s q r)) = clock s"
  "clock_reads s \<le> clock_reads (snd (start_cmd s q r))"
  by (simp_all add: start_cmd_eq)

lemma stop_cmd_other:
  "p \<noteq> q \<Longrightarrow> cmd_at (snd (stop_cmd s q)) p = cmd_at s p"
  "commands (snd (stop_cmd s q)) = commands s"
  "clock (snd (stop_cmd s q)) = clock s"
  "clock_reads s \<le> clock_reads (snd (stop_cmd s q))"
  by (simp_all add: stop_cmd_eq printf_and_transmit_eq Let_def)

lemma update_labels_other:
  "p \<noteq> q \<Longrightarrow> cmd_at (snd (update_labels q cmd as)) p = cmd_at (snd as) p"
  "commands (snd (update_labels q cmd as)) = commands (snd as)"
  "clock (snd (update_labels q cmd as)) = clock (snd as)"
  "clock_reads (snd (update_labels q cmd as)) = clock_reads (snd as)"
  by (simp_all add: update_labels_def Let_def split_def procman_cmd_change_str_def
      set_command_nickname_def set_command_group_def upd_cmd_def upd_mi_def)

lemma start_or_stop_other:
  "p \<noteq> q \<Longrightarrow> cmd_at (snd (start_or_stop q cmd st as)) p = cmd_at (snd as) p"
  "commands (snd (start_or_stop q cmd st as)) = commands (snd as)"
  "clock (snd (start_or_stop q cmd st as)) = clock (snd as)"
  "clock_reads (snd as) \<le> clock_reads (snd (start_or_stop q cmd st as))"
  by (simp_all add: start_or_stop_def Let_def split_def start_cmd_other stop_cmd_other
      upd_mi_def upd_cmd_def)

lemma lookup_or_create_other:
  "p \<in> set (commands s) \<Longrightarrow> cmd_at (snd (snd (lookup_or_create cmd (a, s)))) p = cmd_at s p"
  "set (commands s) \<subseteq> set (commands (snd (snd (lookup_or_create cmd (a, s)))))"
  "clock (snd (snd (lookup_or_create cmd (a, s)))) = clock s"
  "clock_reads (snd (snd (lookup_or_create cmd (a, s)))) = clock_reads s"
  "p \<in> set (commands s) \<Longrightarrow> sheriff_id (mi_of s p) \<noteq> o_sheriff_id cmd \<Longrightarrow>
     fst (lookup_or_create cmd (a, s)) \<noteq> p"
  using fresh_handle_notin [of "commands s"] find_local_cmd_Some [of s "o_sheriff_id cmd"]
  by (auto simp add: lookup_or_create_def procman_add_cmd_def Let_def upd_cmd_def
      split: option.splits)

lemma order_cmd_other:
  assumes "p \<in> set (commands s)" "sheriff_id (mi_of s p) \<noteq> o_sheriff_id cmd"
  shows "cmd_at (snd (order_cmd cmd (a, s))) p = cmd_at s p"
proof -
  obtain q a1 s1 where l: "lookup_or_create cmd (a, s) = (q, a1, s1)"
    by (cases "lookup_or_create cmd (a, s)") auto
  have q: "q \<noteq> p" using lookup_or_create_other(5) [OF assms, where a = a] l by auto
  have s1: "cmd_at s1 p = cmd_at s p" using lookup_or_create_other(1) [OF assms(1), where cmd = cmd and a = a] l by simp
  show ?thesis
    using q s1 by (simp add: order_cmd_def l start_or_stop_other update_labels_other)
qed

lemma order_cmd_later:
  "set (commands s) \<subseteq> set (commands (snd (order_cmd cmd (a, s))))"
  "clock (snd (order_cmd cmd (a, s))) = clock s"
  "clock_reads s \<le> clock_reads (snd (order_cmd cmd (a, s)))"
proof -
  obtain q a1 s1 where l: "lookup_or_create cmd (a, s) = (q, a1, s1)"
    by (cases "lookup_or_create cmd (a, s)") auto
  have s1: "set (commands s) \<subseteq> set (commands s1)" "clock s1 = clock s"
    "clock_reads s1 = clock_reads s"
    using lookup_or_create_other(2,3,4) [where s = s and cmd = cmd and a = a] l by simp_all
  show "set (commands s) \<subseteq> set (commands (snd (order_cmd cmd (a, s))))"
    using s1 by (simp add: order_cmd_def l start_or_stop_other update_labels_other)
  show "clock (snd (order_cmd cmd (a, s))) = clock s"
    using s1 by (simp add: order_cmd_def l start_or_stop_other update_labels_other)
  have "clock_reads (snd (update_labels q cmd (a1, s1))) \<le>
        clock_reads (snd (start_or_stop q cmd (procman_get_cmd_status s1 q) (update_labels q cmd (a1, s1))))"
    by (rule start_or_stop_other(4))
  then show "clock_reads s \<le> clock_reads (snd (order_cmd cmd (a, s)))"
    using s1 by (simp add: order_cmd_def l update_labels_other)
qed

lemma order_cmds_other:
  assumes "p \<in> set (commands s)" "sheriff_id (mi_of s p) \<notin> o_sheriff_id ` set cmds"
  shows "cmd_at (snd (order_cmds cmds (a, s))) p = cmd_at s p \<and>
         p \<in> set (commands (snd (order_cmds cmds (a, s))))"
  using assms
proof (induction cmds arbitrary: a s)
  case Nil
  then show ?case by simp
next
  case (Cons c cs)
  obtain a1 s1 where o: "order_cmd c (a, s) = (a1, s1)" by (cases "order_cmd c (a, s)")
  have u: "cmd_at s1 p = cmd_at s p"
    using order_cmd_other [where p = p and s = s and cmd = c and a = a] Cons.prems o by simp
  have m: "p \<in> set (commands s1)"
    using order_cmd_later(1) [where s = s and cmd = c and a = a] Cons.prems(1) o by auto
  have "sheriff_id (mi_of s1 p) \<notin> o_sheriff_id ` set cs"
    using Cons.prems(2) u by (simp add: mi_of_def)
  from Cons.IH [OF m this, of a1] show ?case by (simp add: o u)
qed

lemma order_cmds_later:
  "clock (snd (order_cmds cmds (a, s))) = clock s \<and>
   clock_reads s \<le> clock_reads (snd (order_cmds cmds (a, s)))"
proof (induction cmds arbitrary: a s)
  case Nil
  then show ?case by simp
next
  case (Cons c cs)
  obtain a1 s1 where o: "order_cmd c (a, s) = (a1, s1)" by (cases "order_cmd c (a, s)")
  have "clock s1 = clock s" "clock_reads s \<le> clock_reads s1"
    using order_cmd_later(2,3) [where s = s and cmd = c and a = a] o by simp_all
  with Cons [of a1 s1] show ?case by (simp add: o)
qed


section \<open>The cull of the orphans\<close>

lemma cull_cmd_frame:
  "pid (cmd_at (cull_cmd q t) r) = pid (cmd_at t r)"
  "clock (cull_cmd q t) = clock t"
  "clock_reads t \<le> clock_reads (cull_cmd q t)"
  "sheriff_id (mi_of (cull_cmd q t) r) = sheriff_id (mi_of t r)"
  "set (commands (cull_cmd q t)) \<subseteq> set (commands t)"
  "r \<in> set (commands t) \<Longrightarrow> pid (cmd_at t r) \<noteq> 0 \<Longrightarrow> r \<in> set (commands (cull_cmd q t))"
  "remove_requested (mi_of t r) = 1 \<Longrightarrow> remove_requested (mi_of (cull_cmd q t) r) = 1"
  "num_kills_sent (mi_of t r) \<le> num_kills_sent (mi_of (cull_cmd q t) r)"
  "last_kill_time (mi_of t r) \<noteq> 0 \<Longrightarrow> pid (cmd_at t r) \<noteq> 0 \<Longrightarrow>
     num_kills_sent (mi_of t r) = num_kills_sent (mi_of (cull_cmd q t) r) \<Longrightarrow>
     last_kill_time (mi_of (cull_cmd q t) r) = last_kill_time (mi_of t r)"
  by (auto simp add: cull_cmd_def stop_cmd_eq printf_and_transmit_eq Let_def upd_mi_def upd_cmd_def
      mi_of_def procman_remove_cmd_def)

lemma cull_cmd_self:
  "pid (cmd_at t q) = 0 \<Longrightarrow> q \<notin> set (commands (cull_cmd q t))"
  "pid (cmd_at t q) \<noteq> 0 \<Longrightarrow> remove_requested (mi_of (cull_cmd q t) q) = 1"
  "pid (cmd_at t q) \<noteq> 0 \<Longrightarrow>
     num_kills_sent (mi_of t q) < num_kills_sent (mi_of (cull_cmd q t) q) \<or>
     (last_kill_time (mi_of t q) \<noteq> 0 \<and>
      clock t (clock_reads t) < last_kill_time (mi_of t q) + 900000)"
  by (auto simp add: cull_cmd_def stop_cmd_eq printf_and_transmit_eq Let_def upd_mi_def upd_cmd_def
      mi_of_def procman_remove_cmd_def)

lemma cull_frame:
  "pid (cmd_at (snd (cull ps (a, t))) r) = pid (cmd_at t r) \<and>
   clock (snd (cull ps (a, t))) = clock t \<and>
   clock_reads t \<le> clock_reads (snd (cull ps (a, t))) \<and>
   sheriff_id (mi_of (snd (cull ps (a, t))) r) = sheriff_id (mi_of t r) \<and>
   set (commands (snd (cull ps (a, t)))) \<subseteq> set (commands t) \<and>
   (r \<in> set (commands t) \<and> pid (cmd_at t r) \<noteq> 0 \<longrightarrow> r \<in> set (commands (snd (cull ps (a, t))))) \<and>
   (remove_requested (mi_of t r) = 1 \<longrightarrow> remove_requested (mi_of (snd (cull ps (a, t))) r) = 1) \<and>
   num_kills_sent (mi_of t r) \<le> num_kills_sent (mi_of (snd (cull ps (a, t))) r)"
proof (induction ps arbitrary: a t)
  case Nil
  then show ?case by simp
next
  case (Cons q qs)
  note f = cull_cmd_frame [where q = q and t = t]
  note ih = Cons [where a = True and t = "cull_cmd q t"]
  show ?case
    using ih f(1) [where r = r] f(2) f(3) f(4) [where r = r] f(5) f(6) [where r = r] f(7) [where r = r] f(8) [where r = r]
    by auto
qed

lemma cull_stopped:
  "p \<in> set ps \<Longrightarrow> pid (cmd_at t p) = 0 \<Longrightarrow> p \<notin> set (commands (snd (cull ps (a, t))))"
proof (induction ps arbitrary: a t)
  case Nil
  then show ?case by simp
next
  case (Cons q qs)
  show ?case
  proof (cases "q = p")
    case True
    then have "p \<notin> set (commands (cull_cmd q t))"
      using cull_cmd_self(1) [where t = t and q = p] Cons.prems(2) by simp
    then show ?thesis using cull_frame [where ps = qs and a = True and t = "cull_cmd q t" and r = p] by auto
  next
    case False
    with Cons.prems have "p \<in> set qs" by simp
    moreover have "pid (cmd_at (cull_cmd q t) p) = 0"
      using Cons.prems(2) by (simp add: cull_cmd_frame)
    ultimately show ?thesis using Cons.IH [where t = "cull_cmd q t" and a = True] by simp
  qed
qed

lemma cull_running:
  "p \<in> set ps \<Longrightarrow> pid (cmd_at t p) \<noteq> 0 \<Longrightarrow>
     remove_requested (mi_of (snd (cull ps (a, t))) p) = 1 \<and>
     (num_kills_sent (mi_of t p) < num_kills_sent (mi_of (snd (cull ps (a, t))) p) \<or>
      (last_kill_time (mi_of t p) \<noteq> 0 \<and>
       (\<exists>k\<ge>clock_reads t. clock t k < last_kill_time (mi_of t p) + 900000)))"
proof (induction ps arbitrary: a t)
  case Nil
  then show ?case by simp
next
  case (Cons q qs)
  let ?u = "cull_cmd q t"
  note fr = cull_frame [where ps = qs and a = True and t = ?u and r = p]
  show ?case
  proof (cases "q = p")
    case True
    have m: "remove_requested (mi_of ?u p) = 1"
      using cull_cmd_self(2) [where t = t and q = p] Cons.prems(2) True by simp
    have k: "num_kills_sent (mi_of t p) < num_kills_sent (mi_of ?u p) \<or>
       (last_kill_time (mi_of t p) \<noteq> 0 \<and>
        clock t (clock_reads t) < last_kill_time (mi_of t p) + 900000)"
      using cull_cmd_self(3) [where t = t and q = p] Cons.prems(2) True by simp
    from k show ?thesis
    proof
      assume "num_kills_sent (mi_of t p) < num_kills_sent (mi_of ?u p)"
      then show ?thesis using fr m by auto
    next
      assume "last_kill_time (mi_of t p) \<noteq> 0 \<and>
        clock t (clock_reads t) < last_kill_time (mi_of t p) + 900000"
      then show ?thesis using fr m by auto
    qed
  next
    case False
    with Cons.prems have "p \<in> set qs" by simp
    moreover have "pid (cmd_at ?u p) \<noteq> 0"
      using Cons.prems(2) by (simp add: cull_cmd_frame)
    ultimately have ih: "remove_requested (mi_of (snd (cull qs (True, ?u))) p) = 1 \<and>
     (num_kills_sent (mi_of ?u p) < num_kills_sent (mi_of (snd (cull qs (True, ?u))) p) \<or>
      (last_kill_time (mi_of ?u p) \<noteq> 0 \<and>
       (\<exists>k\<ge>clock_reads ?u. clock ?u k < last_kill_time (mi_of ?u p) + 900000)))"
      by (rule Cons.IH)
    have same: "mi_of ?u p = mi_of t p"
      using False
      by (auto simp add: cull_cmd_def stop_cmd_eq printf_and_transmit_eq Let_def upd_mi_def
          upd_cmd_def mi_of_def procman_remove_cmd_def)
    have c: "clock ?u = clock t" "clock_reads t \<le> clock_reads ?u"
      by (simp_all add: cull_cmd_frame)
    from ih show ?thesis
      unfolding same c(1) using c(2) by (auto intro: order_trans)
  qed
qed


lemma not_named_iff:
  "(procmd_orders_find_cmd orders sid = None) = (sid \<notin> o_sheriff_id ` set (o_cmds orders))"
  by (auto simp: procmd_orders_find_cmd_def find_None_iff)

lemma note_sheriff_table [simp]:
  "cmd_at (note_sheriff n s) = cmd_at s"
  "commands (note_sheriff n s) = commands s"
  "clock (note_sheriff n s) = clock s"
  "clock_reads (note_sheriff n s) = clock_reads s"
  by (simp_all add: note_sheriff_def Let_def split: option.splits)

lemma transmit_proc_info_table [simp]:
  "cmd_at (transmit_proc_info s) = cmd_at s"
  "commands (transmit_proc_info s) = commands s"
  by (simp_all add: transmit_proc_info_eq)

lemma carry_out_table:
  "cmd_at (carry_out orders s) =
     cmd_at (snd (cull (orphans orders (snd (order_cmds (o_cmds orders) (False, note_sheriff (o_sheriff_name orders) s))))
                    (order_cmds (o_cmds orders) (False, note_sheriff (o_sheriff_name orders) s))))"
  "commands (carry_out orders s) =
     commands (snd (cull (orphans orders (snd (order_cmds (o_cmds orders) (False, note_sheriff (o_sheriff_name orders) s))))
                    (order_cmds (o_cmds orders) (False, note_sheriff (o_sheriff_name orders) s))))"
  by (simp_all add: carry_out_def Let_def split_def)

lemma carry_out_named_or_marked:
  assumes "p \<in> set (commands (carry_out orders s))"
  shows "procmd_orders_find_cmd orders (sheriff_id (mi_of (carry_out orders s) p)) \<noteq> None \<or>
         remove_requested (mi_of (carry_out orders s) p) = 1"
proof -
  obtain a2 s2 where o: "order_cmds (o_cmds orders) (False, note_sheriff (o_sheriff_name orders) s) = (a2, s2)"
    by (cases "order_cmds (o_cmds orders) (False, note_sheriff (o_sheriff_name orders) s)")
  let ?F = "snd (cull (orphans orders s2) (a2, s2))"
  have t: "cmd_at (carry_out orders s) = cmd_at ?F" "commands (carry_out orders s) = commands ?F"
    by (simp_all add: carry_out_table o)
  note fr = cull_frame [where ps = "orphans orders s2" and a = a2 and t = s2 and r = p]
  have p: "p \<in> set (commands ?F)" using assms t by simp
  then have p2: "p \<in> set (commands s2)" using fr by auto
  show ?thesis
  proof (cases "p \<in> set (orphans orders s2)")
    case True
    have "pid (cmd_at s2 p) \<noteq> 0"
      using cull_stopped [OF True, of s2 a2] p by auto
    from cull_running [OF True this, of a2] show ?thesis by (simp add: mi_of_def t)
  next
    case False
    with p2 have "procmd_orders_find_cmd orders (sheriff_id (mi_of s2 p)) \<noteq> None"
      by (simp add: orphans_def)
    then show ?thesis using fr by (simp add: mi_of_def t)
  qed
qed

lemma carry_out_orphan:
  assumes p: "p \<in> set (commands s)"
    and n: "procmd_orders_find_cmd orders (sheriff_id (mi_of s p)) = None"
  shows "pid (cmd_at s p) = 0 \<Longrightarrow> p \<notin> set (commands (carry_out orders s))"
    and "pid (cmd_at s p) \<noteq> 0 \<Longrightarrow>
          p \<in> set (commands (carry_out orders s)) \<and>
          remove_requested (mi_of (carry_out orders s) p) = 1 \<and>
          pid (cmd_at (carry_out orders s) p) = pid (cmd_at s p) \<and>
          (num_kills_sent (mi_of s p) < num_kills_sent (mi_of (carry_out orders s) p) \<or>
           (last_kill_time (mi_of s p) \<noteq> 0 \<and>
            (\<exists>k\<ge>clock_reads s. clock s k < last_kill_time (mi_of s p) + 900000)))"
proof -
  let ?s1 = "note_sheriff (o_sheriff_name orders) s"
  obtain a2 s2 where o: "order_cmds (o_cmds orders) (False, ?s1) = (a2, s2)"
    by (cases "order_cmds (o_cmds orders) (False, ?s1)")
  let ?F = "snd (cull (orphans orders s2) (a2, s2))"
  have t: "cmd_at (carry_out orders s) = cmd_at ?F" "commands (carry_out orders s) = commands ?F"
    by (simp_all add: carry_out_table o)
  have p1: "p \<in> set (commands ?s1)" using p by simp
  have n1: "sheriff_id (mi_of ?s1 p) \<notin> o_sheriff_id ` set (o_cmds orders)"
    using n by (simp add: not_named_iff mi_of_def)
  from order_cmds_other [OF p1 n1, of False]
  have u: "cmd_at s2 p = cmd_at s p" and m: "p \<in> set (commands s2)"
    by (simp_all add: o)
  have l: "clock s2 = clock s" "clock_reads s \<le> clock_reads s2"
    using order_cmds_later [of "o_cmds orders" False ?s1] by (simp_all add: o)
  have orphan: "p \<in> set (orphans orders s2)"
    using m n u by (simp add: orphans_def mi_of_def)
  note fr = cull_frame [where ps = "orphans orders s2" and a = a2 and t = s2 and r = p]
  show "p \<notin> set (commands (carry_out orders s))" if "pid (cmd_at s p) = 0"
    using cull_stopped [OF orphan, of s2 a2] that u by (simp add: t)
  show "p \<in> set (commands (carry_out orders s)) \<and>
          remove_requested (mi_of (carry_out orders s) p) = 1 \<and>
          pid (cmd_at (carry_out orders s) p) = pid (cmd_at s p) \<and>
          (num_kills_sent (mi_of s p) < num_kills_sent (mi_of (carry_out orders s) p) \<or>
           (last_kill_time (mi_of s p) \<noteq> 0 \<and>
            (\<exists>k\<ge>clock_reads s. clock s k < last_kill_time (mi_of s p) + 900000)))"
    if "pid (cmd_at s p) \<noteq> 0"
  proof -
    have r: "pid (cmd_at s2 p) \<noteq> 0" using that u by simp
    note c = cull_running [OF orphan r, of a2]
    have same: "mi_of s2 p = mi_of s p" using u by (simp add: mi_of_def)
    have fin: "mi_of (carry_out orders s) p = mi_of ?F p" by (simp add: mi_of_def t)
    show ?thesis
      using c fr m r l(2) unfolding same l(1) fin t u
      by (auto intro: order_trans)
  qed
qed


lemma order_received_carry_out:
  "o_host orders = hostname s \<Longrightarrow> \<not> max_age < sub64 (clock s (clock_reads s)) (o_utime orders) \<Longrightarrow>
   procman_deputy_order_received max_age orders s =
     carry_out orders (s\<lparr>norders_slm := norders_slm s + 1,
                         norders_forme_slm := norders_forme_slm s + 1,
                         clock_reads := Suc (clock_reads s)\<rparr>)"
  by (simp add: procman_deputy_order_received_def Let_def timestamp_now_def)

text \<open>
  Claim C4. After an order for this deputy that is not stale (its age, the 64-bit
  difference \<open>sub64\<close> of line 614, does not exceed the bound) has been carried out:
  every handle of the table has a sheriff id that the order names, or has
  \<open>remove_requested = 1\<close>. And for every handle \<open>p\<close> that was in the table before, with a
  sheriff id that the order does not name: if it was not running, it is no longer in the
  table; if it was running, it still is in the table, with the same pid and
  \<open>remove_requested = 1\<close>, and \<open>stop_cmd\<close> was called on it: either \<open>num_kills_sent\<close>
  has grown (a signal was sent), or the rate limit held the signal back, that is
  \<open>last_kill_time\<close> was set and a reading of the clock during this order was less than
  900 ms after it.
\<close>

theorem orphans_culled:
  "o_host orders = hostname s \<and> \<not> max_age < sub64 (clock s (clock_reads s)) (o_utime orders) \<longrightarrow>
     (p \<in> set (commands (procman_deputy_order_received max_age orders s)) \<longrightarrow>
        procmd_orders_find_cmd orders
          (sheriff_id (mi_of (procman_deputy_order_received max_age orders s) p)) \<noteq> None \<or>
        remove_requested (mi_of (procman_deputy_order_received max_age orders s) p) = 1) \<and>
     (p \<in> set (commands s) \<and>
      procmd_orders_find_cmd orders (sheriff_id (mi_of s p)) = None \<longrightarrow>
        (pid (cmd_at s p) = 0 \<longrightarrow>
           p \<notin> set (commands (procman_deputy_order_received max_age orders s))) \<and>
        (pid (cmd_at s p) \<noteq> 0 \<longrightarrow>
           p \<in> set (commands (procman_deputy_order_received max_age orders s)) \<and>
           remove_requested (mi_of (procman_deputy_order_received max_age orders s) p) = 1 \<and>
           pid (cmd_at (procman_deputy_order_received max_age orders s) p) = pid (cmd_at s p) \<and>
           (num_kills_sent (mi_of s p)
              < num_kills_sent (mi_of (procman_deputy_order_received max_age orders s) p) \<or>
            (last_kill_time (mi_of s p) \<noteq> 0 \<and>
             (\<exists>k>clock_reads s. clock s k < last_kill_time (mi_of s p) + 900000)))))"
proof (intro impI)
  assume h: "o_host orders = hostname s \<and> \<not> max_age < sub64 (clock s (clock_reads s)) (o_utime orders)"
  let ?s3 = "s\<lparr>norders_slm := norders_slm s + 1,
                norders_forme_slm := norders_forme_slm s + 1,
                clock_reads := Suc (clock_reads s)\<rparr>"
  have r: "procman_deputy_order_received max_age orders s = carry_out orders ?s3"
    using h by (simp add: order_received_carry_out)
  have s3: "commands ?s3 = commands s" "cmd_at ?s3 = cmd_at s" "mi_of ?s3 p = mi_of s p"
    "clock ?s3 = clock s" "clock_reads ?s3 = Suc (clock_reads s)"
    by (simp_all add: mi_of_def)
  have a: "procmd_orders_find_cmd orders (sheriff_id (mi_of (carry_out orders ?s3) p)) \<noteq> None \<or>
        remove_requested (mi_of (carry_out orders ?s3) p) = 1"
    if "p \<in> set (commands (carry_out orders ?s3))"
    using that by (rule carry_out_named_or_marked)
  have b: "p \<notin> set (commands (carry_out orders ?s3))"
    if "p \<in> set (commands s)" "procmd_orders_find_cmd orders (sheriff_id (mi_of s p)) = None"
      "pid (cmd_at s p) = 0"
    using carry_out_orphan(1) [of p ?s3 orders] that by (simp add: s3)
  have c: "p \<in> set (commands (carry_out orders ?s3)) \<and>
          remove_requested (mi_of (carry_out orders ?s3) p) = 1 \<and>
          pid (cmd_at (carry_out orders ?s3) p) = pid (cmd_at s p) \<and>
          (num_kills_sent (mi_of s p) < num_kills_sent (mi_of (carry_out orders ?s3) p) \<or>
           (last_kill_time (mi_of s p) \<noteq> 0 \<and>
            (\<exists>k>clock_reads s. clock s k < last_kill_time (mi_of s p) + 900000)))"
    if "p \<in> set (commands s)" "procmd_orders_find_cmd orders (sheriff_id (mi_of s p)) = None"
      "pid (cmd_at s p) \<noteq> 0"
    using carry_out_orphan(2) [of p ?s3 orders] that
    by (simp only: s3 Suc_le_eq) simp
  show "(p \<in> set (commands (procman_deputy_order_received max_age orders s)) \<longrightarrow>
        procmd_orders_find_cmd orders
          (sheriff_id (mi_of (procman_deputy_order_received max_age orders s) p)) \<noteq> None \<or>
        remove_requested (mi_of (procman_deputy_order_received max_age orders s) p) = 1) \<and>
     (p \<in> set (commands s) \<and>
      procmd_orders_find_cmd orders (sheriff_id (mi_of s p)) = None \<longrightarrow>
        (pid (cmd_at s p) = 0 \<longrightarrow>
           p \<notin> set (commands (procman_deputy_order_received max_age orders s))) \<and>
        (pid (cmd_at s p) \<noteq> 0 \<longrightarrow>
           p \<in> set (commands (procman_deputy_order_received max_age orders s)) \<and>
           remove_requested (mi_of (procman_deputy_order_received max_age orders s) p) = 1 \<and>
           pid (cmd_at (procman_deputy_order_received max_age orders s) p) = pid (cmd_at s p) \<and>
           (num_kills_sent (mi_of s p)
              < num_kills_sent (mi_of (procman_deputy_order_received max_age orders s) p) \<or>
            (last_kill_time (mi_of s p) \<noteq> 0 \<and>
             (\<exists>k>clock_reads s. clock s k < last_kill_time (mi_of s p) + 900000)))))"
    unfolding r using a b c by blast
qed

theorem orphans_culled_witness:
  "o_host example_orders = hostname example_three \<and>
   \<not> (60000000 :: int) < sub64 (clock example_three (clock_reads example_three)) (o_utime example_orders) \<and>
   1 \<in> set (commands example_three) \<and>
   procmd_orders_find_cmd example_orders (sheriff_id (mi_of example_three 1)) = None \<and>
   pid (cmd_at example_three 1) \<noteq> 0 \<and>
   2 \<in> set (commands example_three) \<and>
   procmd_orders_find_cmd example_orders (sheriff_id (mi_of example_three 2)) = None \<and>
   pid (cmd_at example_three 2) = 0 \<and>
   2 \<notin> set (commands (procman_deputy_order_received 60000000 example_orders example_three)) \<and>
   1 \<in> set (commands (procman_deputy_order_received 60000000 example_orders example_three)) \<and>
   remove_requested (mi_of (procman_deputy_order_received 60000000 example_orders example_three) 1) = 1 \<and>
   pid (cmd_at (procman_deputy_order_received 60000000 example_orders example_three) 1) = 101 \<and>
   0 < num_kills_sent (mi_of (procman_deputy_order_received 60000000 example_orders example_three) 1)"
proof -
  have h: "o_host example_orders = hostname example_three"
    "\<not> (60000000 :: int) < sub64 (clock example_three (clock_reads example_three)) (o_utime example_orders)"
    "commands example_three = [0, 1, 2]"
    "procmd_orders_find_cmd example_orders (sheriff_id (mi_of example_three (Suc 0))) = None"
    "procmd_orders_find_cmd example_orders (sheriff_id (mi_of example_three 2)) = None"
    "pid (cmd_at example_three (Suc 0)) = 101" "pid (cmd_at example_three 2) = 0"
    "num_kills_sent (mi_of example_three (Suc 0)) = 0"
    "last_kill_time (mi_of example_three (Suc 0)) = 0"
    by (simp_all add: example_three_def example_running_def example_deputy_def example_orders_def
        example_cmd_def procmd_orders_find_cmd_def mi_of_def calloc_moreinfo_def sub64_def)
  show ?thesis
    using orphans_culled [of example_orders example_three 60000000 1]
      orphans_culled [of example_orders example_three 60000000 2]
    by (simp add: h)
qed


section \<open>What each operation leaves alone: the run id\<close>

lemma mi_of_env [simp]:
  "mi_of (s\<lparr>clock_reads := a\<rparr>) p = mi_of s p"
  "mi_of (s\<lparr>effects := b\<rparr>) p = mi_of s p"
  "mi_of (s\<lparr>io_watches := c\<rparr>) p = mi_of s p"
  "mi_of (s\<lparr>next_source_id := d\<rparr>) p = mi_of s p"
  "mi_of (s\<lparr>polls := e\<rparr>) p = mi_of s p"
  "mi_of (s\<lparr>reads := f\<rparr>) p = mi_of s p"
  "mi_of (s\<lparr>waits := g\<rparr>) p = mi_of s p"
  "mi_of (s\<lparr>proc_reads := h\<rparr>) p = mi_of s p"
  "mi_of (s\<lparr>sys_reads := i\<rparr>) p = mi_of s p"
  "mi_of (s\<lparr>cpu_time_cur := j\<rparr>) p = mi_of s p"
  "mi_of (s\<lparr>cpu_time_prev := k\<rparr>) p = mi_of s p"
  "mi_of (s\<lparr>cpu_load := l\<rparr>) p = mi_of s p"
  "mi_of (s\<lparr>mainloop_quit := m\<rparr>) p = mi_of s p"
  "mi_of (s\<lparr>commands := n\<rparr>) p = mi_of s p"
  "mi_of (s\<lparr>norders_slm := x\<rparr>) p = mi_of s p"
  "mi_of (s\<lparr>norders_forme_slm := y\<rparr>) p = mi_of s p"
  "mi_of (s\<lparr>nstale_orders_slm := z\<rparr>) p = mi_of s p"
  "mi_of (s\<lparr>observed_sheriffs_slm := u\<rparr>) p = mi_of s p"
  "mi_of (s\<lparr>forks := v\<rparr>) p = mi_of s p"
  "mi_of (s\<lparr>kills := w\<rparr>) p = mi_of s p"
  by (simp_all add: mi_of_def)

lemma mi_of_kept [simp]:
  "mi_of (transmit_str s sid str) p = mi_of s p"
  "mi_of (transmit_if c s sid str) p = mi_of s p"
  "mi_of (printf_and_transmit s sid str) p = mi_of s p"
  "mi_of (transmit_proc_info s) p = mi_of s p"
  "mi_of (read_pipe s q) p = mi_of s p"
  "mi_of (snd (pipe_data_ready s cond q)) p = mi_of s p"
  "mi_of (last_output q s) p = mi_of s p"
  "mi_of (report_signal q s) p = mi_of s p"
  "mi_of (procman_remove_cmd s q) p = mi_of s p"
  "mi_of (procman_close_dead_pipes s q) p = mi_of s p"
  "mi_of (snd (procman_check_for_dead_children s)) p = mi_of s p"
  "mi_of (note_sheriff n s) p = mi_of s p"
  by (simp_all add: mi_of_def procman_remove_cmd_def procman_close_dead_pipes_def upd_cmd_def
      procman_check_for_dead_children_def Let_def split: option.splits)

lemma runid_stop_cmd [simp]:
  "actual_runid (mi_of (snd (stop_cmd s q)) p) = actual_runid (mi_of s p)"
  by (simp add: stop_cmd_eq printf_and_transmit_eq Let_def mi_of_def)

lemma runid_cleanup_hooks [simp]:
  "actual_runid (mi_of (cleanup_hooks q s) p) = actual_runid (mi_of s p)"
  by (simp add: cleanup_hooks_def Let_def)

lemma runid_bury [simp]: "actual_runid (mi_of (bury q s) p) = actual_runid (mi_of s p)"
  by (simp add: bury_def Let_def)

lemma runid_dead_children_loop [simp]:
  "actual_runid (mi_of (dead_children_loop c s) p) = actual_runid (mi_of s p)"
proof (induction c s rule: dead_children_loop.induct)
  case (1 pmd)
  then show ?case by simp
next
  case (2 cmd pmd)
  obtain c' s2 where r: "procman_check_for_dead_children (bury cmd pmd) = (c', s2)"
    by (cases "procman_check_for_dead_children (bury cmd pmd)")
  have "mi_of s2 p = mi_of (bury cmd pmd) p"
    using mi_of_kept(11) [where s = "bury cmd pmd" and p = p] by (simp add: r)
  then show ?case
    using 2 [OF refl r [symmetric] refl refl] by (simp add: r)
qed

lemma runid_check_for_dead_children [simp]:
  "actual_runid (mi_of (check_for_dead_children s) p) = actual_runid (mi_of s p)"
  by (simp add: check_for_dead_children_def split_def Let_def)

lemma runid_remove_cmd [simp]:
  "actual_runid (mi_of (snd (remove_cmd q ss)) p) = actual_runid (mi_of (snd ss) p)"
  by (simp add: remove_cmd_def Let_def split_def)

lemma runid_fold_remove_cmd:
  "actual_runid (mi_of (snd (fold remove_cmd ps ss)) p) = actual_runid (mi_of (snd ss) p)"
  by (induction ps arbitrary: ss) simp_all

lemma runid_glib_handle_signal [simp]:
  "actual_runid (mi_of (glib_handle_signal sig s) p) = actual_runid (mi_of s p)"
  by (simp add: glib_handle_signal_def remove_all_cmds_def runid_fold_remove_cmd)

lemma runid_update_cmd_cpu_times [simp]:
  "actual_runid (mi_of (update_cmd_cpu_times e q s) p) = actual_runid (mi_of s p)"
  by (simp add: update_cmd_cpu_times_def Let_def split_def mi_of_def upd_mi_def upd_cmd_def)

lemma runid_fold_update:
  "actual_runid (mi_of (fold (update_cmd_cpu_times e) ps s) p) = actual_runid (mi_of s p)"
  by (induction ps arbitrary: s) simp_all

lemma runid_one_second_timeout [simp]:
  "actual_runid (mi_of (one_second_timeout s) p) = actual_runid (mi_of s p)"
proof -
  have "mi_of (update_cpu_times s) p =
        mi_of (fold (update_cmd_cpu_times
                 (ellapsed_of (snd (sys_results s (sys_reads s))) (cpu_time_prev s)))
                (commands s)
                (if ellapsed_of (snd (sys_results s (sys_reads s))) (cpu_time_prev s) = 0
                 then s\<lparr>cpu_time_cur := snd (sys_results s (sys_reads s)),
                        sys_reads := Suc (sys_reads s), cpu_load := 0\<rparr>
                 else s\<lparr>cpu_time_cur := snd (sys_results s (sys_reads s)),
                        sys_reads := Suc (sys_reads s),
                        cpu_load := of_nat (unat (loaded_of (snd (sys_results s (sys_reads s)))
                                                   (cpu_time_prev s))) /
                                    of_nat (unat (ellapsed_of (snd (sys_results s (sys_reads s)))
                                                   (cpu_time_prev s)))\<rparr>)) p"
    by (simp add: update_cpu_times_def Let_def split_def mi_of_def)
  then show ?thesis
    by (simp add: one_second_timeout_def runid_fold_update)
qed

lemma runid_introspection_timeout [simp]:
  "actual_runid (mi_of (introspection_timeout s) p) = actual_runid (mi_of s p)"
  by (simp add: introspection_timeout_def)

lemma runid_dispatch_pipe [simp]:
  "actual_runid (mi_of (dispatch_pipe src c s) p) = actual_runid (mi_of s p)"
proof (cases "find (\<lambda>w. fst w = src) (io_watches s)")
  case None
  then show ?thesis by (simp add: dispatch_pipe_def)
next
  case (Some w)
  have "mi_of (snd (pipe_data_ready s c (snd w))) p = mi_of s p" by simp
  then show ?thesis
    by (simp add: dispatch_pipe_def Some split_def Let_def)
qed

lemma runid_cull_cmd [simp]:
  "actual_runid (mi_of (cull_cmd q s) p) = actual_runid (mi_of s p)"
  by (simp add: cull_cmd_def Let_def)

lemma runid_cull [simp]:
  "actual_runid (mi_of (snd (cull ps as)) p) = actual_runid (mi_of (snd as) p)"
  by (induction ps arbitrary: as) simp_all

lemma runid_stale_orders [simp]:
  "actual_runid (mi_of (stale_orders now orders s) p) = actual_runid (mi_of s p)"
  by (simp add: stale_orders_eq)

section \<open>The run id across an order\<close>

lemma update_labels_sheriff_id [simp]:
  "sheriff_id (mi_of (snd (update_labels q cmd as)) p) = sheriff_id (mi_of (snd as) p)"
  by (simp add: update_labels_def Let_def split_def procman_cmd_change_str_def
      set_command_nickname_def set_command_group_def upd_cmd_def upd_mi_def mi_of_def)

lemma start_or_stop_step:
  "sheriff_id (mi_of (snd (start_or_stop p cmd st (a, s))) r) = sheriff_id (mi_of s r)"
  "st = procman_get_cmd_status s p \<Longrightarrow> pid (cmd_at s p) \<noteq> 0 \<Longrightarrow>
     pid (cmd_at (snd (start_or_stop p cmd st (a, s))) p) \<noteq> 0"
  "st = procman_get_cmd_status s p \<Longrightarrow>
     actual_runid (mi_of (snd (start_or_stop p cmd st (a, s))) p) = actual_runid (mi_of s p) \<or>
     (pid (cmd_at s p) = 0 \<and>
      actual_runid (mi_of (snd (start_or_stop p cmd st (a, s))) p) = o_desired_runid cmd)"
  by (auto simp add: start_or_stop_def procman_get_cmd_status_def start_cmd_eq stop_cmd_eq
      printf_and_transmit_eq Let_def upd_mi_def upd_cmd_def mi_of_def)

lemma order_cmd_untouched:
  assumes "p \<in> set (commands s)" "fst (lookup_or_create cmd (a, s)) \<noteq> p"
  shows "cmd_at (snd (order_cmd cmd (a, s))) p = cmd_at s p"
proof -
  obtain q a1 s1 where l: "lookup_or_create cmd (a, s) = (q, a1, s1)"
    by (cases "lookup_or_create cmd (a, s)") auto
  have q: "q \<noteq> p" using assms(2) l by auto
  have s1: "cmd_at s1 p = cmd_at s p"
    using lookup_or_create_other(1) [OF assms(1), where cmd = cmd and a = a] l by simp
  show ?thesis
    using q s1 by (simp add: order_cmd_def l start_or_stop_other update_labels_other)
qed

lemma order_cmd_step:
  assumes p: "p \<in> set (commands s)"
  shows "sheriff_id (mi_of (snd (order_cmd cmd (a, s))) p) = sheriff_id (mi_of s p)"
    and "pid (cmd_at s p) \<noteq> 0 \<Longrightarrow> pid (cmd_at (snd (order_cmd cmd (a, s))) p) \<noteq> 0"
    and "actual_runid (mi_of (snd (order_cmd cmd (a, s))) p) = actual_runid (mi_of s p) \<or>
         (o_sheriff_id cmd = sheriff_id (mi_of s p) \<and> pid (cmd_at s p) = 0 \<and>
          actual_runid (mi_of (snd (order_cmd cmd (a, s))) p) = o_desired_runid cmd)"
proof -
  have all: "sheriff_id (mi_of (snd (order_cmd cmd (a, s))) p) = sheriff_id (mi_of s p) \<and>
     (pid (cmd_at s p) \<noteq> 0 \<longrightarrow> pid (cmd_at (snd (order_cmd cmd (a, s))) p) \<noteq> 0) \<and>
     (actual_runid (mi_of (snd (order_cmd cmd (a, s))) p) = actual_runid (mi_of s p) \<or>
         (o_sheriff_id cmd = sheriff_id (mi_of s p) \<and> pid (cmd_at s p) = 0 \<and>
          actual_runid (mi_of (snd (order_cmd cmd (a, s))) p) = o_desired_runid cmd))"
  proof (cases "fst (lookup_or_create cmd (a, s)) = p")
    case False
    from order_cmd_untouched [OF p this] show ?thesis by (simp add: mi_of_def)
  next
    case True
    have fresh: "fresh_handle (commands s) \<noteq> p"
      using fresh_handle_notin [of "commands s"] p by auto
    from lookup_or_create_cases [of s cmd a] True fresh
    have f: "find_local_cmd s (o_sheriff_id cmd) = Some p"
      and l: "lookup_or_create cmd (a, s) = (p, a, s)"
      by (auto simp: prod_eq_iff)
    have sid: "sheriff_id (mi_of s p) = o_sheriff_id cmd"
      using find_local_cmd_Some [OF f] by simp
    obtain a2 s2 where u: "update_labels p cmd (a, s) = (a2, s2)"
      by (cases "update_labels p cmd (a, s)")
    have s2: "pid (cmd_at s2 p) = pid (cmd_at s p)"
      "actual_runid (mi_of s2 p) = actual_runid (mi_of s p)"
      "sheriff_id (mi_of s2 p) = sheriff_id (mi_of s p)"
      using update_labels_keeps(2,3) [where p = p and cmd = cmd and as = "(a, s)" and q = p]
        update_labels_sheriff_id [where q = p and cmd = cmd and as = "(a, s)" and p = p]
      by (simp_all add: u)
    have st: "procman_get_cmd_status s p = procman_get_cmd_status s2 p"
      by (simp add: procman_get_cmd_status_def s2)
    have oc: "order_cmd cmd (a, s) = start_or_stop p cmd (procman_get_cmd_status s2 p) (a2, s2)"
      by (simp add: order_cmd_def l u st)
    show ?thesis
      unfolding oc
      using start_or_stop_step(1) [where p = p and cmd = cmd and a = a2 and s = s2 and r = p
          and st = "procman_get_cmd_status s2 p"]
        start_or_stop_step(2) [OF refl, where p = p and cmd = cmd and a = a2 and s = s2]
        start_or_stop_step(3) [OF refl, where p = p and cmd = cmd and a = a2 and s = s2]
      by (auto simp add: s2 sid)
  qed
  from all show "sheriff_id (mi_of (snd (order_cmd cmd (a, s))) p) = sheriff_id (mi_of s p)"
    by simp
  from all show "pid (cmd_at s p) \<noteq> 0 \<Longrightarrow> pid (cmd_at (snd (order_cmd cmd (a, s))) p) \<noteq> 0"
    by simp
  from all show "actual_runid (mi_of (snd (order_cmd cmd (a, s))) p) = actual_runid (mi_of s p) \<or>
         (o_sheriff_id cmd = sheriff_id (mi_of s p) \<and> pid (cmd_at s p) = 0 \<and>
          actual_runid (mi_of (snd (order_cmd cmd (a, s))) p) = o_desired_runid cmd)"
    by simp
qed

lemma order_cmds_step:
  assumes "p \<in> set (commands s)"
  shows "actual_runid (mi_of (snd (order_cmds cmds (a, s))) p) = actual_runid (mi_of s p) \<or>
         (pid (cmd_at s p) = 0 \<and>
          (\<exists>cmd\<in>set cmds. o_sheriff_id cmd = sheriff_id (mi_of s p) \<and>
             actual_runid (mi_of (snd (order_cmds cmds (a, s))) p) = o_desired_runid cmd))"
  using assms
proof (induction cmds arbitrary: a s)
  case Nil
  then show ?case by simp
next
  case (Cons c cs)
  obtain a1 s1 where o: "order_cmd c (a, s) = (a1, s1)" by (cases "order_cmd c (a, s)")
  have m: "p \<in> set (commands s1)"
    using order_cmd_later(1) [where s = s and cmd = c and a = a] Cons.prems o by auto
  note st = order_cmd_step [OF Cons.prems, where cmd = c and a = a, unfolded o snd_conv]
  from Cons.IH [OF m, of a1] st show ?case
    by (auto simp add: o)
qed

lemma carry_out_runid:
  "actual_runid (mi_of (carry_out orders s) p) =
   actual_runid (mi_of (snd (order_cmds (o_cmds orders)
                               (False, note_sheriff (o_sheriff_name orders) s))) p)"
  by (simp add: carry_out_def Let_def split_def)

lemma runid_dispatch:
  assumes p: "p \<in> set (commands s)"
  shows "actual_runid (mi_of (dispatch max_age e s) p) = actual_runid (mi_of s p) \<or>
     (pid (cmd_at s p) = 0 \<and>
      (\<exists>orders cmd. e = Orders_received orders \<and> o_host orders = hostname s \<and>
         \<not> max_age < sub64 (clock s (clock_reads s)) (o_utime orders) \<and>
         cmd \<in> set (o_cmds orders) \<and> o_sheriff_id cmd = sheriff_id (mi_of s p) \<and>
         actual_runid (mi_of (dispatch max_age e s) p) = o_desired_runid cmd))"
proof (cases e)
  case (Orders_received orders)
  show ?thesis
  proof (cases "mainloop_quit s \<or> o_host orders \<noteq> hostname s \<or>
                max_age < sub64 (clock s (clock_reads s)) (o_utime orders)")
    case True
    then have "actual_runid (mi_of (dispatch max_age e s) p) = actual_runid (mi_of s p)"
      by (auto simp add: Orders_received dispatch_def procman_deputy_order_received_def Let_def
          timestamp_now_def)
    then show ?thesis by simp
  next
    case False
    let ?s3 = "s\<lparr>norders_slm := norders_slm s + 1,
                  norders_forme_slm := norders_forme_slm s + 1,
                  clock_reads := Suc (clock_reads s)\<rparr>"
    let ?s4 = "note_sheriff (o_sheriff_name orders) ?s3"
    have d: "dispatch max_age (Orders_received orders) s = carry_out orders ?s3"
      using False by (simp add: dispatch_def order_received_carry_out)
    have s4: "commands ?s4 = commands s" "mi_of ?s4 p = mi_of s p" "cmd_at ?s4 = cmd_at s"
      by simp_all
    have p4: "p \<in> set (commands ?s4)" using p by simp
    have r: "actual_runid (mi_of (dispatch max_age (Orders_received orders) s) p) =
             actual_runid (mi_of (snd (order_cmds (o_cmds orders) (False, ?s4))) p)"
      by (simp only: d carry_out_runid)
    from order_cmds_step [OF p4, of "o_cmds orders" False] False
    show ?thesis
      unfolding Orders_received r s4 by auto
  qed
qed (simp_all add: dispatch_def)

text \<open>
  Claim C3, as the code has it. For a handle \<open>p\<close> of the table and any event that the
  main loop dispatches, in any state: \<open>actual_runid\<close> of \<open>p\<close> is unchanged, unless the
  event is an order for this deputy that is not stale (by its 64-bit age \<open>sub64\<close>) and
  has a record with the sheriff
  id of \<open>p\<close>, and \<open>p\<close> was not running when the order arrived; it is then the
  \<open>desired_runid\<close> of such a record. So the run id of a running command never changes,
  every change comes from a record of an order, with or without a process being
  started, and \<open>actual_runid\<close> does not decrease in a step in which no record for the
  handle asks for less than it has.
\<close>

theorem runid_changes:
  "(p \<in> set (commands s) \<longrightarrow>
      actual_runid (mi_of (dispatch max_age e s) p) = actual_runid (mi_of s p) \<or>
      (pid (cmd_at s p) = 0 \<and>
       (\<exists>orders cmd. e = Orders_received orders \<and> o_host orders = hostname s \<and>
          \<not> max_age < sub64 (clock s (clock_reads s)) (o_utime orders) \<and>
          cmd \<in> set (o_cmds orders) \<and> o_sheriff_id cmd = sheriff_id (mi_of s p) \<and>
          actual_runid (mi_of (dispatch max_age e s) p) = o_desired_runid cmd))) \<and>
   (p \<in> set (commands s) \<and>
    (\<forall>orders cmd. e = Orders_received orders \<and> cmd \<in> set (o_cmds orders) \<and>
        o_sheriff_id cmd = sheriff_id (mi_of s p) \<longrightarrow>
        actual_runid (mi_of s p) \<le> o_desired_runid cmd) \<longrightarrow>
      actual_runid (mi_of s p) \<le> actual_runid (mi_of (dispatch max_age e s) p))"
  using runid_dispatch [of p s max_age e] by auto

lemmas run_defs = dispatch_def main_init_def example_deputy_def example_quit_orders_def
      example_orders_def example_cmd_def procman_deputy_order_received_def timestamp_now_def
      sub64_def carry_out_def note_sheriff_def order_cmd_def lookup_or_create_def find_local_cmd_def
      procman_add_cmd_def fresh_handle_def calloc_moreinfo_def update_labels_def
      start_or_stop_def procman_get_cmd_status_def orphans_def procmd_orders_find_cmd_def
      transmit_proc_info_eq mi_of_def upd_cmd_def upd_mi_def Let_def

lemma example_quit_run:
  "commands (main_loop 60000000 [Orders_received (example_quit_orders 5)]
               (main_init example_deputy)) = [1]"
  "pid (cmd_at (main_loop 60000000 [Orders_received (example_quit_orders 5)]
                  (main_init example_deputy)) 1) = 0"
  "sheriff_id (mi_of (main_loop 60000000 [Orders_received (example_quit_orders 5)]
                        (main_init example_deputy)) 1) = 1"
  "actual_runid (mi_of (main_loop 60000000 [Orders_received (example_quit_orders 5)]
                          (main_init example_deputy)) 1) = 5"
  "actual_runid (mi_of (main_loop 60000000
      [Orders_received (example_quit_orders 5), Orders_received (example_quit_orders 3)]
      (main_init example_deputy)) 1) = 3"
  "forks_tried (effects (main_loop 60000000
      [Orders_received (example_quit_orders 5), Orders_received (example_quit_orders 3)]
      (main_init example_deputy))) = []"
  by (simp_all add: run_defs)

theorem runid_changes_witness:
  "1 \<in> set (commands (main_loop 60000000 [Orders_received (example_quit_orders 5)]
                        (main_init example_deputy))) \<and>
   pid (cmd_at (main_loop 60000000 [Orders_received (example_quit_orders 5)]
                  (main_init example_deputy)) 1) = 0 \<and>
   (\<exists>cmd. cmd \<in> set (o_cmds (example_quit_orders 3)) \<and>
      o_sheriff_id cmd =
        sheriff_id (mi_of (main_loop 60000000 [Orders_received (example_quit_orders 5)]
                             (main_init example_deputy)) 1) \<and>
      actual_runid (mi_of (dispatch 60000000 (Orders_received (example_quit_orders 3))
          (main_loop 60000000 [Orders_received (example_quit_orders 5)]
             (main_init example_deputy))) 1) = o_desired_runid cmd)"
proof -
  let ?s = "main_loop 60000000 [Orders_received (example_quit_orders 5)] (main_init example_deputy)"
  have two: "main_loop 60000000
      [Orders_received (example_quit_orders 5), Orders_received (example_quit_orders 3)]
      (main_init example_deputy) = dispatch 60000000 (Orders_received (example_quit_orders 3)) ?s"
    by simp
  have changed: "actual_runid (mi_of (dispatch 60000000 (Orders_received (example_quit_orders 3)) ?s) 1)
      \<noteq> actual_runid (mi_of ?s 1)"
    using example_quit_run(4,5) unfolding two by simp
  have m: "1 \<in> set (commands ?s)" using example_quit_run(1) by simp
  from runid_changes [of 1 ?s 60000000 "Orders_received (example_quit_orders 3)"] m changed
  show ?thesis by auto
qed

text \<open>
  Claim C3 as the spec states it fails in a run of two orders from the initial state.
  The first order asks for run id 5 with force-quit: the command is created and is in
  the table, stopped, with \<open>actual_runid = 5\<close>. The second asks for run id 3 with
  force-quit: \<open>actual_runid\<close> becomes 3, which is less, and in the whole run no fork was
  tried, so neither assignment happened at a spawn.
\<close>

theorem runid_counterexample:
  "1 \<in> set (commands (main_loop 60000000 [Orders_received (example_quit_orders 5)]
                        (main_init example_deputy))) \<and>
   actual_runid (mi_of (main_loop 60000000
      [Orders_received (example_quit_orders 5), Orders_received (example_quit_orders 3)]
      (main_init example_deputy)) 1)
   < actual_runid (mi_of (main_loop 60000000 [Orders_received (example_quit_orders 5)]
                            (main_init example_deputy)) 1) \<and>
   forks_tried (effects (main_loop 60000000
      [Orders_received (example_quit_orders 5), Orders_received (example_quit_orders 3)]
      (main_init example_deputy))) = []"
  using example_quit_run by simp


section \<open>An order, record by record\<close>



lemma cull_cmd_forks [simp]:
  "forks_tried (effects (cull_cmd q t)) = forks_tried (effects t)"
  by (simp add: cull_cmd_def Let_def stop_cmd_keeps procman_remove_cmd_def)

lemma cull_forks [simp]:
  "forks_tried (effects (snd (cull ps as))) = forks_tried (effects (snd as))"
  by (induction ps arbitrary: as) simp_all

lemma transmit_proc_info_forks [simp]:
  "forks_tried (effects (transmit_proc_info s)) = forks_tried (effects s)"
  by (simp add: transmit_proc_info_eq forks_tried_append)




lemma note_sheriff_effects [simp]:
  "effects (note_sheriff n s) = effects s"
  "tokenize (note_sheriff n s) = tokenize s"
  by (simp_all add: note_sheriff_def Let_def split: option.splits)


lemma lookup_found:
  "find_local_cmd t (o_sheriff_id cmd) = Some p \<Longrightarrow> lookup_or_create cmd (a, t) = (p, a, t)"
  by (simp add: lookup_or_create_def)






section \<open>Renaming a running command\<close>

lemma tokenize_kept [simp]:
  "tokenize (snd (start_cmd s q r)) = tokenize s"
  "tokenize (snd (stop_cmd s q)) = tokenize s"
  "tokenize (upd_mi q f s) = tokenize s"
  "tokenize (upd_cmd q g s) = tokenize s"
  "tokenize (transmit_proc_info s) = tokenize s"
  "tokenize (procman_remove_cmd s q) = tokenize s"
  by (simp_all add: start_cmd_eq stop_cmd_eq printf_and_transmit_eq transmit_proc_info_eq Let_def
      upd_mi_def upd_cmd_def procman_remove_cmd_def)

lemma tokenize_order_cmd [simp]:
  "tokenize (snd (snd (lookup_or_create c as))) = tokenize (snd as)"
  "tokenize (snd (update_labels q c as)) = tokenize (snd as)"
  "tokenize (snd (start_or_stop q c st as)) = tokenize (snd as)"
  "tokenize (snd (order_cmd c as)) = tokenize (snd as)"
  by (simp_all add: order_cmd_def lookup_or_create_def procman_add_cmd_def update_labels_def
      start_or_stop_def procman_cmd_change_str_def set_command_nickname_def
      set_command_group_def Let_def split_def split: option.splits)

lemma tokenize_cull_cmd [simp]: "tokenize (cull_cmd q t) = tokenize t"
  by (simp add: cull_cmd_def Let_def)

lemma tokenize_cull [simp]: "tokenize (snd (cull ps as)) = tokenize (snd as)"
  by (induction ps arbitrary: as) simp_all

lemma find_append_Some: "find P xs = Some x \<Longrightarrow> find P (xs @ ys) = Some x"
  by (induction xs) (auto split: if_splits)

lemma order_cmd_flag: "fst as \<Longrightarrow> fst (order_cmd c as)"
  by (simp add: order_cmd_def lookup_or_create_def update_labels_def start_or_stop_def Let_def
      split_def split: option.splits)

lemma order_cmd_commands:
  "\<exists>ext. commands (snd (order_cmd c (a, t))) = commands t @ ext"
proof -
  obtain q a1 s1 where l: "lookup_or_create c (a, t) = (q, a1, s1)"
    by (cases "lookup_or_create c (a, t)") auto
  have "commands s1 = commands t \<or> commands s1 = commands t @ [fresh_handle (commands t)]"
    using lookup_or_create_cases [of t c a] l by auto
  then show ?thesis
    by (auto simp add: order_cmd_def l start_or_stop_other update_labels_other)
qed

lemma order_cmd_find:
  assumes f: "find_local_cmd t sid = Some p"
  shows "find_local_cmd (snd (order_cmd c (a, t))) sid = Some p"
proof -
  let ?t = "snd (order_cmd c (a, t))"
  obtain ext where e: "commands ?t = commands t @ ext"
    using order_cmd_commands [of c a t] by auto
  have same: "find (\<lambda>cand. sheriff_id (mi_of ?t cand) = sid) (commands t) =
              find (\<lambda>cand. sheriff_id (mi_of t cand) = sid) (commands t)"
    by (rule find_cong) (simp_all add: order_cmd_step(1))
  show ?thesis
    using f find_append_Some [of "\<lambda>cand. sheriff_id (mi_of ?t cand) = sid" "commands t" p ext]
    by (simp add: find_local_cmd_def e same)
qed

lemma start_or_stop_effects:
  "\<exists>ext. effects (snd (start_or_stop q c st (a, s))) = effects s @ ext \<and>
         set (forks_tried ext) \<subseteq> {q}"
  by (auto simp add: start_or_stop_def start_cmd_eq stop_cmd_eq printf_and_transmit_eq Let_def)

lemma order_cmd_effects:
  "\<exists>ext. effects (snd (order_cmd c (a, t))) = effects t @ ext \<and>
         set (forks_tried ext) \<subseteq> {fst (lookup_or_create c (a, t))}"
proof -
  obtain q a1 s1 where l: "lookup_or_create c (a, t) = (q, a1, s1)"
    by (cases "lookup_or_create c (a, t)") auto
  obtain a2 s2 where u: "update_labels q c (a1, s1) = (a2, s2)"
    by (cases "update_labels q c (a1, s1)")
  have e: "effects s2 = effects t"
    using update_labels_keeps(1) [of q c "(a1, s1)"] lookup_or_create_effects [of c "(a, t)"]
    by (simp add: l u)
  show ?thesis
    using start_or_stop_effects [of q c "procman_get_cmd_status s1 q" a2 s2]
    by (simp add: order_cmd_def l u e)
qed

lemma update_labels_self:
  "cmd_str (cmd_at (snd (update_labels p cmd (a, t))) p) = o_name cmd"
  "argv (cmd_at (snd (update_labels p cmd (a, t))) p) =
     (if cmd_str (cmd_at t p) \<noteq> o_name cmd then tokenize t (o_name cmd) else argv (cmd_at t p))"
  "num_kills_sent (mi_of (snd (update_labels p cmd (a, t))) p) = num_kills_sent (mi_of t p)"
  "last_kill_time (mi_of (snd (update_labels p cmd (a, t))) p) = last_kill_time (mi_of t p)"
  "remove_requested (mi_of (snd (update_labels p cmd (a, t))) p) = remove_requested (mi_of t p)"
  "cmd_str (cmd_at t p) \<noteq> o_name cmd \<Longrightarrow> fst (update_labels p cmd (a, t))"
  "a \<Longrightarrow> fst (update_labels p cmd (a, t))"
  by (simp_all add: update_labels_def Let_def split_def procman_cmd_change_str_def
      set_command_nickname_def set_command_group_def upd_cmd_def upd_mi_def mi_of_def)

lemma order_cmd_same:
  assumes "find_local_cmd t (o_sheriff_id cmd) = Some p" "pid (cmd_at t p) \<noteq> 0"
    "o_desired_runid cmd = actual_runid (mi_of t p)" "\<not> o_force_quit cmd"
  shows "order_cmd cmd (a, t) = update_labels p cmd (a, t)"
proof -
  obtain a2 s2 where u: "update_labels p cmd (a, t) = (a2, s2)"
    by (cases "update_labels p cmd (a, t)")
  have r: "actual_runid (mi_of s2 p) = actual_runid (mi_of t p)"
    using update_labels_keeps(3) [of p cmd "(a, t)" p] by (simp add: u)
  show ?thesis
    using assms
    by (simp add: order_cmd_def lookup_found u start_or_stop_def procman_get_cmd_status_def r
        upd_mi_runid_same)
qed


lemma order_cmd_rename_step:
  assumes f: "find_local_cmd t (o_sheriff_id cmd) = Some p" and r: "pid (cmd_at t p) \<noteq> 0"
    and e: "o_desired_runid cmd = actual_runid (mi_of t p)" and q: "\<not> o_force_quit cmd"
    and u: "o_sheriff_id c = o_sheriff_id cmd \<longrightarrow> c = cmd"
  shows "find_local_cmd (snd (order_cmd c (a, t))) (o_sheriff_id cmd) = Some p"
    and "pid (cmd_at (snd (order_cmd c (a, t))) p) = pid (cmd_at t p)"
    and "actual_runid (mi_of (snd (order_cmd c (a, t))) p) = actual_runid (mi_of t p)"
    and "num_kills_sent (mi_of (snd (order_cmd c (a, t))) p) = num_kills_sent (mi_of t p)"
    and "last_kill_time (mi_of (snd (order_cmd c (a, t))) p) = last_kill_time (mi_of t p)"
    and "remove_requested (mi_of (snd (order_cmd c (a, t))) p) = remove_requested (mi_of t p)"
    and "cmd_str (cmd_at (snd (order_cmd c (a, t))) p) =
           (if c = cmd then o_name cmd else cmd_str (cmd_at t p))"
    and "argv (cmd_at (snd (order_cmd c (a, t))) p) =
           (if c = cmd \<and> cmd_str (cmd_at t p) \<noteq> o_name cmd then tokenize t (o_name cmd)
            else argv (cmd_at t p))"
    and "a \<or> (c = cmd \<and> cmd_str (cmd_at t p) \<noteq> o_name cmd) \<Longrightarrow> fst (order_cmd c (a, t))"
    and "\<exists>ext. effects (snd (order_cmd c (a, t))) = effects t @ ext \<and> p \<notin> set (forks_tried ext)"
proof -
  show "find_local_cmd (snd (order_cmd c (a, t))) (o_sheriff_id cmd) = Some p"
    using f by (rule order_cmd_find)
  have m: "p \<in> set (commands t)" and sid: "sheriff_id (mi_of t p) = o_sheriff_id cmd"
    using find_local_cmd_Some [OF f] by simp_all
  have rest: "pid (cmd_at (snd (order_cmd c (a, t))) p) = pid (cmd_at t p) \<and>
     actual_runid (mi_of (snd (order_cmd c (a, t))) p) = actual_runid (mi_of t p) \<and>
     num_kills_sent (mi_of (snd (order_cmd c (a, t))) p) = num_kills_sent (mi_of t p) \<and>
     last_kill_time (mi_of (snd (order_cmd c (a, t))) p) = last_kill_time (mi_of t p) \<and>
     remove_requested (mi_of (snd (order_cmd c (a, t))) p) = remove_requested (mi_of t p) \<and>
     cmd_str (cmd_at (snd (order_cmd c (a, t))) p) =
           (if c = cmd then o_name cmd else cmd_str (cmd_at t p)) \<and>
     argv (cmd_at (snd (order_cmd c (a, t))) p) =
           (if c = cmd \<and> cmd_str (cmd_at t p) \<noteq> o_name cmd then tokenize t (o_name cmd)
            else argv (cmd_at t p)) \<and>
     (a \<or> (c = cmd \<and> cmd_str (cmd_at t p) \<noteq> o_name cmd) \<longrightarrow> fst (order_cmd c (a, t))) \<and>
     (\<exists>ext. effects (snd (order_cmd c (a, t))) = effects t @ ext \<and> p \<notin> set (forks_tried ext))"
  proof (cases "c = cmd")
    case True
    have oc: "order_cmd c (a, t) = update_labels p cmd (a, t)"
      unfolding True using f r e q by (rule order_cmd_same)
    have eff: "effects (snd (update_labels p cmd (a, t))) = effects t @ []"
      using update_labels_keeps(1) [where p = p and cmd = cmd and as = "(a, t)"] by simp
    have fl: "a \<or> cmd_str (cmd_at t p) \<noteq> o_name cmd \<longrightarrow> fst (update_labels p cmd (a, t))"
      using update_labels_self(6,7) [where t = t and p = p and cmd = cmd and a = a] by blast
    show ?thesis
      unfolding oc
      using update_labels_keeps(2,3) [where p = p and cmd = cmd and as = "(a, t)" and q = p]
        update_labels_self(1-5) [where p = p and cmd = cmd and a = a and t = t]
        fl eff True
      by (auto simp del: append_Nil2)
  next
    case False
    with u have ne: "sheriff_id (mi_of t p) \<noteq> o_sheriff_id c" by (auto simp: sid)
    have same: "cmd_at (snd (order_cmd c (a, t))) p = cmd_at t p"
      using m ne by (rule order_cmd_other)
    have q: "fst (lookup_or_create c (a, t)) \<noteq> p"
      using lookup_or_create_other(5) [OF m ne] by simp
    have fl: "a \<longrightarrow> fst (order_cmd c (a, t))"
      using order_cmd_flag [of "(a, t)" c] by simp
    show ?thesis
      using order_cmd_effects [of c a t] q fl False
      by (auto simp add: same mi_of_def)
  qed
  from rest show "pid (cmd_at (snd (order_cmd c (a, t))) p) = pid (cmd_at t p)"
    and "actual_runid (mi_of (snd (order_cmd c (a, t))) p) = actual_runid (mi_of t p)"
    and "num_kills_sent (mi_of (snd (order_cmd c (a, t))) p) = num_kills_sent (mi_of t p)"
    and "last_kill_time (mi_of (snd (order_cmd c (a, t))) p) = last_kill_time (mi_of t p)"
    and "remove_requested (mi_of (snd (order_cmd c (a, t))) p) = remove_requested (mi_of t p)"
    and "cmd_str (cmd_at (snd (order_cmd c (a, t))) p) =
           (if c = cmd then o_name cmd else cmd_str (cmd_at t p))"
    and "argv (cmd_at (snd (order_cmd c (a, t))) p) =
           (if c = cmd \<and> cmd_str (cmd_at t p) \<noteq> o_name cmd then tokenize t (o_name cmd)
            else argv (cmd_at t p))"
    and "a \<or> (c = cmd \<and> cmd_str (cmd_at t p) \<noteq> o_name cmd) \<Longrightarrow> fst (order_cmd c (a, t))"
    and "\<exists>ext. effects (snd (order_cmd c (a, t))) = effects t @ ext \<and> p \<notin> set (forks_tried ext)"
    by blast+
qed


lemma order_cmds_rename:
  assumes "find_local_cmd t (o_sheriff_id cmd) = Some p" "pid (cmd_at t p) \<noteq> 0"
    "o_desired_runid cmd = actual_runid (mi_of t p)" "\<not> o_force_quit cmd"
    "\<forall>c\<in>set cs. o_sheriff_id c = o_sheriff_id cmd \<longrightarrow> c = cmd"
  shows "find_local_cmd (snd (order_cmds cs (a, t))) (o_sheriff_id cmd) = Some p \<and>
     pid (cmd_at (snd (order_cmds cs (a, t))) p) = pid (cmd_at t p) \<and>
     actual_runid (mi_of (snd (order_cmds cs (a, t))) p) = actual_runid (mi_of t p) \<and>
     num_kills_sent (mi_of (snd (order_cmds cs (a, t))) p) = num_kills_sent (mi_of t p) \<and>
     last_kill_time (mi_of (snd (order_cmds cs (a, t))) p) = last_kill_time (mi_of t p) \<and>
     remove_requested (mi_of (snd (order_cmds cs (a, t))) p) = remove_requested (mi_of t p) \<and>
     tokenize (snd (order_cmds cs (a, t))) = tokenize t \<and>
     cmd_str (cmd_at (snd (order_cmds cs (a, t))) p) =
       (if cmd \<in> set cs then o_name cmd else cmd_str (cmd_at t p)) \<and>
     argv (cmd_at (snd (order_cmds cs (a, t))) p) =
       (if cmd \<in> set cs \<and> cmd_str (cmd_at t p) \<noteq> o_name cmd then tokenize t (o_name cmd)
        else argv (cmd_at t p)) \<and>
     (a \<or> (cmd \<in> set cs \<and> cmd_str (cmd_at t p) \<noteq> o_name cmd) \<longrightarrow>
        fst (order_cmds cs (a, t))) \<and>
     (\<exists>ext. effects (snd (order_cmds cs (a, t))) = effects t @ ext \<and>
            p \<notin> set (forks_tried ext))"
  using assms
proof (induction cs arbitrary: a t)
  case Nil
  then show ?case by simp
next
  case (Cons c cs)
  obtain a1 t1 where o: "order_cmd c (a, t) = (a1, t1)" by (cases "order_cmd c (a, t)")
  have u: "o_sheriff_id c = o_sheriff_id cmd \<longrightarrow> c = cmd" using Cons.prems(5) by simp
  note st = order_cmd_rename_step [OF Cons.prems(1-4) u, where a = a, unfolded o fst_conv snd_conv]
  have tk: "tokenize t1 = tokenize t"
    using tokenize_order_cmd(4) [of c "(a, t)"] by (simp add: o)
  have p1: "pid (cmd_at t1 p) \<noteq> 0" using st(2) Cons.prems(2) by simp
  have e1: "o_desired_runid cmd = actual_runid (mi_of t1 p)" using st(3) Cons.prems(3) by simp
  have u1: "\<forall>c\<in>set cs. o_sheriff_id c = o_sheriff_id cmd \<longrightarrow> c = cmd"
    using Cons.prems(5) by simp
  note ih = Cons.IH [OF st(1) p1 e1 Cons.prems(4) u1, of a1]
  from ih obtain ext2 where x2: "effects (snd (order_cmds cs (a1, t1))) = effects t1 @ ext2"
    "p \<notin> set (forks_tried ext2)" by blast
  from st(10) obtain ext1 where x1: "effects t1 = effects t @ ext1" "p \<notin> set (forks_tried ext1)"
    by blast
  have x: "\<exists>ext. effects (snd (order_cmds cs (a1, t1))) = effects t @ ext \<and>
            p \<notin> set (forks_tried ext)"
    using x1 x2 by (intro exI [of _ "ext1 @ ext2"]) (simp add: forks_tried_append)
  have fl: "a \<or> (cmd \<in> set (c # cs) \<and> cmd_str (cmd_at t p) \<noteq> o_name cmd) \<longrightarrow>
        fst (order_cmds cs (a1, t1))"
    using ih st(7) st(9) by (auto split: if_splits)
  show ?case
    unfolding order_cmds.simps o
    using ih st(2-8) tk x fl by (auto split: if_splits)
qed

lemma cull_cmd_untouched:
  assumes "q \<noteq> p"
  shows "cmd_at (cull_cmd q t) p = cmd_at t p"
    and "p \<in> set (commands t) \<Longrightarrow> p \<in> set (commands (cull_cmd q t))"
  using assms
  by (simp_all add: cull_cmd_def Let_def stop_cmd_other procman_remove_cmd_def upd_mi_def
      upd_cmd_def)

lemma cull_cmd_effects:
  "\<exists>ext. effects (cull_cmd q t) = effects t @ ext \<and> forks_tried ext = []"
  by (auto simp add: cull_cmd_def Let_def stop_cmd_eq printf_and_transmit_eq procman_remove_cmd_def)

lemma cull_untouched:
  assumes "p \<notin> set ps"
  shows "cmd_at (snd (cull ps (a, t))) p = cmd_at t p \<and>
     (p \<in> set (commands t) \<longrightarrow> p \<in> set (commands (snd (cull ps (a, t))))) \<and>
     (a \<longrightarrow> fst (cull ps (a, t))) \<and>
     (\<exists>ext. effects (snd (cull ps (a, t))) = effects t @ ext \<and> p \<notin> set (forks_tried ext))"
  using assms
proof (induction ps arbitrary: a t)
  case Nil
  then show ?case by simp
next
  case (Cons q qs)
  then have ne: "q \<noteq> p" and nin: "p \<notin> set qs" by auto
  note ih = Cons.IH [OF nin, of True "cull_cmd q t"]
  from ih obtain ext2 where x2: "effects (snd (cull qs (True, cull_cmd q t))) =
      effects (cull_cmd q t) @ ext2" "p \<notin> set (forks_tried ext2)" by blast
  obtain ext1 where x1: "effects (cull_cmd q t) = effects t @ ext1" "forks_tried ext1 = []"
    using cull_cmd_effects [of q t] by blast
  have x: "\<exists>ext. effects (snd (cull qs (True, cull_cmd q t))) = effects t @ ext \<and>
      p \<notin> set (forks_tried ext)"
    using x1 x2 by (intro exI [of _ "ext1 @ ext2"]) (simp add: forks_tried_append)
  show ?case
    using ih x cull_cmd_untouched [OF ne, of t] by simp
qed


lemma carry_out_rename:
  assumes m: "cmd \<in> set (o_cmds orders)"
    and u: "\<forall>c\<in>set (o_cmds orders). o_sheriff_id c = o_sheriff_id cmd \<longrightarrow> c = cmd"
    and f: "find_local_cmd s (o_sheriff_id cmd) = Some p" and r: "pid (cmd_at s p) \<noteq> 0"
    and n: "o_name cmd \<noteq> cmd_str (cmd_at s p)"
    and e: "o_desired_runid cmd = actual_runid (mi_of s p)" and q: "\<not> o_force_quit cmd"
  shows "p \<in> set (commands (carry_out orders s)) \<and>
      cmd_str (cmd_at (carry_out orders s) p) = o_name cmd \<and>
      argv (cmd_at (carry_out orders s) p) = tokenize s (o_name cmd) \<and>
      pid (cmd_at (carry_out orders s) p) = pid (cmd_at s p) \<and>
      actual_runid (mi_of (carry_out orders s) p) = actual_runid (mi_of s p) \<and>
      num_kills_sent (mi_of (carry_out orders s) p) = num_kills_sent (mi_of s p) \<and>
      last_kill_time (mi_of (carry_out orders s) p) = last_kill_time (mi_of s p) \<and>
      remove_requested (mi_of (carry_out orders s) p) = remove_requested (mi_of s p) \<and>
      (\<exists>ext info. effects (carry_out orders s) = effects s @ ext @ [Publish_info info] \<and>
         p \<notin> set (forks_tried ext) \<and>
         in_cmds info = map (\<lambda>q. deputy_cmd_of (cmd_at (carry_out orders s) q))
                          (commands (carry_out orders s)) \<and>
         (o_cmds orders = [cmd] \<and> commands s = [p] \<longrightarrow>
            ext = [] \<and> commands (carry_out orders s) = [p]))"
proof -
  let ?s0 = "note_sheriff (o_sheriff_name orders) s"
  obtain a1 s2 where o: "order_cmds (o_cmds orders) (False, ?s0) = (a1, s2)"
    by (cases "order_cmds (o_cmds orders) (False, ?s0)")
  obtain a2 s3 where c: "cull (orphans orders s2) (a1, s2) = (a2, s3)"
    by (cases "cull (orphans orders s2) (a1, s2)")
  have f0: "find_local_cmd ?s0 (o_sheriff_id cmd) = Some p"
    using f by (simp add: find_local_cmd_def)
  have r0: "pid (cmd_at ?s0 p) \<noteq> 0" using r by simp
  have e0: "o_desired_runid cmd = actual_runid (mi_of ?s0 p)" using e by simp
  note l = order_cmds_rename [OF f0 r0 e0 q u, of False, unfolded o fst_conv snd_conv]
  have a1: "a1" using l m n by auto
  have f2: "find_local_cmd s2 (o_sheriff_id cmd) = Some p" using l by simp
  have m2: "p \<in> set (commands s2)" and sid: "sheriff_id (mi_of s2 p) = o_sheriff_id cmd"
    using find_local_cmd_Some [OF f2] by simp_all
  have named: "procmd_orders_find_cmd orders (o_sheriff_id cmd) \<noteq> None"
    using m by (auto simp add: not_named_iff)
  have no: "p \<notin> set (orphans orders s2)"
    using named by (simp add: orphans_def sid)
  note k = cull_untouched [OF no, of a1 s2, unfolded c fst_conv snd_conv]
  have a2: "a2" using k a1 by simp
  have fin: "carry_out orders s = transmit_proc_info s3"
    using a2 by (simp add: carry_out_def Let_def o c)
  have at3: "cmd_at s3 p = cmd_at s2 p" and m3: "p \<in> set (commands s3)"
    using k m2 by simp_all
  from l obtain ext1 where x1: "effects s2 = effects ?s0 @ ext1" "p \<notin> set (forks_tried ext1)"
    by blast
  from k obtain ext2 where x2: "effects s3 = effects s2 @ ext2" "p \<notin> set (forks_tried ext2)"
    by blast
  have special: "ext1 @ ext2 = [] \<and> commands s3 = [p]"
    if "o_cmds orders = [cmd]" "commands s = [p]"
  proof -
    have oc: "order_cmd cmd (False, ?s0) = update_labels p cmd (False, ?s0)"
      using f0 r0 e0 q by (rule order_cmd_same)
    have s2: "s2 = snd (update_labels p cmd (False, ?s0))"
      using o by (simp add: that oc)
    have "effects s2 = effects ?s0" "commands s2 = [p]"
      unfolding s2 by (simp_all add: update_labels_other that)
    moreover from this have "orphans orders s2 = []"
      using named by (simp add: orphans_def sid)
    ultimately show ?thesis using x1 x2 c by simp
  qed
  have parts: "cmd_at (carry_out orders s) = cmd_at s3" "commands (carry_out orders s) = commands s3"
    by (simp_all add: fin)
  have eff: "effects (carry_out orders s) = effects s @ (ext1 @ ext2) @
      [Publish_info
         \<lparr>in_utime = clock s3 (clock_reads s3), in_host = hostname s3, in_cpu_load = cpu_load s3,
          in_phys_mem_total_bytes = memtotal (cpu_time_cur s3),
          in_phys_mem_free_bytes = memfree (cpu_time_cur s3),
          in_swap_total_bytes = swaptotal (cpu_time_cur s3),
          in_swap_free_bytes = swapfree (cpu_time_cur s3),
          in_cmds = map (\<lambda>p. deputy_cmd_of (cmd_at s3 p)) (commands s3)\<rparr>]"
    by (simp add: fin transmit_proc_info_eq x1 x2)
  have ex: "\<exists>ext info. effects (carry_out orders s) = effects s @ ext @ [Publish_info info] \<and>
         p \<notin> set (forks_tried ext) \<and>
         in_cmds info = map (\<lambda>q. deputy_cmd_of (cmd_at (carry_out orders s) q))
                          (commands (carry_out orders s)) \<and>
         (o_cmds orders = [cmd] \<and> commands s = [p] \<longrightarrow>
            ext = [] \<and> commands (carry_out orders s) = [p])"
    unfolding parts(2)
    apply (rule exI [of _ "ext1 @ ext2"])
    apply (rule exI)
    apply (rule conjI)
     apply (rule eff)
    apply (rule conjI)
     apply (simp add: forks_tried_append x1 x2)
    apply (rule conjI)
     apply (simp add: parts)
    apply (rule impI)
    apply (erule conjE)
    apply (erule (1) special)
    done
  have mi: "mi_of (carry_out orders s) p = mi_of s2 p"
    by (simp add: mi_of_def parts at3)
  show ?thesis
    using l ex m n m3 unfolding mi parts at3 by simp
qed


text \<open>
  Claim C8. Take an order for this deputy that is not stale, a record \<open>cmd\<close> of it that
  is the order's only record for its sheriff id, and let the table have a running
  command \<open>p\<close> for this sheriff id, with another name, the run id that the record
  desires, and no force-quit in the record. After \<open>procman_deputy_order_received\<close>, \<open>p\<close> is
  still in the table, its stored name is the new one and its \<open>argv\<close> the tokens of the new
  name; its pid, its run id, \<open>num_kills_sent\<close>, \<open>last_kill_time\<close> and \<open>remove_requested\<close>
  are what they were, so \<open>stop_cmd\<close> sent it no signal; no fork was tried for \<open>p\<close> among
  the effects \<open>ext\<close> of the order; and the order ends with the publication of the table,
  which shows the new name. When the order has this record only and the table this
  command only, the publication is the only effect of the order: no signal, no fork, no
  message. The process itself is untouched: the new name is used by the next start.
\<close>

theorem rename_running:
  "o_host orders = hostname s \<and> \<not> max_age < sub64 (clock s (clock_reads s)) (o_utime orders) \<and>
   cmd \<in> set (o_cmds orders) \<and>
   (\<forall>c\<in>set (o_cmds orders). o_sheriff_id c = o_sheriff_id cmd \<longrightarrow> c = cmd) \<and>
   find_local_cmd s (o_sheriff_id cmd) = Some p \<and> pid (cmd_at s p) \<noteq> 0 \<and>
   o_name cmd \<noteq> cmd_str (cmd_at s p) \<and>
   o_desired_runid cmd = actual_runid (mi_of s p) \<and> \<not> o_force_quit cmd \<longrightarrow>
   (let s' = procman_deputy_order_received max_age orders s
    in p \<in> set (commands s') \<and>
       cmd_str (cmd_at s' p) = o_name cmd \<and>
       argv (cmd_at s' p) = tokenize s (o_name cmd) \<and>
       pid (cmd_at s' p) = pid (cmd_at s p) \<and>
       actual_runid (mi_of s' p) = actual_runid (mi_of s p) \<and>
       num_kills_sent (mi_of s' p) = num_kills_sent (mi_of s p) \<and>
       last_kill_time (mi_of s' p) = last_kill_time (mi_of s p) \<and>
       remove_requested (mi_of s' p) = remove_requested (mi_of s p) \<and>
       (\<exists>ext info. effects s' = effects s @ ext @ [Publish_info info] \<and>
          p \<notin> set (forks_tried ext) \<and>
          in_cmds info = map (\<lambda>q. deputy_cmd_of (cmd_at s' q)) (commands s') \<and>
          (o_cmds orders = [cmd] \<and> commands s = [p] \<longrightarrow> ext = [] \<and> commands s' = [p])))"
proof (intro impI)
  assume h: "o_host orders = hostname s \<and>
    \<not> max_age < sub64 (clock s (clock_reads s)) (o_utime orders) \<and>
    cmd \<in> set (o_cmds orders) \<and>
    (\<forall>c\<in>set (o_cmds orders). o_sheriff_id c = o_sheriff_id cmd \<longrightarrow> c = cmd) \<and>
    find_local_cmd s (o_sheriff_id cmd) = Some p \<and> pid (cmd_at s p) \<noteq> 0 \<and>
    o_name cmd \<noteq> cmd_str (cmd_at s p) \<and>
    o_desired_runid cmd = actual_runid (mi_of s p) \<and> \<not> o_force_quit cmd"
  let ?s3 = "s\<lparr>norders_slm := norders_slm s + 1,
                norders_forme_slm := norders_forme_slm s + 1,
                clock_reads := Suc (clock_reads s)\<rparr>"
  have r: "procman_deputy_order_received max_age orders s = carry_out orders ?s3"
    using h by (simp add: order_received_carry_out)
  have f: "find_local_cmd ?s3 (o_sheriff_id cmd) = Some p"
    using h by (simp add: find_local_cmd_def)
  have s3: "cmd_at ?s3 = cmd_at s" "mi_of ?s3 p = mi_of s p" "tokenize ?s3 = tokenize s"
    "effects ?s3 = effects s" "commands ?s3 = commands s"
    by simp_all
  note c = carry_out_rename [where orders = orders and cmd = cmd and s = ?s3 and p = p,
      unfolded s3, OF _ _ f]
  show "let s' = procman_deputy_order_received max_age orders s
    in p \<in> set (commands s') \<and>
       cmd_str (cmd_at s' p) = o_name cmd \<and>
       argv (cmd_at s' p) = tokenize s (o_name cmd) \<and>
       pid (cmd_at s' p) = pid (cmd_at s p) \<and>
       actual_runid (mi_of s' p) = actual_runid (mi_of s p) \<and>
       num_kills_sent (mi_of s' p) = num_kills_sent (mi_of s p) \<and>
       last_kill_time (mi_of s' p) = last_kill_time (mi_of s p) \<and>
       remove_requested (mi_of s' p) = remove_requested (mi_of s p) \<and>
       (\<exists>ext info. effects s' = effects s @ ext @ [Publish_info info] \<and>
          p \<notin> set (forks_tried ext) \<and>
          in_cmds info = map (\<lambda>q. deputy_cmd_of (cmd_at s' q)) (commands s') \<and>
          (o_cmds orders = [cmd] \<and> commands s = [p] \<longrightarrow> ext = [] \<and> commands s' = [p]))"
    unfolding Let_def r using h by (intro c) simp_all
qed

theorem rename_running_witness:
  "o_host example_rename_orders = hostname example_running \<and>
   \<not> 60000000 < sub64 (clock example_running (clock_reads example_running))
                      (o_utime example_rename_orders) \<and>
   o_cmds example_rename_orders = [(example_cmd 1 False)\<lparr>o_name := ''sleep 120''\<rparr>] \<and>
   find_local_cmd example_running 1 = Some 0 \<and>
   commands example_running = [0] \<and>
   pid (cmd_at example_running 0) = 100 \<and>
   cmd_str (cmd_at example_running 0) = ''sleep 60'' \<and>
   actual_runid (mi_of example_running 0) = 1 \<and>
   cmd_str (cmd_at (procman_deputy_order_received 60000000 example_rename_orders
                      example_running) 0) = ''sleep 120'' \<and>
   argv (cmd_at (procman_deputy_order_received 60000000 example_rename_orders
                   example_running) 0) = [''sleep 120''] \<and>
   pid (cmd_at (procman_deputy_order_received 60000000 example_rename_orders
                  example_running) 0) = 100 \<and>
   signals_sent (effects (procman_deputy_order_received 60000000 example_rename_orders
                            example_running)) = [] \<and>
   forks_tried (effects (procman_deputy_order_received 60000000 example_rename_orders
                           example_running)) = [] \<and>
   effects (procman_deputy_order_received 60000000 example_rename_orders example_running) =
     [Publish_info
        \<lparr>in_utime = 2000000, in_host = ''robot'', in_cpu_load = 0,
         in_phys_mem_total_bytes = 0, in_phys_mem_free_bytes = 0,
         in_swap_total_bytes = 0, in_swap_free_bytes = 0,
         in_cmds = [\<lparr>dc_name = ''sleep 120'', dc_nickname = ''s'', dc_actual_runid = 1,
                     dc_pid = 100, dc_exit_code = 0, dc_sheriff_id = 1, dc_group = ''g'',
                     dc_cpu_usage = 0, dc_mem_vsize_bytes = 0, dc_mem_rss_bytes = 0\<rparr>]\<rparr>]"
proof -
  have run: "effects (procman_deputy_order_received 60000000 example_rename_orders
                         example_running) =
     [Publish_info
        \<lparr>in_utime = 2000000, in_host = ''robot'', in_cpu_load = 0,
         in_phys_mem_total_bytes = 0, in_phys_mem_free_bytes = 0,
         in_swap_total_bytes = 0, in_swap_free_bytes = 0,
         in_cmds = [\<lparr>dc_name = ''sleep 120'', dc_nickname = ''s'', dc_actual_runid = 1,
                     dc_pid = 100, dc_exit_code = 0, dc_sheriff_id = 1, dc_group = ''g'',
                     dc_cpu_usage = 0, dc_mem_vsize_bytes = 0, dc_mem_rss_bytes = 0\<rparr>]\<rparr>]"
    by (simp add: run_defs example_rename_orders_def example_running_def deputy_cmd_of_def
        procman_cmd_change_str_def set_command_nickname_def set_command_group_def)
  have h: "o_host example_rename_orders = ''robot''" "hostname example_running = ''robot''"
    "\<not> 60000000 < sub64 (clock example_running (clock_reads example_running))
                      (o_utime example_rename_orders)"
    "o_cmds example_rename_orders = [(example_cmd 1 False)\<lparr>o_name := ''sleep 120''\<rparr>]"
    "find_local_cmd example_running 1 = Some 0"
    "commands example_running = [0]"
    "pid (cmd_at example_running 0) = 100"
    "cmd_str (cmd_at example_running 0) = ''sleep 60''"
    "actual_runid (mi_of example_running 0) = 1"
    "effects example_running = []"
    "tokenize example_running = (\<lambda>s. [s])"
    "o_sheriff_id ((example_cmd 1 False)\<lparr>o_name := ''sleep 120''\<rparr>) = 1"
    "o_sheriff_id (example_cmd 1 False) = 1"
    "o_name ((example_cmd 1 False)\<lparr>o_name := ''sleep 120''\<rparr>) = ''sleep 120''"
    "o_desired_runid ((example_cmd 1 False)\<lparr>o_name := ''sleep 120''\<rparr>) = 1"
    "o_desired_runid (example_cmd 1 False) = 1"
    "\<not> o_force_quit ((example_cmd 1 False)\<lparr>o_name := ''sleep 120''\<rparr>)"
    "\<not> o_force_quit (example_cmd 1 False)"
    by (simp_all add: example_rename_orders_def example_orders_def example_cmd_def
        example_running_def example_deputy_def find_local_cmd_def mi_of_def calloc_moreinfo_def
        sub64_def)
  show ?thesis
    using rename_running [of example_rename_orders example_running 60000000
        "(example_cmd 1 False)\<lparr>o_name := ''sleep 120''\<rparr>" 0] run
    by (auto simp add: h Let_def)
qed


end
